(* ===== verification/Prelude.thy ===== *)
theory Prelude
  imports Main "HOL-Library.Word"
begin

text \<open>
  What the components share: the machine integers of the C++ code, the outcomes of an operation
  that can leave the language's defined behaviour, loops over an index range that stop at the
  first such outcome, block copies between arrays (\<open>memcpy\<close>), and the modular-successor
  arithmetic of the ring buffers. The collections \<open>ring_simps\<close>, \<open>shm_simps\<close>,
  \<open>flt_simps\<close> and \<open>inv_intros\<close> are filled by the component theories.
\<close>

unbundle bit_operations_syntax

named_theorems ring_simps \<open>how the ring buffer operations act on the abstract queue\<close>
named_theorems shm_simps \<open>rewriting of shared-memory accessors and constants\<close>
named_theorems flt_simps \<open>floating point facts used as rewrite rules\<close>
named_theorems inv_intros \<open>preservation of the components' invariants\<close>

section \<open>Machine integers\<close>

type_synonym u8 = "8 word"
type_synonym u32 = "32 word"
type_synonym u64 = "64 word"

text \<open>
  A C++ \<open>int\<close> argument is an \<open>int\<close> between \<open>INT_MIN\<close> and \<open>INT_MAX\<close>; the
  conversion to \<open>uint32_t\<close> is reduction modulo \<open>2 ^ 32\<close>, which is \<open>of_int\<close> on words.
\<close>

definition c_int :: "int \<Rightarrow> bool" where
  "c_int i \<longleftrightarrow> - (2 ^ 31) \<le> i \<and> i < 2 ^ 31"

lemma unat_lt_64 [simp]: "unat (w :: u64) < 18446744073709551616"
  using unsigned_less [of w] by simp

lemma unat_lt_32 [simp]: "unat (w :: u32) < 4294967296"
  using unsigned_less [of w] by simp

lemma unat_of_int_u32:
  assumes "0 \<le> i" "i < 2 ^ 32"
  shows "unat (of_int i :: u32) = nat i"
  using assms by (simp add: unat_eq_nat_uint uint_word_of_int take_bit_int_eq_self)

lemma unat_of_nat_u64 [simp]: "n < 2 ^ 64 \<Longrightarrow> unat (of_nat n :: u64) = n"
  by (simp add: unat_of_nat take_bit_nat_eq_self)

section \<open>Outcomes\<close>

text \<open>
  What an operation does when it leaves the defined behaviour of the language: a null pointer
  is dereferenced, an array is read or written outside its bounds, a conversion has no
  defined result, or a signed operation overflows. An operation that can do so returns \<open>c_error + 'a\<close>.
\<close>

datatype c_error = Null_Deref | Out_Of_Bounds | Undefined_Conversion | Signed_Overflow

type_synonym 'a outcome = "c_error + 'a"

fun succeeds :: "'e + 'a \<Rightarrow> bool" where
  "succeeds (Inl e) = False"
| "succeeds (Inr x) = True"

lemma succeeds_iff: "succeeds r \<longleftrightarrow> (\<exists>x. r = Inr x)"
  by (cases r) auto

section \<open>Loops\<close>

text \<open>A \<open>for\<close> loop over a list of indices whose body may fail; the first failure ends it.\<close>

fun for_each :: "('i \<Rightarrow> 's \<Rightarrow> 'e + 's) \<Rightarrow> 'i list \<Rightarrow> 's \<Rightarrow> 'e + 's" where
  "for_each body [] s = Inr s"
| "for_each body (i # js) s = (case body i s of Inl e \<Rightarrow> Inl e | Inr s' \<Rightarrow> for_each body js s')"

lemma for_each_append:
  "for_each body (xs @ ys) s = (case for_each body xs s of Inl e \<Rightarrow> Inl e | Inr s' \<Rightarrow> for_each body ys s')"
  by (induction xs arbitrary: s) (auto split: sum.splits)

text \<open>Total correctness of an index loop: an invariant that each pass establishes for the next index.\<close>

lemma for_each_upt:
  assumes init: "P 0 s"
    and step: "\<And>i t. i < n \<Longrightarrow> P i t \<Longrightarrow> \<exists>t'. body i t = Inr t' \<and> P (Suc i) t'"
  shows "\<exists>s'. for_each body [0..<n] s = Inr s' \<and> P n s'"
  using step
proof (induction n)
  case 0
  then show ?case using init by simp
next
  case (Suc n)
  then obtain s' where s': "for_each body [0..<n] s = Inr s'" "P n s'"
    using less_SucI by blast
  from Suc.prems [of n s'] s'(2) obtain t where "body n s' = Inr t" "P (Suc n) t" by auto
  with s' show ?case by (simp add: for_each_append)
qed

lemma for_each_inv:
  assumes "for_each body js s = Inr s'" "P s"
    and "\<And>i t t'. i \<in> set js \<Longrightarrow> P t \<Longrightarrow> body i t = Inr t' \<Longrightarrow> P t'"
  shows "P s'"
  using assms
proof (induction js arbitrary: s)
  case Nil
  then show ?case by simp
next
  case (Cons i js)
  from Cons.prems(1) obtain t where t: "body i s = Inr t" "for_each body js t = Inr s'"
    by (auto split: sum.splits)
  from Cons.prems(2,3) t(1) have "P t" by auto
  with Cons.IH t(2) Cons.prems(3) show ?case by auto
qed

lemma for_each_ok:
  assumes "\<And>x t. x \<in> set xs \<Longrightarrow> P t \<Longrightarrow> \<exists>t'. body x t = Inr t' \<and> P t'" "P s"
  shows "\<exists>s'. for_each body xs s = Inr s' \<and> P s'"
  using assms
proof (induction xs arbitrary: s)
  case (Cons x xs)
  from Cons.prems(1) [of x s] Cons.prems(2) obtain t where "body x s = Inr t" "P t" by auto
  with Cons.IH [of t] Cons.prems(1) show ?case by simp
qed simp

text \<open>A loop whose body fails on exactly the bad elements fails if and only if there is one.\<close>

lemma for_each_outcome:
  assumes "\<And>x t. x \<in> set xs \<Longrightarrow> P t \<Longrightarrow> if bad x then \<exists>e. body x t = Inl e else \<exists>t'. body x t = Inr t' \<and> P t'" "P s"
  shows "if list_ex bad xs then \<exists>e. for_each body xs s = Inl e else \<exists>s'. for_each body xs s = Inr s' \<and> P s'"
  using assms
proof (induction xs arbitrary: s)
  case (Cons x xs)
  show ?case
  proof (cases "bad x")
    case True
    with Cons.prems(1) [of x s] Cons.prems(2) show ?thesis by auto
  next
    case False
    with Cons.prems(1) [of x s] Cons.prems(2) obtain t where "body x s = Inr t" "P t" by auto
    with Cons.IH [of t] Cons.prems(1) False show ?thesis by simp
  qed
qed simp

lemma take_take_append: "take n (take n xs @ ys) = take n (xs @ ys)"
  by (cases "n \<le> length xs") simp_all

lemma for_each_fail_first:
  "body i s = Inl e \<Longrightarrow> for_each body (i # js) s = Inl e"
  by simp

text \<open>\<open>do write(...) while (res < 0 && errno == EINTR)\<close>: each interruption repeats the call.\<close>

fun retry_write :: "nat \<Rightarrow> bool \<Rightarrow> bool" where
  "retry_write 0 ok = ok"
| "retry_write (Suc n) ok = retry_write n ok"

lemma retry_write_eq [simp]: "retry_write n ok = ok"
  by (induction n) simp_all

section \<open>Block copies\<close>

text \<open>
  \<open>memcpy(&dst[off], src, n * sizeof *src)\<close> on arrays of a fixed length: it copies the first
  \<open>n\<close> elements of \<open>src\<close> to \<open>dst\<close> from index \<open>off\<close> on, and reads or writes out of bounds
  when either array is too short.
\<close>

definition memcpy_at :: "'a list \<Rightarrow> nat \<Rightarrow> 'a list \<Rightarrow> nat \<Rightarrow> 'a list outcome" where
  "memcpy_at dst off src n =
     (if off + n \<le> length dst \<and> n \<le> length src
      then Inr (take off dst @ take n src @ drop (off + n) dst)
      else Inl Out_Of_Bounds)"

lemma memcpy_at_length: "memcpy_at dst off src n = Inr d \<Longrightarrow> length d = length dst"
  by (auto simp: memcpy_at_def split: if_splits)

lemma memcpy_at_ok:
  "off + n \<le> length dst \<Longrightarrow> n \<le> length src \<Longrightarrow> \<exists>d. memcpy_at dst off src n = Inr d"
  by (simp add: memcpy_at_def)

lemma memcpy_at_nth:
  assumes "memcpy_at dst off src n = Inr d" "k < length dst"
  shows "d ! k = (if off \<le> k \<and> k < off + n then src ! (k - off) else dst ! k)"
proof -
  from assms have b: "off + n \<le> length dst" "n \<le> length src"
    and d: "d = take off dst @ take n src @ drop (off + n) dst"
    by (auto simp: memcpy_at_def split: if_splits)
  consider "k < off" | "off \<le> k" "k < off + n" | "off + n \<le> k" by linarith
  then show ?thesis
  proof cases
    case 3
    with b have "\<not> k < off" "\<not> k - off < n" "n \<le> k - off" by auto
    with 3 b assms(2) show ?thesis by (simp add: d nth_append min_def)
  qed (use b in \<open>auto simp: d nth_append min_def\<close>)
qed

lemma memcpy_at_self_prefix:
  "memcpy_at dst 0 src n = Inr d \<Longrightarrow> take n d = take n src"
  by (auto simp: memcpy_at_def split: if_splits)

section \<open>Modular successor\<close>

text \<open>\<open>(i + 1) % Capacity\<close> on 64-bit indices is the successor modulo the capacity: it cannot wrap.\<close>

lemma unat_succ_mod:
  fixes t c :: u64
  assumes "unat t < unat c"
  shows "unat ((t + 1) mod c) = Suc (unat t) mod unat c"
proof -
  have "unat c < 18446744073709551616" by simp
  with assms have "unat t + 1 < 18446744073709551616" by linarith
  then have "unat (t + 1) = Suc (unat t)"
    by (simp add: unat_word_ariths(1))
  then show ?thesis by (simp add: unat_mod_distrib)
qed

lemma Suc_mod_if: "a < n \<Longrightarrow> Suc a mod n = (if Suc a = n then 0 else Suc a)"
  by auto

text \<open>The distance from \<open>h\<close> forward to \<open>t\<close> around a ring of \<open>n\<close> slots.\<close>

definition ring_dist :: "nat \<Rightarrow> nat \<Rightarrow> nat \<Rightarrow> nat" where
  "ring_dist n h t = (t + n - h) mod n"

lemma ring_dist_lt [simp]: "0 < n \<Longrightarrow> ring_dist n h t < n"
  by (simp add: ring_dist_def)

lemma ring_dist_eq:
  "h < n \<Longrightarrow> t < n \<Longrightarrow> ring_dist n h t = (if h \<le> t then t - h else t + n - h)"
  by (auto simp: ring_dist_def mod_if)

lemma ring_dist_0: "h < n \<Longrightarrow> t < n \<Longrightarrow> ring_dist n h t = 0 \<longleftrightarrow> h = t"
  by (auto simp: ring_dist_eq)

lemma ring_dist_full: "h < n \<Longrightarrow> t < n \<Longrightarrow> ring_dist n h t = n - 1 \<longleftrightarrow> Suc t mod n = h"
  by (auto simp: ring_dist_eq Suc_mod_if)

lemma ring_dist_Suc_tail:
  "h < n \<Longrightarrow> t < n \<Longrightarrow> Suc t mod n \<noteq> h \<Longrightarrow> ring_dist n h (Suc t mod n) = Suc (ring_dist n h t)"
  by (auto simp: ring_dist_eq Suc_mod_if)

lemma ring_dist_Suc_head:
  "h < n \<Longrightarrow> t < n \<Longrightarrow> h \<noteq> t \<Longrightarrow> ring_dist n h t = Suc (ring_dist n (Suc h mod n) t)"
  by (auto simp: ring_dist_eq Suc_mod_if)

lemma ring_slot_before_tail:
  assumes "h < n" "t < n" "k < ring_dist n h t"
  shows "(h + k) mod n \<noteq> t"
proof (cases "h + k < n")
  case True
  with assms show ?thesis by (auto simp: ring_dist_eq split: if_splits)
next
  case False
  with assms have "h + k - n < n" by (auto simp: ring_dist_eq split: if_splits)
  with False have "(h + k) mod n = h + k - n" by (simp add: le_mod_geq)
  with False assms show ?thesis by (auto simp: ring_dist_eq split: if_splits)
qed

lemma ring_dist_tail: "h < n \<Longrightarrow> t < n \<Longrightarrow> (h + ring_dist n h t) mod n = t"
  by (auto simp: ring_dist_eq)

end
