(* ===== verification/Ring.thy ===== *)
theory Ring
  imports Prelude
begin

text \<open>
  The single-producer single-consumer ring buffer \<open>ShmSPSCRingBuffer\<close> of
  \<open>daemon/ipc/include/ipc_shm.hpp\<close>, each operation as one step (the interleavings of a
  producer and a consumer are the subject of theory \<open>Ring_Concurrent\<close>), and the older variant
  of \<open>Linux_DSP_accelleration.hpp\<close> that masks the index instead of reducing it. The interface
  the clients use is the locale \<open>fifo_interface\<close>, interpreted on both variants.
\<close>

section \<open>The buffer and its operations\<close>

text \<open>
  A pointer to a slot is its index in \<open>rb_data\<close>; \<open>None\<close> is \<open>nullptr\<close>. The fields \<open>head_\<close>, \<open>tail_\<close> and \<open>data_\<close> carry the prefix \<open>rb\<close> (a name cannot end in an underscore). The template
  parameter \<open>Capacity\<close> is the length of the array.
\<close>

record 'a ring =
  rb_head :: u64
  rb_tail :: u64
  rb_data :: "'a list"

definition capacity :: "'a ring \<Rightarrow> u64" where
  "capacity q = of_nat (length (rb_data q))"

definition peek_read :: "'a ring \<Rightarrow> nat option" where
  "peek_read q = (let current_head = rb_head q in
     if current_head = rb_tail q then None else Some (unat current_head))"

definition commit_read :: "'a ring \<Rightarrow> 'a ring" where
  "commit_read q = (let current_head = rb_head q in q\<lparr>rb_head := (current_head + 1) mod capacity q\<rparr>)"

definition reserve_write :: "'a ring \<Rightarrow> nat option" where
  "reserve_write q =
     (let current_tail = rb_tail q; next_tail = (current_tail + 1) mod capacity q in
      if next_tail = rb_head q then None else Some (unat current_tail))"

definition commit_write :: "'a ring \<Rightarrow> 'a ring" where
  "commit_write q = (let current_tail = rb_tail q in q\<lparr>rb_tail := (current_tail + 1) mod capacity q\<rparr>)"

definition push :: "'a ring \<Rightarrow> 'a \<Rightarrow> bool \<times> 'a ring" where
  "push q item =
     (let current_tail = rb_tail q; next_tail = (current_tail + 1) mod capacity q in
      if next_tail = rb_head q then (False, q)
      else (True, q\<lparr>rb_data := (rb_data q)[unat current_tail := item], rb_tail := next_tail\<rparr>))"

text \<open>\<open>pop\<close> returns the item it stores in its reference argument, or \<open>None\<close> for \<open>false\<close>.\<close>

definition pop :: "'a ring \<Rightarrow> 'a option \<times> 'a ring" where
  "pop q =
     (let current_head = rb_head q in
      if current_head = rb_tail q then (None, q)
      else (Some (rb_data q ! unat current_head), q\<lparr>rb_head := (current_head + 1) mod capacity q\<rparr>))"

definition empty :: "'a ring \<Rightarrow> bool" where
  "empty q \<longleftrightarrow> rb_head q = rb_tail q"

text \<open>Stores through the pointers that \<open>reserve_write\<close> and \<open>peek_read\<close> return.\<close>

definition slot_at :: "'a ring \<Rightarrow> nat \<Rightarrow> 'a" where
  "slot_at q i = rb_data q ! i"

definition store_slot :: "'a ring \<Rightarrow> nat \<Rightarrow> 'a \<Rightarrow> 'a ring" where
  "store_slot q i x = q\<lparr>rb_data := (rb_data q)[i := x]\<rparr>"

text \<open>A freshly constructed buffer: both indices are 0.\<close>

definition new_ring :: "nat \<Rightarrow> 'a \<Rightarrow> 'a ring" where
  "new_ring n x = \<lparr>rb_head = 0, rb_tail = 0, rb_data = replicate n x\<rparr>"

section \<open>Well-formedness and the abstract queue\<close>

definition ring_wf :: "'a ring \<Rightarrow> bool" where
  "ring_wf q \<longleftrightarrow> 0 < length (rb_data q) \<and> length (rb_data q) < 2 ^ 64 \<and>
     unat (rb_head q) < length (rb_data q) \<and> unat (rb_tail q) < length (rb_data q)"

definition ring_count :: "'a ring \<Rightarrow> nat" where
  "ring_count q = ring_dist (length (rb_data q)) (unat (rb_head q)) (unat (rb_tail q))"

definition items :: "'a ring \<Rightarrow> 'a list" where
  "items q = map (\<lambda>k. rb_data q ! ((unat (rb_head q) + k) mod length (rb_data q))) [0..<ring_count q]"

definition ring_room :: "'a ring \<Rightarrow> nat" where
  "ring_room q = length (rb_data q) - 1"

lemma unat_capacity: "ring_wf q \<Longrightarrow> unat (capacity q) = length (rb_data q)"
  by (simp add: ring_wf_def capacity_def)

lemma unat_next:
  "ring_wf q \<Longrightarrow> unat i < length (rb_data q) \<Longrightarrow>
     unat ((i + 1) mod capacity q) = Suc (unat i) mod length (rb_data q)"
  using unat_succ_mod [of i "capacity q"] by (simp add: unat_capacity)

lemma length_items [simp]: "length (items q) = ring_count q"
  by (simp add: items_def)

lemma ring_count_lt: "ring_wf q \<Longrightarrow> ring_count q < length (rb_data q)"
  by (simp add: ring_wf_def ring_count_def)

lemma ring_wf_new [simp]: "0 < n \<Longrightarrow> n < 2 ^ 64 \<Longrightarrow> ring_wf (new_ring n x)"
  by (simp add: ring_wf_def new_ring_def)

lemma items_new [simp]: "items (new_ring n x) = []"
  by (simp add: items_def ring_count_def new_ring_def ring_dist_def)

lemma empty_iff: "ring_wf q \<Longrightarrow> empty q \<longleftrightarrow> items q = []"
  using ring_dist_0 [of "unat (rb_head q)" "length (rb_data q)" "unat (rb_tail q)"]
  by (simp add: empty_def ring_wf_def ring_count_def items_def word_unat_eq_iff)

lemma full_iff:
  assumes "ring_wf q"
  shows "(rb_tail q + 1) mod capacity q = rb_head q \<longleftrightarrow> length (items q) = ring_room q"
proof -
  have "(rb_tail q + 1) mod capacity q = rb_head q \<longleftrightarrow> Suc (unat (rb_tail q)) mod length (rb_data q) = unat (rb_head q)"
    using assms unat_next [of q "rb_tail q"] by (simp add: word_unat_eq_iff ring_wf_def)
  then show ?thesis
    using assms ring_dist_full [of "unat (rb_head q)" "length (rb_data q)" "unat (rb_tail q)"]
    by (simp add: ring_wf_def ring_count_def ring_room_def)
qed

section \<open>The operations on the abstract queue\<close>

text \<open>The slot one past the last item, which the producer writes, holds no item.\<close>

lemma items_store_tail:
  assumes "ring_wf q"
  shows "items (store_slot q (unat (rb_tail q)) x) = items q"
proof -
  let ?n = "length (rb_data q)" and ?h = "unat (rb_head q)" and ?t = "unat (rb_tail q)"
  have "(?h + k) mod ?n \<noteq> ?t" if k: "k < ring_dist ?n ?h ?t" for k
    using assms k ring_slot_before_tail [of ?h ?n ?t k] by (simp add: ring_wf_def)
  then have "(rb_data q)[?t := x] ! ((?h + k) mod ?n) = rb_data q ! ((?h + k) mod ?n)"
    if "k < ring_dist ?n ?h ?t" for k
    using that by (intro nth_list_update_neq) metis
  then show ?thesis
    by (simp add: items_def store_slot_def ring_count_def)
qed

lemma items_commit_write:
  assumes "ring_wf q" "(rb_tail q + 1) mod capacity q \<noteq> rb_head q"
  shows "items (commit_write q) = items q @ [rb_data q ! unat (rb_tail q)]"
    and "ring_wf (commit_write q)"
proof -
  let ?n = "length (rb_data q)" and ?h = "unat (rb_head q)" and ?t = "unat (rb_tail q)"
  have b: "?h < ?n" "?t < ?n" using assms(1) by (auto simp: ring_wf_def)
  have nxt: "unat ((rb_tail q + 1) mod capacity q) = Suc ?t mod ?n"
    using unat_next [OF assms(1) b(2)] .
  with assms(2) have ne: "Suc ?t mod ?n \<noteq> ?h" by (metis word_unat_eq_iff)
  have c: "ring_count (commit_write q) = Suc (ring_count q)"
    using nxt ring_dist_Suc_tail [OF b ne] by (simp add: ring_count_def commit_write_def Let_def)
  have last: "(?h + ring_count q) mod ?n = ?t"
    unfolding ring_count_def by (rule ring_dist_tail [OF b])
  show "items (commit_write q) = items q @ [rb_data q ! unat (rb_tail q)]"
    unfolding items_def c using last by (simp add: commit_write_def Let_def)
  show "ring_wf (commit_write q)"
    using assms(1) nxt by (simp add: ring_wf_def commit_write_def Let_def)
qed

lemma items_commit_read:
  assumes "ring_wf q" "rb_head q \<noteq> rb_tail q"
  shows "items q = rb_data q ! unat (rb_head q) # items (commit_read q)"
    and "ring_wf (commit_read q)"
proof -
  let ?n = "length (rb_data q)" and ?h = "unat (rb_head q)" and ?t = "unat (rb_tail q)"
  have b: "?h < ?n" "?t < ?n" using assms(1) by (auto simp: ring_wf_def)
  have nxt: "unat ((rb_head q + 1) mod capacity q) = Suc ?h mod ?n"
    using unat_next [OF assms(1) b(1)] .
  have ne: "?h \<noteq> ?t" using assms(2) by (simp add: word_unat_eq_iff)
  have c: "ring_count q = Suc (ring_count (commit_read q))"
    using nxt ring_dist_Suc_head [OF b ne] by (simp add: ring_count_def commit_read_def Let_def)
  have sh: "(?h + Suc k) mod ?n = (Suc ?h mod ?n + k) mod ?n" for k
    by (simp add: mod_simps)
  show "items q = rb_data q ! unat (rb_head q) # items (commit_read q)"
    unfolding items_def c upt_conv_Cons [OF zero_less_Suc] map_upt_Suc
    using nxt b sh by (simp add: commit_read_def Let_def del: upt_Suc flip: map_Suc_upt)
  show "ring_wf (commit_read q)"
    using assms(1) nxt by (simp add: ring_wf_def commit_read_def Let_def)
qed

text \<open>\<open>push\<close> is \<open>reserve_write\<close>, a store, \<open>commit_write\<close>; \<open>pop\<close> is \<open>peek_read\<close>, a load, \<open>commit_read\<close>.\<close>

lemma push_via_reserve:
  "push q x = (case reserve_write q of None \<Rightarrow> (False, q)
     | Some i \<Rightarrow> (True, commit_write (store_slot q i x)))"
  by (simp add: push_def reserve_write_def commit_write_def store_slot_def Let_def capacity_def)

lemma pop_via_peek:
  "pop q = (case peek_read q of None \<Rightarrow> (None, q) | Some i \<Rightarrow> (Some (slot_at q i), commit_read q))"
  by (simp add: pop_def peek_read_def commit_read_def slot_at_def Let_def)

lemma ring_wf_store [simp]: "ring_wf (store_slot q i x) = ring_wf q"
  by (simp add: ring_wf_def store_slot_def)

lemma ring_room_simps [simp]:
  "ring_room (store_slot q i x) = ring_room q"
  "ring_room (commit_write q) = ring_room q"
  "ring_room (commit_read q) = ring_room q"
  by (simp_all add: ring_room_def store_slot_def commit_write_def commit_read_def Let_def)

lemma reserve_write_iff:
  "ring_wf q \<Longrightarrow> reserve_write q = (if length (items q) = ring_room q then None else Some (unat (rb_tail q)))"
  using full_iff [of q] by (simp add: reserve_write_def Let_def)

lemma peek_read_iff:
  "ring_wf q \<Longrightarrow> peek_read q = (if items q = [] then None else Some (unat (rb_head q)))"
  using empty_iff [of q] by (simp add: peek_read_def empty_def Let_def)

lemma write_committed:
  assumes "ring_wf q" "reserve_write q = Some i"
  shows "items (commit_write (store_slot q i x)) = items q @ [x]"
    and "ring_wf (commit_write (store_slot q i x))"
proof -
  have i: "i = unat (rb_tail q)" and ne: "(rb_tail q + 1) mod capacity q \<noteq> rb_head q"
    using assms(2) by (auto simp: reserve_write_def Let_def split: if_splits)
  have w: "ring_wf (store_slot q i x)" using assms(1) by simp
  have ne': "(rb_tail (store_slot q i x) + 1) mod capacity (store_slot q i x) \<noteq> rb_head (store_slot q i x)"
    using ne by (simp add: store_slot_def capacity_def)
  have "rb_data (store_slot q i x) ! unat (rb_tail (store_slot q i x)) = x"
    using assms(1) i by (simp add: store_slot_def ring_wf_def)
  with items_commit_write [OF w ne'] items_store_tail [OF assms(1)] i
  show "items (commit_write (store_slot q i x)) = items q @ [x]"
    and "ring_wf (commit_write (store_slot q i x))"
    by simp_all
qed

lemma read_committed:
  assumes "ring_wf q" "peek_read q = Some i"
  shows "items q = slot_at q i # items (commit_read q)" and "ring_wf (commit_read q)"
proof -
  have i: "i = unat (rb_head q)" and ne: "rb_head q \<noteq> rb_tail q"
    using assms(2) by (auto simp: peek_read_def Let_def split: if_splits)
  show "items q = slot_at q i # items (commit_read q)" and "ring_wf (commit_read q)"
    using items_commit_read [OF assms(1) ne] i by (simp_all add: slot_at_def)
qed

text \<open>Overwriting the slot being read, before it is released, does not change what is left.\<close>

lemma items_store_head:
  assumes "ring_wf q" "peek_read q = Some i"
  shows "items (commit_read (store_slot q i x)) = items (commit_read q)"
proof -
  let ?n = "length (rb_data q)"
  have i: "i = unat (rb_head q)" and ne: "rb_head q \<noteq> rb_tail q"
    using assms(2) by (auto simp: peek_read_def Let_def split: if_splits)
  have b: "unat (rb_head q) < ?n" "unat (rb_tail q) < ?n" using assms(1) by (auto simp: ring_wf_def)
  have nh: "unat ((rb_head q + 1) mod capacity q) = Suc i mod ?n" using unat_next [OF assms(1) b(1)] i by simp
  have c: "ring_count q = Suc (ring_count (commit_read q))"
    using items_commit_read(1) [OF assms(1) ne] by (metis length_Cons length_items)
  have "i \<noteq> (Suc i mod ?n + k) mod ?n" if "k < ring_count (commit_read q)" for k
  proof
    assume "i = (Suc i mod ?n + k) mod ?n"
    then have "(Suc i mod ?n + k) mod ?n = i" by simp
    then have "(i + Suc k) mod ?n = (i + 0) mod ?n" using b(1) i by (simp add: mod_simps)
    then have "?n dvd Suc k" by (metis add_diff_cancel_left' le_add1 mod_eq_dvd_iff_nat add_0_right)
    moreover have "Suc k < ?n" using that c ring_count_lt [OF assms(1)] by simp
    ultimately show False by (metis nat_dvd_not_less zero_less_Suc)
  qed
  then show ?thesis
    unfolding items_def using nh c
    by (intro map_cong)
      (simp_all add: commit_read_def store_slot_def Let_def capacity_def ring_count_def nth_list_update_neq)
qed

text \<open>The contracts of \<open>push\<close> and \<open>pop\<close>, as rewrite rules of the clients.\<close>

lemma push_cases:
  assumes "ring_wf q"
  obtains (full) "length (items q) = ring_room q" "push q x = (False, q)"
  | (pushed) q' where "length (items q) < ring_room q" "push q x = (True, q')" "ring_wf q'"
      "items q' = items q @ [x]" "ring_room q' = ring_room q"
proof (cases "reserve_write q")
  case None
  then have "length (items q) = ring_room q"
    using reserve_write_iff [OF assms] by (simp split: if_splits)
  with None show ?thesis by (intro full) (auto simp: push_via_reserve)
next
  case (Some i)
  then have "length (items q) \<noteq> ring_room q"
    using reserve_write_iff [OF assms] by (simp split: if_splits)
  moreover have "length (items q) \<le> ring_room q"
    using ring_count_lt [OF assms] by (simp add: ring_room_def)
  ultimately show ?thesis
    using Some write_committed [OF assms Some]
    by (intro pushed [of "commit_write (store_slot q i x)"]) (auto simp: push_via_reserve)
qed

lemma pop_cases:
  assumes "ring_wf q"
  obtains (none) "items q = []" "pop q = (None, q)"
  | (popped) y q' where "items q = y # items q'" "pop q = (Some y, q')" "ring_wf q'"
      "ring_room q' = ring_room q"
proof (cases "peek_read q")
  case None
  then have "items q = []" using peek_read_iff [OF assms] by (simp split: if_splits)
  with None show ?thesis by (intro none) (auto simp: pop_via_peek)
next
  case (Some i)
  with read_committed [OF assms Some] show ?thesis
    by (intro popped [of "slot_at q i" "commit_read q"]) (auto simp: pop_via_peek)
qed

section \<open>The interface its clients use\<close>

text \<open>
  Sequences of operations on a queue: what was accepted, what was delivered, the final queue.
\<close>

datatype 'a fifo_op = Enq 'a | Deq

fun run_fifo :: "('q \<Rightarrow> 'a \<Rightarrow> bool \<times> 'q) \<Rightarrow> ('q \<Rightarrow> 'a option \<times> 'q) \<Rightarrow> 'a fifo_op list \<Rightarrow> 'q
    \<Rightarrow> 'a list \<times> 'a list \<times> 'q" where
  "run_fifo enq deq [] q = ([], [], q)"
| "run_fifo enq deq (Enq x # ops) q =
     (let (ok, q1) = enq q x; (acc, del, q2) = run_fifo enq deq ops q1
      in (if ok then x # acc else acc, del, q2))"
| "run_fifo enq deq (Deq # ops) q =
     (let (y, q1) = deq q; (acc, del, q2) = run_fifo enq deq ops q1
      in (acc, (case y of None \<Rightarrow> del | Some z \<Rightarrow> z # del), q2))"

text \<open>A bounded queue: what every client of the shared-memory buses relies on.\<close>

locale fifo_interface =
  fixes enq :: "'q \<Rightarrow> 'a \<Rightarrow> bool \<times> 'q"
    and deq :: "'q \<Rightarrow> 'a option \<times> 'q"
    and is_empty :: "'q \<Rightarrow> bool"
    and elems :: "'q \<Rightarrow> 'a list"
    and room :: "'q \<Rightarrow> nat"
    and invar :: "'q \<Rightarrow> bool"
  assumes enq_full: "invar q \<Longrightarrow> length (elems q) = room q \<Longrightarrow> enq q x = (False, q)"
    and enq_elems: "invar q \<Longrightarrow> length (elems q) < room q \<Longrightarrow> enq q x = (ok, q') \<Longrightarrow>
      ok \<and> elems q' = elems q @ [x] \<and> invar q' \<and> room q' = room q"
    and deq_empty: "invar q \<Longrightarrow> elems q = [] \<Longrightarrow> deq q = (None, q)"
    and deq_elems: "invar q \<Longrightarrow> elems q = y # ys \<Longrightarrow> deq q = (r, q') \<Longrightarrow>
      r = Some y \<and> elems q' = ys \<and> invar q' \<and> room q' = room q"
    and is_empty: "invar q \<Longrightarrow> is_empty q \<longleftrightarrow> elems q = []"
    and bounded: "invar q \<Longrightarrow> length (elems q) \<le> room q"
begin

lemma enq_ok_iff:
  assumes "invar q" "enq q x = (ok, q')"
  shows "ok \<longleftrightarrow> length (elems q) < room q"
  using enq_full [OF assms(1)] enq_elems [OF assms(1)] bounded [OF assms(1)] assms(2)
  by (metis Pair_inject le_neq_implies_less)

lemma enq_inv:
  assumes "invar q" "enq q x = (ok, q')"
  shows "invar q' \<and> room q' = room q \<and> elems q' = (if ok then elems q @ [x] else elems q)"
  using enq_full [OF assms(1)] enq_elems [OF assms(1)] bounded [OF assms(1)] assms
  by (metis Pair_inject le_neq_implies_less)

lemma deq_inv:
  assumes "invar q" "deq q = (r, q')"
  shows "invar q' \<and> room q' = room q \<and> elems q = (case r of None \<Rightarrow> elems q' | Some y \<Rightarrow> y # elems q')
    \<and> (r = None \<longleftrightarrow> elems q = [])"
proof (cases "elems q")
  case Nil
  then show ?thesis using deq_empty [OF assms(1)] assms by auto
next
  case (Cons y ys)
  then show ?thesis using deq_elems [OF assms(1) Cons assms(2)] by simp
qed

lemma run_fifo_history:
  assumes "invar q" "run_fifo enq deq ops q = (acc, del, q')"
  shows "invar q' \<and> room q' = room q \<and> elems q @ acc = del @ elems q'"
  using assms
proof (induction ops arbitrary: q acc del q')
  case Nil
  then show ?case by simp
next
  case (Cons opn ops)
  show ?case
  proof (cases opn)
    case (Enq x)
    obtain ok q1 where e: "enq q x = (ok, q1)" by fastforce
    obtain acc1 del1 q2 where r: "run_fifo enq deq ops q1 = (acc1, del1, q2)"
      using prod_cases3 by blast
    from Cons.prems(2) Enq e r have res: "acc = (if ok then x # acc1 else acc1)" "del = del1" "q' = q2"
      by auto
    note e1 = enq_inv [OF Cons.prems(1) e]
    have "invar q2 \<and> room q2 = room q1 \<and> elems q1 @ acc1 = del1 @ elems q2"
      using Cons.IH [OF _ r] e1 by blast
    with e1 res show ?thesis by (cases ok) simp_all
  next
    case Deq
    obtain y q1 where d: "deq q = (y, q1)" by fastforce
    obtain acc1 del1 q2 where r: "run_fifo enq deq ops q1 = (acc1, del1, q2)"
      using prod_cases3 by blast
    from Cons.prems(2) Deq d r have res: "acc = acc1" "del = (case y of None \<Rightarrow> del1 | Some z \<Rightarrow> z # del1)"
      "q' = q2"
      by (auto split: option.splits)
    note d1 = deq_inv [OF Cons.prems(1) d]
    have "invar q2 \<and> room q2 = room q1 \<and> elems q1 @ acc1 = del1 @ elems q2"
      using Cons.IH [OF _ r] d1 by blast
    with d1 res show ?thesis by (cases y) simp_all
  qed
qed

end

interpretation spsc: fifo_interface push pop empty items ring_room ring_wf
proof unfold_locales
  show "push q x = (False, q)" if "ring_wf q" "length (items q) = ring_room q" for q :: "'a ring" and x
    using that push_cases [OF that(1), of x] by auto
  show "ok \<and> items q' = items q @ [x] \<and> ring_wf q' \<and> ring_room q' = ring_room q"
    if "ring_wf q" "length (items q) < ring_room q" "push q x = (ok, q')" for q :: "'a ring" and x ok q'
    using that push_cases [OF that(1), of x] by fastforce
  show "pop q = (None, q)" if "ring_wf q" "items q = []" for q :: "'a ring"
    using that pop_cases [OF that(1)] by fastforce
  show "r = Some y \<and> items q' = ys \<and> ring_wf q' \<and> ring_room q' = ring_room q"
    if "ring_wf q" "items q = y # ys" "pop q = (r, q')" for q :: "'a ring" and y ys r q'
    using that pop_cases [OF that(1)] by fastforce
  show "empty q \<longleftrightarrow> items q = []" if "ring_wf q" for q :: "'a ring"
    using that by (rule empty_iff)
  show "length (items q) \<le> ring_room q" if "ring_wf q" for q :: "'a ring"
    using ring_count_lt [OF that] by (simp add: ring_room_def)
qed

section \<open>The masking variant\<close>

text \<open>
  \<open>Linux_DSP_accelleration.hpp\<close> advances an index by \<open>(i + 1) & (Capacity - 1)\<close> and asserts that
  the capacity is a power of two.
\<close>

definition push_mask :: "'a ring \<Rightarrow> 'a \<Rightarrow> bool \<times> 'a ring" where
  "push_mask q item =
     (let current_tail = rb_tail q; next_tail = (current_tail + 1) AND (capacity q - 1) in
      if next_tail = rb_head q then (False, q)
      else (True, q\<lparr>rb_data := (rb_data q)[unat current_tail := item], rb_tail := next_tail\<rparr>))"

definition pop_mask :: "'a ring \<Rightarrow> 'a option \<times> 'a ring" where
  "pop_mask q =
     (let current_head = rb_head q in
      if current_head = rb_tail q then (None, q)
      else (Some (rb_data q ! unat current_head), q\<lparr>rb_head := (current_head + 1) AND (capacity q - 1)\<rparr>))"

text \<open>The static assertion \<open>(Capacity & (Capacity - 1)) == 0\<close>.\<close>

definition pow2_capacity :: "u64 \<Rightarrow> bool" where
  "pow2_capacity c \<longleftrightarrow> c AND (c - 1) = 0"

text \<open>What the assertion buys: the capacity is a power of two, and masking is reduction.\<close>

lemma pow2_of_and_pred:
  fixes n :: nat
  assumes "0 < n" "n AND (n - 1) = 0"
  shows "\<exists>k. n = 2 ^ k"
  using assms
proof (induction n rule: less_induct)
  case (less n)
  show ?case
  proof (cases "n = 1")
    case True
    then show ?thesis by (intro exI [of _ 0]) simp
  next
    case False
    show ?thesis
    proof (cases "even n")
      case True
      then obtain a where a: "n = 2 * a" by (elim evenE)
      with less.prems have "0 < a" by simp
      moreover have "(2 * a - 1) div 2 = a - 1" using \<open>0 < a\<close> by (cases a) simp_all
      moreover have "a AND (2 * a - 1) div 2 = 0"
        using less.prems(2) by (subst (asm) and_rec) (simp add: a)
      ultimately have "0 < a" "a AND (a - 1) = 0" by simp_all
      then obtain k where "a = 2 ^ k" using less.IH [of a] a by auto
      with a show ?thesis by (intro exI [of _ "Suc k"]) simp
    next
      case odd: False
      then obtain a where a: "n = 2 * a + 1" by (elim oddE)
      have "a = 0"
        using less.prems(2) by (subst (asm) and_rec) (simp add: a)
      with False a show ?thesis by simp
    qed
  qed
qed

lemma pow2_capacity_power:
  assumes "pow2_capacity c" "c \<noteq> 0"
  shows "\<exists>k. c = 2 ^ k"
proof -
  have "unat (c - 1) = unat c - 1" using assms(2) by (simp add: unat_minus_one)
  moreover have "unat (c AND (c - 1)) = 0" using assms(1) by (simp add: pow2_capacity_def)
  ultimately have "unat c AND (unat c - 1) = 0" by (simp add: unsigned_and_eq)
  moreover have "0 < unat c" using assms(2) by (simp add: unat_gt_0)
  ultimately obtain k where "unat c = 2 ^ k" using pow2_of_and_pred by blast
  then have "c = of_nat (2 ^ k)" by (metis add.right_neutral mult_zero_left of_nat_eq)
  then show ?thesis by auto
qed

lemma mask_is_mod:
  fixes x :: u64
  assumes "pow2_capacity c" "c \<noteq> 0"
  shows "x AND (c - 1) = x mod c"
proof -
  obtain k where "c = 2 ^ k" using pow2_capacity_power [OF assms] by blast
  then show ?thesis by (simp add: take_bit_eq_mod flip: mask_eq_exp_minus_1 take_bit_eq_mask)
qed

lemma capacity_nonzero: "ring_wf q \<Longrightarrow> capacity q \<noteq> 0"
  using unat_capacity [of q] by (auto simp: ring_wf_def)

lemma push_mask_eq: "ring_wf q \<Longrightarrow> pow2_capacity (capacity q) \<Longrightarrow> push_mask q x = push q x"
  by (simp add: push_mask_def push_def mask_is_mod capacity_nonzero)

lemma pop_mask_eq: "ring_wf q \<Longrightarrow> pow2_capacity (capacity q) \<Longrightarrow> pop_mask q = pop q"
  unfolding pop_mask_def pop_def Let_def by (simp only: mask_is_mod capacity_nonzero not_False_eq_True)

definition mask_ring_wf :: "'a ring \<Rightarrow> bool" where
  "mask_ring_wf q \<longleftrightarrow> ring_wf q \<and> pow2_capacity (capacity q)"

lemma push_capacity: "push q x = (ok, q') \<Longrightarrow> capacity q' = capacity q"
  by (auto simp: push_def Let_def capacity_def split: if_splits)

lemma pop_capacity: "pop q = (r, q') \<Longrightarrow> capacity q' = capacity q"
  by (auto simp: pop_def Let_def capacity_def split: if_splits)

interpretation mask: fifo_interface push_mask pop_mask empty items ring_room mask_ring_wf
proof unfold_locales
  show "push_mask q x = (False, q)" if "mask_ring_wf q" "length (items q) = ring_room q"
    for q :: "'a ring" and x
    using that spsc.enq_full [of q x] by (simp add: mask_ring_wf_def push_mask_eq)
  show "ok \<and> items q' = items q @ [x] \<and> mask_ring_wf q' \<and> ring_room q' = ring_room q"
    if "mask_ring_wf q" "length (items q) < ring_room q" "push_mask q x = (ok, q')"
    for q :: "'a ring" and x ok q'
    using that spsc.enq_elems [of q x ok q'] push_capacity [of q x ok q']
    by (simp add: mask_ring_wf_def push_mask_eq)
  show "pop_mask q = (None, q)" if "mask_ring_wf q" "items q = []" for q :: "'a ring"
    using that spsc.deq_empty [of q] by (simp add: mask_ring_wf_def pop_mask_eq)
  show "r = Some y \<and> items q' = ys \<and> mask_ring_wf q' \<and> ring_room q' = ring_room q"
    if "mask_ring_wf q" "items q = y # ys" "pop_mask q = (r, q')" for q :: "'a ring" and y ys r q'
    using that spsc.deq_elems [of q y ys r q'] pop_capacity [of q r q']
    by (simp add: mask_ring_wf_def pop_mask_eq)
  show "empty q \<longleftrightarrow> items q = []" if "mask_ring_wf q" for q :: "'a ring"
    using that by (simp add: mask_ring_wf_def empty_iff)
  show "length (items q) \<le> ring_room q" if "mask_ring_wf q" for q :: "'a ring"
    using that by (intro spsc.bounded) (simp add: mask_ring_wf_def)
qed

section \<open>Properties\<close>

text \<open>
  Whatever a single thread pushes to and pops from a ring buffer, the items already queued
  followed by the accepted ones are the delivered ones followed by those still queued, in
  order; no item is lost, duplicated or reordered, and at most \<open>Capacity - 1\<close> are queued.
\<close>

theorem ring_fifo_history:
  assumes "ring_wf q" "run_fifo push pop ops q = (acc, del, q')"
  shows "items q @ acc = del @ items q' \<and> ring_wf q' \<and> length (items q') \<le> length (rb_data q) - 1"
  using spsc.run_fifo_history [OF assms] spsc.bounded [of q'] by (simp add: ring_room_def)

theorem ring_fifo_history_witness:
  "ring_wf (new_ring 3 0) \<and>
   (let (acc, del, q') = run_fifo push pop [Enq 5, Enq 6, Enq 7, Deq, Enq (8::nat)] (new_ring 3 0)
    in acc = [5, 6, 8] \<and> del = [5] \<and> acc = del @ items q' \<and> ring_wf q')"
proof -
  have run: "run_fifo push pop [Enq 5, Enq 6, Enq 7, Deq, Enq (8::nat)] (new_ring 3 0)
    = ([5, 6, 8], [5], \<lparr>rb_head = 1, rb_tail = 0, rb_data = [5, 6, 8]\<rparr>)"
    by code_simp
  from ring_fifo_history [OF ring_wf_new run] run show ?thesis by simp
qed

text \<open>
  \<open>push\<close> fails exactly when \<open>Capacity - 1\<close> items are queued and then changes nothing; otherwise
  it appends its item. \<open>pop\<close> fails exactly on the empty queue and then changes nothing; otherwise
  it removes and returns the oldest item. \<open>empty\<close> tells the two cases apart.
\<close>

theorem ring_push_pop_spec:
  assumes "ring_wf q"
  shows "(case push q x of (ok, q') \<Rightarrow> (ok \<longleftrightarrow> length (items q) < length (rb_data q) - 1) \<and>
           items q' = (if ok then items q @ [x] else items q) \<and> ring_wf q')
    \<and> (case pop q of (None, q') \<Rightarrow> items q = [] \<and> q' = q
         | (Some y, q') \<Rightarrow> items q = y # items q' \<and> ring_wf q')
    \<and> (empty q \<longleftrightarrow> items q = [])"
proof -
  obtain ok q' where p: "push q x = (ok, q')" by fastforce
  obtain r q2 where d: "pop q = (r, q2)" by fastforce
  have e: "ok \<longleftrightarrow> length (items q) < length (rb_data q) - 1" "items q' = (if ok then items q @ [x] else items q)"
    "ring_wf q'"
    using spsc.enq_ok_iff [OF assms p] spsc.enq_inv [OF assms p] by (simp_all add: ring_room_def)
  have "case pop q of (None, q') \<Rightarrow> items q = [] \<and> q' = q | (Some y, q') \<Rightarrow> items q = y # items q' \<and> ring_wf q'"
    using pop_cases [OF assms] by (cases rule: pop_cases [OF assms]) simp_all
  with e p empty_iff [OF assms] show ?thesis by simp
qed

theorem ring_push_pop_spec_witness:
  "ring_wf \<lparr>rb_head = 2, rb_tail = 1, rb_data = [10, 20, 30::nat]\<rparr> \<and>
   items \<lparr>rb_head = 2, rb_tail = 1, rb_data = [10, 20, 30::nat]\<rparr> = [30, 10] \<and>
   \<not> fst (push \<lparr>rb_head = 2, rb_tail = 1, rb_data = [10, 20, 30::nat]\<rparr> 40)"
proof -
  let ?q = "\<lparr>rb_head = 2, rb_tail = 1, rb_data = [10, 20, 30::nat]\<rparr>"
  have w: "ring_wf ?q" by (simp add: ring_wf_def)
  have "items ?q = [30, 10]" by code_simp
  with ring_push_pop_spec [OF w, of 40] w show ?thesis by (auto split: prod.splits)
qed

text \<open>
  The zero-copy protocol (\<open>reserve_write\<close>, a store into the slot, \<open>commit_write\<close>; and
  \<open>peek_read\<close>, a load, \<open>commit_read\<close>) is \<open>push\<close> and \<open>pop\<close>: both give the same answer and the same
  buffer for every buffer and item.
\<close>

theorem zero_copy_is_push_pop:
  "push q x = (case reserve_write q of None \<Rightarrow> (False, q)
     | Some i \<Rightarrow> (True, commit_write (store_slot q i x)))
   \<and> pop q = (case peek_read q of None \<Rightarrow> (None, q) | Some i \<Rightarrow> (Some (slot_at q i), commit_read q))"
  by (simp only: push_via_reserve pop_via_peek)

text \<open>
  C39: For a capacity that passes the static assertion of \<open>Linux_DSP_accelleration.hpp\<close>, the masking
  ring buffer accepts, delivers and stores exactly what the buffer that reduces modulo the capacity
  does, over every sequence of operations.
\<close>

theorem mask_ring_equivalent:
  assumes "ring_wf q" "pow2_capacity (capacity q)"
  shows "run_fifo push_mask pop_mask ops q = run_fifo push pop ops q"
  using assms
proof (induction ops arbitrary: q)
  case (Cons opn ops)
  show ?case
  proof (cases opn)
    case (Enq x)
    obtain ok q1 where e: "push q x = (ok, q1)" by fastforce
    have "ring_wf q1" "pow2_capacity (capacity q1)"
      using spsc.enq_inv [OF Cons.prems(1) e] push_capacity [OF e] Cons.prems(2) by auto
    with Cons e Enq show ?thesis by (simp add: push_mask_eq)
  next
    case Deq
    obtain r q1 where d: "pop q = (r, q1)" by fastforce
    have "ring_wf q1" "pow2_capacity (capacity q1)"
      using spsc.deq_inv [OF Cons.prems(1) d] pop_capacity [OF d] Cons.prems(2) by auto
    with Cons d Deq show ?thesis by (simp add: pop_mask_eq)
  qed
qed simp

theorem mask_ring_equivalent_witness:
  "run_fifo push_mask pop_mask [Enq 1, Deq, Enq 2, Enq (3::nat)] (new_ring 4 0)
   = run_fifo push pop [Enq 1, Deq, Enq 2, Enq 3] (new_ring 4 0)"
  by (rule mask_ring_equivalent) (simp_all add: pow2_capacity_def capacity_def new_ring_def ring_wf_def)

end
