(* ===== verification/Ring_Concurrent.thy ===== *)
theory Ring_Concurrent
  imports Ring
begin

text \<open>
  The ring buffer under concurrency: one producer thread in \<open>push\<close> or in \<open>reserve_write\<close>, stores to
  the slot and \<open>commit_write\<close>, and one consumer thread in \<open>pop\<close> or in \<open>peek_read\<close>, work on the slot in
  place and \<open>commit_read\<close>, each a sequence of accesses that interleave in any order. A thread's
  relaxed load of its own index returns the value it stored last. Its acquire load of the other
  thread's index may be stale: it returns any value that index has had since the load before
  (the guarantee of coherence), and what the other thread wrote before the release store of that
  value is visible. The ghost fields record what was pushed and popped and how much of the other
  thread's progress each thread has seen.
\<close>

section \<open>The two threads\<close>

text \<open>Where the producer stands in \<open>push(item)\<close>, with its locals \<open>current_tail\<close>, \<open>next_tail\<close>.\<close>

datatype 'a prod_pc =
    P_Idle
  | P_Head 'a u64       \<comment> \<open>tail loaded, about to load head\<close>
  | P_Store 'a u64 u64  \<comment> \<open>room found, about to write the slot\<close>
  | P_Commit 'a u64 u64 \<comment> \<open>slot written, about to store tail\<close>
  | P_Reserve u64       \<comment> \<open>in \<open>reserve_write\<close>, tail loaded\<close>
  | P_Own u64           \<comment> \<open>slot reserved, the caller fills it in\<close>
  | P_Publish u64       \<comment> \<open>in \<open>commit_write\<close>, tail loaded\<close>

datatype 'a cons_pc =
    C_Idle
  | C_Tail u64          \<comment> \<open>head loaded, about to load tail\<close>
  | C_Load u64          \<comment> \<open>item found, about to read the slot\<close>
  | C_Commit u64 'a     \<comment> \<open>slot read, about to store head\<close>
  | C_Peek u64          \<comment> \<open>in \<open>peek_read\<close>, head loaded\<close>
  | C_Own u64 'a        \<comment> \<open>slot held, the caller works on it; ghost: what it held at first\<close>
  | C_Release u64 'a    \<comment> \<open>in \<open>commit_read\<close>, head loaded\<close>

record 'a spsc_state =
  shared :: "'a ring"
  ppc :: "'a prod_pc"
  cpc :: "'a cons_pc"
  produced :: "'a list"   \<comment> \<open>ghost: items whose tail store has happened\<close>
  consumed :: "'a list"   \<comment> \<open>ghost: items whose head store has happened\<close>
  seen_pops :: nat        \<comment> \<open>ghost: pops the producer has observed\<close>
  seen_pushes :: nat      \<comment> \<open>ghost: pushes the consumer has observed\<close>

definition slots :: "'a spsc_state \<Rightarrow> nat" where
  "slots s = length (rb_data (shared s))"

definition spsc_init :: "nat \<Rightarrow> 'a \<Rightarrow> 'a spsc_state" where
  "spsc_init n x = \<lparr>shared = new_ring n x, ppc = P_Idle, cpc = C_Idle, produced = [], consumed = [],
     seen_pops = 0, seen_pushes = 0\<rparr>"

text \<open>
  The value the index has after \<open>k\<close> commits, as a 64-bit word; a load that observes \<open>k\<close> commits
  returns it.
\<close>

definition index_after :: "'a spsc_state \<Rightarrow> nat \<Rightarrow> u64" where
  "index_after s k = of_nat (k mod slots s)"

inductive spsc_step :: "'a spsc_state \<Rightarrow> 'a spsc_state \<Rightarrow> bool" where
  push_begin: "ppc s = P_Idle \<Longrightarrow> spsc_step s (s\<lparr>ppc := P_Head x (rb_tail (shared s))\<rparr>)"
| push_full: "ppc s = P_Head x t \<Longrightarrow> seen_pops s \<le> k \<Longrightarrow> k \<le> length (consumed s) \<Longrightarrow>
    (t + 1) mod capacity (shared s) = index_after s k \<Longrightarrow>
    spsc_step s (s\<lparr>ppc := P_Idle, seen_pops := k\<rparr>)"
| push_room: "ppc s = P_Head x t \<Longrightarrow> seen_pops s \<le> k \<Longrightarrow> k \<le> length (consumed s) \<Longrightarrow>
    nt = (t + 1) mod capacity (shared s) \<Longrightarrow> nt \<noteq> index_after s k \<Longrightarrow>
    spsc_step s (s\<lparr>ppc := P_Store x t nt, seen_pops := k\<rparr>)"
| push_store: "ppc s = P_Store x t nt \<Longrightarrow>
    spsc_step s (s\<lparr>shared := store_slot (shared s) (unat t) x, ppc := P_Commit x t nt\<rparr>)"
| push_commit: "ppc s = P_Commit x t nt \<Longrightarrow>
    spsc_step s (s\<lparr>shared := (shared s)\<lparr>rb_tail := nt\<rparr>, ppc := P_Idle, produced := produced s @ [x]\<rparr>)"
| reserve_begin: "ppc s = P_Idle \<Longrightarrow> spsc_step s (s\<lparr>ppc := P_Reserve (rb_tail (shared s))\<rparr>)"
| reserve_full: "ppc s = P_Reserve t \<Longrightarrow> seen_pops s \<le> k \<Longrightarrow> k \<le> length (consumed s) \<Longrightarrow>
    (t + 1) mod capacity (shared s) = index_after s k \<Longrightarrow> spsc_step s (s\<lparr>ppc := P_Idle, seen_pops := k\<rparr>)"
| reserve_room: "ppc s = P_Reserve t \<Longrightarrow> seen_pops s \<le> k \<Longrightarrow> k \<le> length (consumed s) \<Longrightarrow>
    (t + 1) mod capacity (shared s) \<noteq> index_after s k \<Longrightarrow> spsc_step s (s\<lparr>ppc := P_Own t, seen_pops := k\<rparr>)"
| slot_fill: "ppc s = P_Own t \<Longrightarrow> spsc_step s (s\<lparr>shared := store_slot (shared s) (unat t) y\<rparr>)"
| commit_write_begin: "ppc s = P_Own t \<Longrightarrow> spsc_step s (s\<lparr>ppc := P_Publish (rb_tail (shared s))\<rparr>)"
| commit_write_end: "ppc s = P_Publish t \<Longrightarrow>
    spsc_step s (s\<lparr>shared := (shared s)\<lparr>rb_tail := (t + 1) mod capacity (shared s)\<rparr>, ppc := P_Idle,
      produced := produced s @ [slot_at (shared s) (unat t)]\<rparr>)"
| pop_begin: "cpc s = C_Idle \<Longrightarrow> spsc_step s (s\<lparr>cpc := C_Tail (rb_head (shared s))\<rparr>)"
| pop_empty: "cpc s = C_Tail h \<Longrightarrow> seen_pushes s \<le> k \<Longrightarrow> k \<le> length (produced s) \<Longrightarrow>
    h = index_after s k \<Longrightarrow> spsc_step s (s\<lparr>cpc := C_Idle, seen_pushes := k\<rparr>)"
| pop_item: "cpc s = C_Tail h \<Longrightarrow> seen_pushes s \<le> k \<Longrightarrow> k \<le> length (produced s) \<Longrightarrow>
    h \<noteq> index_after s k \<Longrightarrow> spsc_step s (s\<lparr>cpc := C_Load h, seen_pushes := k\<rparr>)"
| pop_load: "cpc s = C_Load h \<Longrightarrow>
    spsc_step s (s\<lparr>cpc := C_Commit h (slot_at (shared s) (unat h))\<rparr>)"
| pop_commit: "cpc s = C_Commit h y \<Longrightarrow>
    spsc_step s (s\<lparr>shared := (shared s)\<lparr>rb_head := (h + 1) mod capacity (shared s)\<rparr>, cpc := C_Idle,
      consumed := consumed s @ [y]\<rparr>)"
| peek_begin: "cpc s = C_Idle \<Longrightarrow> spsc_step s (s\<lparr>cpc := C_Peek (rb_head (shared s))\<rparr>)"
| peek_empty: "cpc s = C_Peek h \<Longrightarrow> seen_pushes s \<le> k \<Longrightarrow> k \<le> length (produced s) \<Longrightarrow>
    h = index_after s k \<Longrightarrow> spsc_step s (s\<lparr>cpc := C_Idle, seen_pushes := k\<rparr>)"
| peek_item: "cpc s = C_Peek h \<Longrightarrow> seen_pushes s \<le> k \<Longrightarrow> k \<le> length (produced s) \<Longrightarrow>
    h \<noteq> index_after s k \<Longrightarrow> spsc_step s (s\<lparr>cpc := C_Own h (slot_at (shared s) (unat h)), seen_pushes := k\<rparr>)"
| slot_use: "cpc s = C_Own h y \<Longrightarrow> spsc_step s (s\<lparr>shared := store_slot (shared s) (unat h) z\<rparr>)"
| commit_read_begin: "cpc s = C_Own h y \<Longrightarrow> spsc_step s (s\<lparr>cpc := C_Release (rb_head (shared s)) y\<rparr>)"
| commit_read_end: "cpc s = C_Release h y \<Longrightarrow>
    spsc_step s (s\<lparr>shared := (shared s)\<lparr>rb_head := (h + 1) mod capacity (shared s)\<rparr>, cpc := C_Idle,
      consumed := consumed s @ [y]\<rparr>)"

inductive spsc_reachable :: "nat \<Rightarrow> 'a \<Rightarrow> 'a spsc_state \<Rightarrow> bool" for n x where
  start: "spsc_reachable n x (spsc_init n x)"
| step: "spsc_reachable n x s \<Longrightarrow> spsc_step s t \<Longrightarrow> spsc_reachable n x t"

section \<open>The invariant\<close>

text \<open>
  The indices count the commits modulo the capacity, at most \<open>Capacity - 1\<close> items are in flight,
  every slot in flight holds its item (but the one the consumer is working on), and each thread's
  view of the other lags behind by an amount that keeps its next access safe.
\<close>

fun held :: "'a cons_pc \<Rightarrow> nat" where
  "held (C_Own h y) = 1"
| "held (C_Release h y) = 1"
| "held C_Idle = 0"
| "held (C_Tail h) = 0"
| "held (C_Load h) = 0"
| "held (C_Commit h y) = 0"
| "held (C_Peek h) = 0"

definition shared_ok :: "'a spsc_state \<Rightarrow> bool" where
  "shared_ok s \<longleftrightarrow> 0 < slots s \<and> slots s < 2 ^ 64 \<and>
     unat (rb_head (shared s)) = length (consumed s) mod slots s \<and>
     unat (rb_tail (shared s)) = length (produced s) mod slots s"

definition views_ok :: "'a spsc_state \<Rightarrow> bool" where
  "views_ok s \<longleftrightarrow> seen_pops s \<le> length (consumed s) \<and> length (consumed s) \<le> seen_pushes s \<and>
     seen_pushes s \<le> length (produced s) \<and> length (produced s) < seen_pops s + slots s"

definition history_ok :: "'a spsc_state \<Rightarrow> bool" where
  "history_ok s \<longleftrightarrow> take (length (consumed s)) (produced s) = consumed s \<and>
     (\<forall>k. length (consumed s) + held (cpc s) \<le> k \<longrightarrow> k < length (produced s) \<longrightarrow>
        rb_data (shared s) ! (k mod slots s) = produced s ! k)"

fun producer_ok :: "'a spsc_state \<Rightarrow> 'a prod_pc \<Rightarrow> bool" where
  "producer_ok s P_Idle \<longleftrightarrow> True"
| "producer_ok s (P_Head x t) \<longleftrightarrow> t = rb_tail (shared s)"
| "producer_ok s (P_Store x t nt) \<longleftrightarrow> t = rb_tail (shared s) \<and> nt = (t + 1) mod capacity (shared s) \<and>
     Suc (length (produced s)) < seen_pops s + slots s"
| "producer_ok s (P_Commit x t nt) \<longleftrightarrow> t = rb_tail (shared s) \<and> nt = (t + 1) mod capacity (shared s) \<and>
     Suc (length (produced s)) < seen_pops s + slots s \<and> rb_data (shared s) ! unat t = x"
| "producer_ok s (P_Reserve t) \<longleftrightarrow> t = rb_tail (shared s)"
| "producer_ok s (P_Own t) \<longleftrightarrow> t = rb_tail (shared s) \<and> Suc (length (produced s)) < seen_pops s + slots s"
| "producer_ok s (P_Publish t) \<longleftrightarrow> t = rb_tail (shared s) \<and> Suc (length (produced s)) < seen_pops s + slots s"

fun consumer_ok :: "'a spsc_state \<Rightarrow> 'a cons_pc \<Rightarrow> bool" where
  "consumer_ok s C_Idle \<longleftrightarrow> True"
| "consumer_ok s (C_Tail h) \<longleftrightarrow> h = rb_head (shared s)"
| "consumer_ok s (C_Load h) \<longleftrightarrow> h = rb_head (shared s) \<and> length (consumed s) < seen_pushes s"
| "consumer_ok s (C_Commit h y) \<longleftrightarrow> h = rb_head (shared s) \<and> length (consumed s) < seen_pushes s \<and>
     y = produced s ! length (consumed s)"
| "consumer_ok s (C_Peek h) \<longleftrightarrow> h = rb_head (shared s)"
| "consumer_ok s (C_Own h y) \<longleftrightarrow> h = rb_head (shared s) \<and> length (consumed s) < seen_pushes s \<and>
     y = produced s ! length (consumed s)"
| "consumer_ok s (C_Release h y) \<longleftrightarrow> h = rb_head (shared s) \<and> length (consumed s) < seen_pushes s \<and>
     y = produced s ! length (consumed s)"

definition spsc_inv :: "'a spsc_state \<Rightarrow> bool" where
  "spsc_inv s \<longleftrightarrow> shared_ok s \<and> views_ok s \<and> history_ok s \<and> producer_ok s (ppc s) \<and> consumer_ok s (cpc s)"

lemmas spsc_inv_defs = spsc_inv_def shared_ok_def views_ok_def history_ok_def

text \<open>Two commit counts less than a lap apart leave the index equal only if they are equal.\<close>

lemma mod_inj_window:
  assumes "i mod n = j mod n" "i \<le> j" "j < i + (n::nat)"
  shows "i = j"
proof -
  have "n dvd j - i" using assms(1,2) mod_eq_dvd_iff_nat [of i j n] by simp
  moreover have "j - i < n" using assms(2,3) by linarith
  ultimately have "j - i = 0" by (metis gr0I nat_dvd_not_less)
  with assms(2) show ?thesis by simp
qed

lemma spsc_inv_init: "0 < n \<Longrightarrow> n < 2 ^ 64 \<Longrightarrow> spsc_inv (spsc_init n x)"
  by (simp add: spsc_inv_defs spsc_init_def slots_def new_ring_def)

text \<open>What the invariant says of the ring: it is well-formed, and the next index is the next commit count.\<close>

lemma spsc_inv_wf: "spsc_inv s \<Longrightarrow> ring_wf (shared s)"
  by (simp add: spsc_inv_defs ring_wf_def slots_def)

lemma unat_index_after:
  assumes "shared_ok s"
  shows "unat (index_after s k) = k mod slots s"
proof -
  have "k mod slots s < slots s" "slots s < 2 ^ 64" using assms by (simp_all add: shared_ok_def)
  then have "k mod slots s < 2 ^ 64" by linarith
  then show ?thesis unfolding index_after_def by (rule unat_of_nat_u64)
qed

lemma next_tail_index:
  assumes "spsc_inv s"
  shows "unat ((rb_tail (shared s) + 1) mod capacity (shared s)) = Suc (length (produced s)) mod slots s"
  using unat_next [OF spsc_inv_wf [OF assms], of "rb_tail (shared s)"] assms
  by (simp add: spsc_inv_defs slots_def mod_Suc_eq)

lemma next_head_index:
  assumes "spsc_inv s"
  shows "unat ((rb_head (shared s) + 1) mod capacity (shared s)) = Suc (length (consumed s)) mod slots s"
  using unat_next [OF spsc_inv_wf [OF assms], of "rb_head (shared s)"] assms
  by (simp add: spsc_inv_defs slots_def mod_Suc_eq)

text \<open>An acquire load that does not see a full buffer leaves room for one more item, whatever it is
  behind; one that does not see an empty buffer has an item to read.\<close>

lemma room_from_stale_head:
  assumes "spsc_inv s" "seen_pops s \<le> k" "k \<le> length (consumed s)"
    and "(rb_tail (shared s) + 1) mod capacity (shared s) \<noteq> index_after s k"
  shows "Suc (length (produced s)) < k + slots s"
proof -
  have sh: "shared_ok s" using assms(1) by (simp add: spsc_inv_def)
  have v: "length (produced s) < seen_pops s + slots s" using assms(1) by (simp add: spsc_inv_defs)
  have "Suc (length (produced s)) mod slots s \<noteq> k mod slots s"
    using assms(4) next_tail_index [OF assms(1)] unat_index_after [OF sh, of k]
    by (simp add: word_unat_eq_iff)
  then have "Suc (length (produced s)) \<noteq> k + slots s" by auto
  with v assms(2) show ?thesis by linarith
qed

lemma item_from_stale_tail:
  assumes "spsc_inv s" "seen_pushes s \<le> k" "k \<le> length (produced s)"
    and "rb_head (shared s) \<noteq> index_after s k"
  shows "length (consumed s) < k"
proof -
  have sh: "shared_ok s" using assms(1) by (simp add: spsc_inv_def)
  have "length (consumed s) mod slots s \<noteq> k mod slots s"
    using assms(4) unat_index_after [OF sh, of k] sh by (simp add: word_unat_eq_iff shared_ok_def)
  moreover have "length (consumed s) \<le> k" using assms(1,2) by (simp add: spsc_inv_defs)
  ultimately show ?thesis by (metis le_neq_implies_less)
qed

text \<open>The slot the producer writes is none of the slots in flight.\<close>

lemma store_keeps_in_flight:
  assumes "spsc_inv s" "Suc (length (produced s)) < seen_pops s + slots s"
    and "length (consumed s) \<le> k" "k < length (produced s)"
  shows "k mod slots s \<noteq> unat (rb_tail (shared s))"
proof
  assume "k mod slots s = unat (rb_tail (shared s))"
  then have "k mod slots s = length (produced s) mod slots s"
    using assms(1) by (simp add: spsc_inv_defs)
  moreover have "length (produced s) < k + slots s"
    using assms by (simp add: spsc_inv_defs)
  ultimately have "k = length (produced s)"
    using assms(4) mod_inj_window [of k "slots s" "length (produced s)"] by simp
  with assms(4) show False by simp
qed

section \<open>Every step keeps the invariant\<close>

text \<open>The consumer's clause does not depend on what only the producer changes, and conversely.\<close>

lemma consumer_ok_cong:
  "rb_head (shared t) = rb_head (shared s) \<Longrightarrow> consumed t = consumed s \<Longrightarrow> seen_pushes t = seen_pushes s \<Longrightarrow>
   (\<And>k. k < seen_pushes s \<Longrightarrow> produced t ! k = produced s ! k) \<Longrightarrow> consumer_ok t c = consumer_ok s c"
  by (cases c) auto

lemma producer_ok_cong:
  "rb_tail (shared t) = rb_tail (shared s) \<Longrightarrow> produced t = produced s \<Longrightarrow> seen_pops t = seen_pops s \<Longrightarrow>
   length (rb_data (shared t)) = length (rb_data (shared s)) \<Longrightarrow>
   rb_data (shared t) ! unat (rb_tail (shared s)) = rb_data (shared s) ! unat (rb_tail (shared s)) \<Longrightarrow>
   producer_ok t p = producer_ok s p"
  by (cases p) (auto simp: slots_def capacity_def)

text \<open>A store by the producer, with room seen, to the slot at the tail.\<close>

lemma fill_inv:
  assumes "spsc_inv s" "t = rb_tail (shared s)" "Suc (length (produced s)) < seen_pops s + slots s"
    and "producer_ok (s\<lparr>shared := store_slot (shared s) (unat t) x\<rparr>) p"
  shows "spsc_inv (s\<lparr>shared := store_slot (shared s) (unat t) x, ppc := p\<rparr>)" (is "spsc_inv ?s'")
proof -
  have ne: "unat t \<noteq> k mod slots s" if "length (consumed s) \<le> k" "k < length (produced s)" for k
    using store_keeps_in_flight [OF assms(1,3) that] assms(2) by metis
  have h: "history_ok ?s'"
    using assms(1) ne by (auto simp: history_ok_def spsc_inv_def store_slot_def slots_def nth_list_update_neq)
  have "consumer_ok ?s' (cpc s) = consumer_ok s (cpc s)"
    by (rule consumer_ok_cong) (simp_all add: store_slot_def)
  moreover have "producer_ok ?s' p" using assms(4) by (cases p) (simp_all add: slots_def)
  ultimately show ?thesis
    using assms(1) h by (simp add: spsc_inv_def shared_ok_def views_ok_def slots_def store_slot_def)
qed

text \<open>The store of the tail publishes what the slot holds.\<close>

lemma publish_inv:
  assumes "spsc_inv s" "t = rb_tail (shared s)" "Suc (length (produced s)) < seen_pops s + slots s"
    and "rb_data (shared s) ! unat t = x"
  shows "spsc_inv (s\<lparr>shared := (shared s)\<lparr>rb_tail := (t + 1) mod capacity (shared s)\<rparr>, ppc := P_Idle,
    produced := produced s @ [x]\<rparr>)" (is "spsc_inv ?s'")
proof -
  have nt: "unat ((t + 1) mod capacity (shared s)) = Suc (length (produced s)) mod slots s"
    using next_tail_index [OF assms(1)] assms(2) by simp
  have t: "unat t = length (produced s) mod slots s" using assms(1,2) by (simp add: spsc_inv_defs)
  have le: "length (consumed s) \<le> seen_pushes s" "seen_pushes s \<le> length (produced s)"
    using assms(1) by (auto simp: spsc_inv_defs)
  have h: "history_ok ?s'"
    using assms(1,4) t le by (auto simp: history_ok_def slots_def spsc_inv_def nth_append less_Suc_eq)
  have c: "consumer_ok ?s' (cpc s)"
    using assms(1) le consumer_ok_cong [of ?s' s "cpc s"] by (simp add: spsc_inv_def nth_append)
  have "shared_ok ?s'" "views_ok ?s'"
    using assms(1,3) nt by (simp_all add: spsc_inv_def shared_ok_def views_ok_def slots_def)
  with h c show ?thesis by (simp add: spsc_inv_def)
qed

text \<open>What the consumer finds in the slot at the head, as long as it has not worked on it.\<close>

lemma head_item:
  assumes "spsc_inv s" "held (cpc s) = 0" "length (consumed s) < length (produced s)"
  shows "slot_at (shared s) (unat (rb_head (shared s))) = produced s ! length (consumed s)"
  using assms by (simp add: spsc_inv_defs slot_at_def)

text \<open>Work on the slot at the head reaches neither the other items in flight nor the slot at the tail.\<close>

lemma use_inv:
  assumes "spsc_inv s" "cpc s = C_Own h y"
  shows "spsc_inv (s\<lparr>shared := store_slot (shared s) (unat h) z\<rparr>)" (is "spsc_inv ?s'")
proof -
  have c: "h = rb_head (shared s)" "length (consumed s) < seen_pushes s" using assms by (auto simp: spsc_inv_def)
  have bounds: "seen_pushes s \<le> length (produced s)" "length (produced s) < length (consumed s) + slots s"
    using assms(1) by (auto simp: spsc_inv_defs)
  have h: "unat h = length (consumed s) mod slots s" using assms(1) c(1) by (simp add: spsc_inv_defs)
  have ne: "unat h \<noteq> k mod slots s" if "length (consumed s) < k" "k \<le> length (produced s)" for k
    using mod_inj_window [of "length (consumed s)" "slots s" k] that bounds h by auto
  have "history_ok ?s'"
    using assms ne by (auto simp: history_ok_def spsc_inv_def store_slot_def slots_def nth_list_update_neq)
  moreover have "unat h \<noteq> unat (rb_tail (shared s))"
    using ne [of "length (produced s)"] c(2) bounds(1) assms(1) by (simp add: spsc_inv_defs)
  then have "producer_ok ?s' (ppc s) = producer_ok s (ppc s)"
    by (intro producer_ok_cong) (simp_all add: store_slot_def)
  moreover have "consumer_ok ?s' (cpc s) = consumer_ok s (cpc s)"
    by (rule consumer_ok_cong) (simp_all add: store_slot_def)
  ultimately show ?thesis
    using assms(1) by (simp add: spsc_inv_def shared_ok_def views_ok_def slots_def store_slot_def)
qed

text \<open>The store of the head gives the slot back.\<close>

lemma release_inv:
  assumes "spsc_inv s" "h = rb_head (shared s)" "length (consumed s) < seen_pushes s" "y = produced s ! length (consumed s)"
  shows "spsc_inv (s\<lparr>shared := (shared s)\<lparr>rb_head := (h + 1) mod capacity (shared s)\<rparr>, cpc := C_Idle,
      consumed := consumed s @ [y]\<rparr>)" (is "spsc_inv ?s'")
proof -
  have nh: "unat ((h + 1) mod capacity (shared s)) = Suc (length (consumed s)) mod slots s"
    using next_head_index [OF assms(1)] assms(2) by simp
  have v: "seen_pushes s \<le> length (produced s)" using assms(1) by (simp add: spsc_inv_defs)
  have "held (cpc s) \<le> 1" by (cases "cpc s") simp_all
  then have h: "history_ok ?s'"
    using assms(1,3,4) v by (auto simp: history_ok_def slots_def spsc_inv_def take_Suc_conv_app_nth)
  have p: "producer_ok ?s' (ppc s)"
    using assms(1) producer_ok_cong [of ?s' s "ppc s"] by (simp add: spsc_inv_def)
  have "shared_ok ?s'" "views_ok ?s'"
    using assms(1,3) nh v by (simp_all add: spsc_inv_def shared_ok_def views_ok_def slots_def)
  with h p show ?thesis by (simp add: spsc_inv_def)
qed

text \<open>Steps that move one thread's program counter and its view, and leave the memory alone.\<close>

lemma producer_move_inv:
  assumes "spsc_inv s" "seen_pops s \<le> k" "k \<le> length (consumed s)"
    and "producer_ok (s\<lparr>seen_pops := k\<rparr>) p"
  shows "spsc_inv (s\<lparr>ppc := p, seen_pops := k\<rparr>)" (is "spsc_inv ?s'")
proof -
  have "consumer_ok ?s' (cpc s)"
    using assms(1) consumer_ok_cong [of ?s' s "cpc s"] by (simp add: spsc_inv_def)
  moreover have "producer_ok ?s' p"
    using assms(4) by (cases p) (simp_all add: slots_def)
  moreover have "shared_ok ?s'" "views_ok ?s'" "history_ok ?s'"
    using assms(1-3) by (auto simp: spsc_inv_defs slots_def)
  ultimately show ?thesis by (simp add: spsc_inv_def)
qed

lemma consumer_move_inv:
  assumes "spsc_inv s" "seen_pushes s \<le> k" "k \<le> length (produced s)" "held (cpc s) \<le> held c"
    and "consumer_ok (s\<lparr>seen_pushes := k\<rparr>) c"
  shows "spsc_inv (s\<lparr>cpc := c, seen_pushes := k\<rparr>)" (is "spsc_inv ?s'")
proof -
  have "producer_ok ?s' (ppc s)"
    using assms(1) producer_ok_cong [of ?s' s "ppc s"] by (simp add: spsc_inv_def)
  moreover have "consumer_ok ?s' c"
    using assms(5) by (cases c) simp_all
  moreover have "shared_ok ?s'" "views_ok ?s'" "history_ok ?s'"
    using assms(1-4) by (auto simp: spsc_inv_defs slots_def)
  ultimately show ?thesis by (simp add: spsc_inv_def)
qed

lemma load_views:
  "spsc_inv s \<Longrightarrow> producer_ok s p \<Longrightarrow> spsc_inv (s\<lparr>ppc := p\<rparr>)"
  "spsc_inv s \<Longrightarrow> consumer_ok s c \<Longrightarrow> held (cpc s) \<le> held c \<Longrightarrow> spsc_inv (s\<lparr>cpc := c\<rparr>)"
  using producer_move_inv [of s "seen_pops s" p] consumer_move_inv [of s "seen_pushes s" c]
  by (simp_all add: spsc_inv_def views_ok_def)

lemma spsc_step_inv: "spsc_step s t \<Longrightarrow> spsc_inv s \<Longrightarrow> spsc_inv t"
proof (induction rule: spsc_step.induct)
  case (push_begin s x)
  then show ?case by (intro load_views) simp_all
next
  case (push_full s x t k)
  then show ?case by (intro producer_move_inv) simp_all
next
  case (push_room s x t k nt)
  then have t: "t = rb_tail (shared s)" by (simp add: spsc_inv_def)
  with push_room have "Suc (length (produced s)) < k + slots s"
    by (intro room_from_stale_head) simp_all
  with push_room t show ?case by (intro producer_move_inv) (simp_all add: slots_def)
next
  case (push_store s x t nt)
  then have p: "t = rb_tail (shared s)" "nt = (t + 1) mod capacity (shared s)" "Suc (length (produced s)) < seen_pops s + slots s"
    by (auto simp: spsc_inv_def)
  have "unat t < length (rb_data (shared s))"
    using spsc_inv_wf [OF push_store.prems] p(1) by (simp add: ring_wf_def)
  with p show ?case by (intro fill_inv push_store.prems) (simp_all add: store_slot_def capacity_def slots_def)
next
  case (push_commit s x t nt)
  then have p: "t = rb_tail (shared s)" "nt = (t + 1) mod capacity (shared s)" "Suc (length (produced s)) < seen_pops s + slots s"
    "rb_data (shared s) ! unat t = x" by (auto simp: spsc_inv_def)
  from publish_inv [OF push_commit.prems p(1,3,4)] show ?case unfolding p(2) .
next
  case (reserve_begin s)
  then show ?case by (intro load_views) simp_all
next
  case (reserve_full s t k)
  then show ?case by (intro producer_move_inv) simp_all
next
  case (reserve_room s t k)
  then have t: "t = rb_tail (shared s)" by (simp add: spsc_inv_def)
  with reserve_room have "Suc (length (produced s)) < k + slots s"
    by (intro room_from_stale_head) simp_all
  with reserve_room t show ?case by (intro producer_move_inv) (simp_all add: slots_def)
next
  case (slot_fill s t y)
  then have p: "t = rb_tail (shared s)" "Suc (length (produced s)) < seen_pops s + slots s" by (auto simp: spsc_inv_def)
  then have "producer_ok (s\<lparr>shared := store_slot (shared s) (unat t) y\<rparr>) (P_Own t)"
    by (simp add: store_slot_def slots_def)
  from fill_inv [OF slot_fill.prems p this]
  have "spsc_inv (s\<lparr>shared := store_slot (shared s) (unat t) y, ppc := P_Own t\<rparr>)" .
  moreover have "s\<lparr>shared := store_slot (shared s) (unat t) y, ppc := P_Own t\<rparr> = s\<lparr>shared := store_slot (shared s) (unat t) y\<rparr>"
    using slot_fill.hyps by (cases s) simp
  ultimately show ?case by (simp only:)
next
  case (commit_write_begin s t)
  then have "producer_ok s (P_Publish (rb_tail (shared s)))" by (auto simp: spsc_inv_def)
  with commit_write_begin.prems show ?case by (intro load_views)
next
  case (commit_write_end s t)
  then have p: "t = rb_tail (shared s)" "Suc (length (produced s)) < seen_pops s + slots s" by (auto simp: spsc_inv_def)
  from publish_inv [OF commit_write_end.prems p refl] show ?case by (simp add: slot_at_def)
next
  case (pop_begin s)
  then show ?case by (intro load_views) simp_all
next
  case (pop_empty s h k)
  then show ?case by (intro consumer_move_inv) simp_all
next
  case (pop_item s h k)
  then have h: "h = rb_head (shared s)" by (simp add: spsc_inv_def)
  with pop_item have "length (consumed s) < k"
    by (intro item_from_stale_tail) simp_all
  with pop_item h show ?case by (intro consumer_move_inv) simp_all
next
  case (pop_load s h)
  then have c: "h = rb_head (shared s)" "length (consumed s) < seen_pushes s" "seen_pushes s \<le> length (produced s)"
    by (auto simp: spsc_inv_def views_ok_def)
  with pop_load head_item [OF pop_load.prems] show ?case by (intro load_views) simp_all
next
  case (pop_commit s h y)
  then show ?case by (intro release_inv) (auto simp: spsc_inv_def)
next
  case (peek_begin s)
  then show ?case by (intro load_views) simp_all
next
  case (peek_empty s h k)
  then show ?case by (intro consumer_move_inv) simp_all
next
  case (peek_item s h k)
  then have h: "h = rb_head (shared s)" by (simp add: spsc_inv_def)
  with peek_item have "length (consumed s) < k"
    by (intro item_from_stale_tail) simp_all
  with peek_item h head_item [OF peek_item.prems] show ?case by (intro consumer_move_inv) simp_all
next
  case (slot_use s h y z)
  then show ?case by (intro use_inv)
next
  case (commit_read_begin s h y)
  then have "consumer_ok s (C_Release (rb_head (shared s)) y)" by (auto simp: spsc_inv_def)
  with commit_read_begin show ?case by (intro load_views) simp_all
next
  case (commit_read_end s h y)
  then show ?case by (intro release_inv) (auto simp: spsc_inv_def)
qed

lemma reachable_inv:
  assumes "0 < n" "n < 2 ^ 64"
  shows "spsc_reachable n x s \<Longrightarrow> spsc_inv s"
  by (induction rule: spsc_reachable.induct) (blast intro: spsc_inv_init [OF assms] spsc_step_inv)+

lemma spsc_inv_prefix: "spsc_inv s \<Longrightarrow> \<exists>rest. produced s = consumed s @ rest \<and> length rest < slots s"
proof -
  assume s: "spsc_inv s"
  then have "produced s = consumed s @ drop (length (consumed s)) (produced s)"
    by (metis append_take_drop_id spsc_inv_def history_ok_def)
  moreover have "length (drop (length (consumed s)) (produced s)) < slots s"
    using s by (auto simp: spsc_inv_defs)
  ultimately show ?thesis by blast
qed

text \<open>The slot a thread is writing, and the slot the other is reading or working on.\<close>

fun writing :: "'a prod_pc \<Rightarrow> u64 option" where
  "writing (P_Store x t nt) = Some t"
| "writing (P_Own t) = Some t"
| "writing p = None"

fun reading :: "'a cons_pc \<Rightarrow> u64 option" where
  "reading (C_Load h) = Some h"
| "reading (C_Own h y) = Some h"
| "reading c = None"

fun_cases writingE: "writing p = Some t"
fun_cases readingE: "reading c = Some h"

lemma spsc_inv_no_race:
  assumes "spsc_inv s" "writing (ppc s) = Some t" "reading (cpc s) = Some h"
  shows "unat t \<noteq> unat h"
proof -
  have p: "t = rb_tail (shared s)" "Suc (length (produced s)) < seen_pops s + slots s"
    by (rule writingE [OF assms(2)]; use assms(1) in \<open>simp add: spsc_inv_def\<close>)+
  have c: "h = rb_head (shared s)" "length (consumed s) < seen_pushes s"
    by (rule readingE [OF assms(3)]; use assms(1) in \<open>simp add: spsc_inv_def\<close>)+
  have "unat h = length (consumed s) mod slots s" "length (consumed s) < length (produced s)"
    using assms(1) c by (auto simp: spsc_inv_defs)
  then show ?thesis
    using store_keeps_in_flight [OF assms(1) p(2), of "length (consumed s)"] p(1) by simp
qed

text \<open>The consumer alone, from its idle state, takes the next item in flight.\<close>

lemma consumer_delivers:
  assumes inv: "spsc_inv s" and idle: "cpc s = C_Idle" and item: "length (consumed s) < length (produced s)"
  shows "\<exists>t. spsc_step\<^sup>*\<^sup>* s t \<and> consumed t = consumed s @ [produced s ! length (consumed s)] \<and>
    produced t = produced s \<and> cpc t = C_Idle"
proof -
  let ?h = "rb_head (shared s)" and ?k = "length (produced s)"
  let ?s1 = "s\<lparr>cpc := C_Tail ?h\<rparr>"
  let ?s2 = "?s1\<lparr>cpc := C_Load ?h, seen_pushes := ?k\<rparr>"
  let ?s3 = "?s2\<lparr>cpc := C_Commit ?h (slot_at (shared s) (unat ?h))\<rparr>"
  let ?s4 = "?s3\<lparr>shared := (shared s)\<lparr>rb_head := (?h + 1) mod capacity (shared s)\<rparr>, cpc := C_Idle,
    consumed := consumed s @ [slot_at (shared s) (unat ?h)]\<rparr>"
  have sh: "shared_ok s" and v: "seen_pushes s \<le> ?k" using inv by (simp_all add: spsc_inv_defs)
  have "length (consumed s) mod slots s \<noteq> ?k mod slots s"
    using mod_inj_window [of "length (consumed s)" "slots s" ?k] inv item by (auto simp: spsc_inv_defs)
  then have "?h \<noteq> index_after s ?k"
    using unat_index_after [OF sh, of ?k] sh by (auto simp: shared_ok_def)
  then have ne: "?h \<noteq> index_after ?s1 ?k" by (simp add: index_after_def slots_def)
  have "spsc_step s ?s1" using idle by (rule spsc_step.pop_begin)
  moreover have "spsc_step ?s1 ?s2" using v ne by (intro spsc_step.pop_item) simp_all
  moreover have "spsc_step ?s2 ?s3" using spsc_step.pop_load [of ?s2 ?h] by simp
  moreover have "spsc_step ?s3 ?s4"
    using spsc_step.pop_commit [of ?s3 ?h "slot_at (shared s) (unat ?h)"] by simp
  ultimately have "spsc_step\<^sup>*\<^sup>* s ?s4" by (meson converse_rtranclp_into_rtranclp rtranclp.rtrancl_refl)
  moreover have "slot_at (shared s) (unat ?h) = produced s ! length (consumed s)"
    using head_item [OF inv] idle item by simp
  ultimately show ?thesis by (intro exI [of _ ?s4]) simp
qed

section \<open>A run of the threads\<close>

text \<open>The state in which the consumer works on the first item in place while the producer fills in the
  second.\<close>

definition both_accessing :: "nat spsc_state" where
  "both_accessing = \<lparr>shared = \<lparr>rb_head = 0, rb_tail = 1, rb_data = [7, 0, 0]\<rparr>, ppc = P_Own 1,
     cpc = C_Own 0 7, produced = [7], consumed = [], seen_pops = 0, seen_pushes = 1\<rparr>"

lemma pushed_reachable:
  "spsc_reachable 3 0 \<lparr>shared = \<lparr>rb_head = 0, rb_tail = 1, rb_data = [7, 0, 0::nat]\<rparr>,
    ppc = P_Idle, cpc = C_Idle, produced = [7], consumed = [], seen_pops = 0, seen_pushes = 0\<rparr>"
proof -
  let ?s0 = "\<lparr>shared = \<lparr>rb_head = 0, rb_tail = 0, rb_data = [0, 0, 0::nat]\<rparr>, ppc = P_Idle, cpc = C_Idle,
    produced = [], consumed = [], seen_pops = 0, seen_pushes = 0\<rparr>"
  let ?s1 = "?s0\<lparr>ppc := P_Head 7 0\<rparr>"
  let ?s2 = "?s1\<lparr>ppc := P_Store 7 0 1, seen_pops := 0\<rparr>"
  let ?s3 = "?s2\<lparr>shared := \<lparr>rb_head = 0, rb_tail = 0, rb_data = [7, 0, 0]\<rparr>, ppc := P_Commit 7 0 1\<rparr>"
  let ?s4 = "?s3\<lparr>shared := \<lparr>rb_head = 0, rb_tail = 1, rb_data = [7, 0, 0]\<rparr>, ppc := P_Idle, produced := [7]\<rparr>"
  have "spsc_init 3 (0::nat) = ?s0" by (simp add: spsc_init_def new_ring_def numeral_eq_Suc)
  then have "spsc_reachable 3 0 ?s0" using spsc_reachable.start [of 3 "0::nat"] by metis
  moreover have "spsc_step ?s0 ?s1" using spsc_step.push_begin [of ?s0 7] by simp
  moreover have "spsc_step ?s1 ?s2"
    using spsc_step.push_room [of ?s1 7 0 0 1] by (simp add: index_after_def slots_def capacity_def)
  moreover have "spsc_step ?s2 ?s3" using spsc_step.push_store [of ?s2 7 0 1] by (simp add: store_slot_def)
  moreover have "spsc_step ?s3 ?s4" using spsc_step.push_commit [of ?s3 7 0 1] by simp
  ultimately have "spsc_reachable 3 0 ?s4" by (meson spsc_reachable.step)
  then show ?thesis by simp
qed

lemma reach_both_accessing: "spsc_reachable 3 0 both_accessing"
proof -
  let ?q = "\<lparr>rb_head = 0, rb_tail = 1, rb_data = [7, 0, 0::nat]\<rparr>"
  let ?s0 = "\<lparr>shared = ?q, ppc = P_Idle, cpc = C_Idle, produced = [7], consumed = [], seen_pops = 0, seen_pushes = 0\<rparr>"
  let ?s1 = "?s0\<lparr>cpc := C_Peek 0\<rparr>"
  let ?s2 = "?s1\<lparr>cpc := C_Own 0 7, seen_pushes := 1\<rparr>"
  let ?s3 = "?s2\<lparr>ppc := P_Reserve 1\<rparr>"
  let ?s4 = "?s3\<lparr>ppc := P_Own 1, seen_pops := 0\<rparr>"
  have "spsc_step ?s0 ?s1" using spsc_step.peek_begin [of ?s0] by simp
  moreover have "spsc_step ?s1 ?s2"
    using spsc_step.peek_item [of ?s1 0 1] by (simp add: index_after_def slots_def slot_at_def)
  moreover have "spsc_step ?s2 ?s3" using spsc_step.reserve_begin [of ?s2] by simp
  moreover have "spsc_step ?s3 ?s4"
    using spsc_step.reserve_room [of ?s3 1 0] by (simp add: index_after_def slots_def capacity_def)
  ultimately have "spsc_reachable 3 0 ?s4"
    using pushed_reachable by (meson spsc_reachable.intros)
  then show ?thesis by (simp add: both_accessing_def)
qed

section \<open>Properties\<close>

text \<open>
  C11: In every interleaving of one producer and one consumer, with acquire loads that may return
  old values of the other thread's index, what the consumer has taken is a prefix of what the
  producer has committed (nothing is lost, duplicated, reordered or torn) and at most
  \<open>Capacity - 1\<close> items are in flight. This holds for every mixture of \<open>push\<close> with slots filled in place,
  and of \<open>pop\<close> with slots worked on in place, where an item counts as it was found.
\<close>

theorem spsc_fifo_concurrent:
  assumes "0 < n" "n < 2 ^ 64" "spsc_reachable n x s"
  shows "\<exists>rest. produced s = consumed s @ rest \<and> length rest < n"
proof -
  have "slots s = n" using assms(3)
    by induction (auto simp: spsc_init_def new_ring_def slots_def store_slot_def elim!: spsc_step.cases)
  then show ?thesis using spsc_inv_prefix [OF reachable_inv [OF assms]] by simp
qed

theorem spsc_fifo_concurrent_witness:
  "\<exists>rest. produced both_accessing = consumed both_accessing @ rest \<and> length rest < 3"
  by (rule spsc_fifo_concurrent [OF _ _ reach_both_accessing]) simp_all

text \<open>
  C12: The two threads never race on a slot: while the producer writes one, be it in \<open>push\<close> or, in any
  number of stores, between \<open>reserve_write\<close> and \<open>commit_write\<close>, and the consumer reads one or works on
  one in place between \<open>peek_read\<close> and \<open>commit_read\<close>, the two slots differ.
\<close>

theorem spsc_no_data_race:
  assumes "0 < n" "n < 2 ^ 64" "spsc_reachable n x s" "writing (ppc s) = Some t" "reading (cpc s) = Some h"
  shows "unat t \<noteq> unat h"
  using spsc_inv_no_race [OF reachable_inv [OF assms(1-3)] assms(4,5)] .

theorem spsc_no_data_race_witness: "unat (1::u64) \<noteq> unat (0::u64)"
  by (rule spsc_no_data_race [OF _ _ reach_both_accessing]) (simp_all add: both_accessing_def)

text \<open>
  Every committed item is eventually delivered if the consumer keeps running: from any
  reachable state with an item in flight and an idle consumer, the consumer's own steps lead to
  a state where it has taken exactly the next item.
\<close>

theorem spsc_delivery:
  assumes "0 < n" "n < 2 ^ 64" "spsc_reachable n x s" "cpc s = C_Idle"
    "length (consumed s) < length (produced s)"
  shows "\<exists>t. spsc_step\<^sup>*\<^sup>* s t \<and> consumed t = consumed s @ [produced s ! length (consumed s)] \<and>
    produced t = produced s \<and> cpc t = C_Idle"
  using consumer_delivers [OF reachable_inv [OF assms(1-3)] assms(4,5)] .


theorem spsc_delivery_witness:
  "\<exists>t::nat spsc_state. consumed t = [7] \<and> produced t = [7] \<and> cpc t = C_Idle"
  using spsc_delivery [OF _ _ pushed_reachable] by auto

end
