(* ===== verification/Layout.thy ===== *)
theory Layout
  imports Prelude
begin

text \<open>
  The binary layout of the shared memory. The size, the alignment and the member offsets of the
  structures of \<open>ipc_shm.hpp\<close> are computed from their member lists by the layout rules of the
  x86-64 ABI: a member starts at the next multiple of its alignment, a structure is as aligned as
  its most aligned member and its size is a multiple of its alignment; \<open>alignas\<close> raises an
  alignment. Both processes map this layout, so it is part of the protocol.
\<close>

section \<open>Layout rules\<close>

text \<open>A scalar of a size is aligned to its size; \<open>CAlign\<close> is \<open>alignas\<close> on a member.\<close>

datatype cty = CScalar nat | CArray cty nat | CAlign nat cty | CStruct "(string \<times> cty) list"

definition align_up :: "nat \<Rightarrow> nat \<Rightarrow> nat" where
  "align_up a n = (if a = 0 then n else (n + a - 1) div a * a)"

fun c_align :: "cty \<Rightarrow> nat" where
  "c_align (CScalar n) = n"
| "c_align (CArray t n) = c_align t"
| "c_align (CAlign a t) = max a (c_align t)"
| "c_align (CStruct ms) = foldr max (map (\<lambda>(x, t). c_align t) ms) 1"

fun c_size :: "cty \<Rightarrow> nat" where
  "c_size (CScalar n) = n"
| "c_size (CArray t n) = n * c_size t"
| "c_size (CAlign a t) = c_size t"
| "c_size (CStruct ms) =
     align_up (foldr max (map (\<lambda>(x, t). c_align t) ms) 1)
       (fold (\<lambda>(x, t) off. align_up (c_align t) off + c_size t) ms 0)"

text \<open>The offset of a member, by name.\<close>

fun offset_from :: "nat \<Rightarrow> (string \<times> cty) list \<Rightarrow> string \<Rightarrow> nat option" where
  "offset_from off [] x = None"
| "offset_from off ((y, t) # ms) x =
     (if x = y then Some (align_up (c_align t) off)
      else offset_from (align_up (c_align t) off + c_size t) ms x)"

fun c_offset :: "cty \<Rightarrow> string \<Rightarrow> nat option" where
  "c_offset (CStruct ms) x = offset_from 0 ms x"
| "c_offset t x = None"

lemma align_up_dvd: "0 < a \<Longrightarrow> a dvd align_up a n"
  by (simp add: align_up_def)

lemma align_up_ge: "n \<le> align_up a n"
proof (cases "a = 0")
  case False
  have "(n + a - 1) mod a < a" using False by simp
  moreover have "n + a - 1 = (n + a - 1) div a * a + (n + a - 1) mod a" by simp
  ultimately have "n + a - 1 \<le> (n + a - 1) div a * a + (a - 1)" using False by linarith
  with False show ?thesis by (simp add: align_up_def)
qed (simp add: align_up_def)

text \<open>Every member starts at a multiple of its alignment.\<close>

lemma offset_from_aligned:
  "offset_from off ms x = Some k \<Longrightarrow> \<exists>t. (x, t) \<in> set ms \<and> (0 < c_align t \<longrightarrow> c_align t dvd k)"
  by (induction off ms x rule: offset_from.induct) (auto simp: align_up_dvd split: if_splits)

section \<open>The structures of the shared memory\<close>

definition CACHE_LINE_SIZE :: nat where
  "CACHE_LINE_SIZE = 64"

definition IPC_QUEUE_DEPTH :: nat where
  "IPC_QUEUE_DEPTH = 16"

definition layout_DspAudioFrame :: cty where
  "layout_DspAudioFrame = CStruct
     [(''instance_id'', CScalar 4), (''frame_count'', CScalar 4), (''channel_count'', CScalar 4),
      (''reserved_align'', CScalar 4), (''timestamp_ns'', CScalar 8),
      (''samples'', CArray (CScalar 4) (256 * 8)), (''padding'', CArray (CScalar 1) 40)]"

definition layout_WorkerControlBlock :: cty where
  "layout_WorkerControlBlock = CStruct
     [(''heartbeat'', CScalar 8), (''last_error'', CScalar 4), (''is_ready'', CScalar 1),
      (''should_restart'', CScalar 1), (''bypass_zero_copy'', CScalar 1), (''load_pct'', CScalar 4),
      (''padding'', CArray (CScalar 1) 44)]"

definition layout_DspControlEvent :: cty where
  "layout_DspControlEvent = CStruct [(''parameter_id'', CScalar 4), (''value'', CScalar 4)]"

definition layout_DspMemoryRequest :: cty where
  "layout_DspMemoryRequest = CStruct
     [(''request_id'', CScalar 4), (''type'', CScalar 4), (''size'', CScalar 8), (''handle'', CScalar 4),
      (''shm_offset'', CScalar 8)]"

definition layout_DspMemoryResponse :: cty where
  "layout_DspMemoryResponse = CStruct
     [(''request_id'', CScalar 4), (''handle'', CScalar 4), (''success'', CScalar 1)]"

definition layout_DspLogEntry :: cty where
  "layout_DspLogEntry = CStruct
     [(''level'', CScalar 4), (''tag'', CArray (CScalar 1) 16), (''msg'', CArray (CScalar 1) 128)]"

definition layout_ring :: "cty \<Rightarrow> nat \<Rightarrow> cty" where
  "layout_ring t n = CStruct
     [(''head_'', CAlign CACHE_LINE_SIZE (CScalar 8)), (''tail_'', CAlign CACHE_LINE_SIZE (CScalar 8)),
      (''data_'', CAlign CACHE_LINE_SIZE (CArray t n))]"

definition layout_DspSharedMemory :: cty where
  "layout_DspSharedMemory = CStruct
     [(''workers'', CArray layout_WorkerControlBlock 8),
      (''in_queue'', layout_ring layout_DspAudioFrame IPC_QUEUE_DEPTH),
      (''out_queue'', layout_ring layout_DspAudioFrame IPC_QUEUE_DEPTH),
      (''control_bus'', layout_ring layout_DspControlEvent 64),
      (''memory_request_bus'', layout_ring layout_DspMemoryRequest 32),
      (''memory_response_bus'', layout_ring layout_DspMemoryResponse 32),
      (''log_bus'', layout_ring layout_DspLogEntry 32),
      (''data_staging'', CArray (CScalar 1) (1024 * 1024 * 4)),
      (''prefer_block_parallel'', CScalar 1),
      (''padding'', CArray (CScalar 1) 55)]"

lemmas layout_defs =
  layout_DspAudioFrame_def layout_WorkerControlBlock_def layout_DspControlEvent_def
  layout_DspMemoryRequest_def layout_DspMemoryResponse_def layout_DspLogEntry_def
  layout_ring_def layout_DspSharedMemory_def CACHE_LINE_SIZE_def IPC_QUEUE_DEPTH_def

text \<open>The offset of the staging area, which an upload request carries.\<close>

definition STAGING_OFFSET :: nat where
  "STAGING_OFFSET = 272128"

definition STAGING_SIZE :: nat where
  "STAGING_SIZE = 1024 * 1024 * 4"

lemma size_DspAudioFrame: "c_size layout_DspAudioFrame = 8256" "c_align layout_DspAudioFrame = 8"
  by (simp_all add: layout_defs align_up_def)

lemma size_WorkerControlBlock: "c_size layout_WorkerControlBlock = 64" "c_align layout_WorkerControlBlock = 8"
  by (simp_all add: layout_defs align_up_def)

lemma size_DspSharedMemory: "c_size layout_DspSharedMemory = 4466496"
  by (simp add: layout_defs align_up_def)

lemma staging_offset: "c_offset layout_DspSharedMemory ''data_staging'' = Some STAGING_OFFSET"
  by (simp add: layout_defs align_up_def STAGING_OFFSET_def)

lemma queue_offsets:
  "c_offset layout_DspSharedMemory ''in_queue'' = Some 512"
  "c_offset layout_DspSharedMemory ''out_queue'' = Some 132736"
  by (simp_all add: layout_defs align_up_def)

lemma ring_data_offset: "c_offset (layout_ring t n) ''data_'' = Some 128"
  if "c_align t \<le> 64" "0 < c_align t"
  using that by (simp add: layout_defs align_up_def max_def)

text \<open>
  The offset of slot \<open>i\<close> of an audio queue from the start of the mapping, which is \<open>&data_[i]\<close>: the queue
  within the mapping, the array within the queue, and the slots before it.
\<close>

definition audio_slot_offset :: "string \<Rightarrow> nat \<Rightarrow> nat" where
  "audio_slot_offset queue i =
     the (c_offset layout_DspSharedMemory queue)
     + the (c_offset (layout_ring layout_DspAudioFrame IPC_QUEUE_DEPTH) ''data_'')
     + i * c_size layout_DspAudioFrame"

definition in_slot_offset :: "nat \<Rightarrow> nat" where
  "in_slot_offset i = audio_slot_offset ''in_queue'' i"

lemma in_slot_offset_eq: "in_slot_offset i = 640 + i * 8256"
  by (simp add: in_slot_offset_def audio_slot_offset_def queue_offsets size_DspAudioFrame
      ring_data_offset)

section \<open>The structures of the root header\<close>

text \<open>
  \<open>Linux_DSP_accelleration.hpp\<close> declares structures of the same names in the same namespace with
  another layout: a frame without instance, time stamp and padding, no log bus, and an aligned
  staging area. The control block, event and memory messages are laid out alike.
\<close>

definition legacy_DspAudioFrame :: cty where
  "legacy_DspAudioFrame = CStruct
     [(''samples'', CArray (CScalar 4) (256 * 8)), (''frame_count'', CScalar 4), (''channel_count'', CScalar 4)]"

definition legacy_WorkerControlBlock :: cty where
  "legacy_WorkerControlBlock = CStruct
     [(''heartbeat'', CScalar 8), (''last_error'', CScalar 4), (''is_ready'', CScalar 1),
      (''should_restart'', CScalar 1), (''bypass_zero_copy'', CScalar 1), (''load_pct'', CScalar 4),
      (''padding'', CArray (CScalar 1) 44)]"

definition legacy_DspControlEvent :: cty where
  "legacy_DspControlEvent = CStruct [(''parameter_id'', CScalar 4), (''value'', CScalar 4)]"

definition legacy_DspMemoryRequest :: cty where
  "legacy_DspMemoryRequest = CStruct
     [(''request_id'', CScalar 4), (''type'', CScalar 4), (''size'', CScalar 8), (''handle'', CScalar 4),
      (''shm_offset'', CScalar 8)]"

definition legacy_DspMemoryResponse :: cty where
  "legacy_DspMemoryResponse = CStruct
     [(''request_id'', CScalar 4), (''handle'', CScalar 4), (''success'', CScalar 1)]"

definition legacy_ring :: "cty \<Rightarrow> nat \<Rightarrow> cty" where
  "legacy_ring t n = CStruct
     [(''head_'', CAlign CACHE_LINE_SIZE (CScalar 8)), (''tail_'', CAlign CACHE_LINE_SIZE (CScalar 8)),
      (''data_'', CAlign CACHE_LINE_SIZE (CArray t n))]"

definition legacy_DspSharedMemory :: cty where
  "legacy_DspSharedMemory = CStruct
     [(''workers'', CArray legacy_WorkerControlBlock 8),
      (''in_queue'', legacy_ring legacy_DspAudioFrame IPC_QUEUE_DEPTH),
      (''out_queue'', legacy_ring legacy_DspAudioFrame IPC_QUEUE_DEPTH),
      (''control_bus'', legacy_ring legacy_DspControlEvent 64),
      (''memory_request_bus'', legacy_ring legacy_DspMemoryRequest 32),
      (''memory_response_bus'', legacy_ring legacy_DspMemoryResponse 32),
      (''data_staging'', CAlign CACHE_LINE_SIZE (CArray (CScalar 1) (1024 * 1024 * 4))),
      (''prefer_block_parallel'', CScalar 1),
      (''padding'', CArray (CScalar 1) 63)]"

lemmas legacy_defs = legacy_DspAudioFrame_def legacy_DspSharedMemory_def legacy_WorkerControlBlock_def legacy_DspControlEvent_def
  legacy_DspMemoryRequest_def legacy_DspMemoryResponse_def legacy_ring_def

lemma legacy_alike:
  "legacy_WorkerControlBlock = layout_WorkerControlBlock" "legacy_DspControlEvent = layout_DspControlEvent"
  "legacy_DspMemoryRequest = layout_DspMemoryRequest" "legacy_DspMemoryResponse = layout_DspMemoryResponse"
  "legacy_ring t n = layout_ring t n"
  by (simp_all add: legacy_defs layout_defs)

text \<open>The size the header asserts.\<close>

lemma legacy_block_size: "c_size legacy_WorkerControlBlock = CACHE_LINE_SIZE"
  by (simp add: legacy_alike size_WorkerControlBlock CACHE_LINE_SIZE_def)

section \<open>Properties\<close>

text \<open>
  The two headers do not describe the same shared memory: a process built with the root header
  finds the input queue at the same offset but with frames of another size, and the output queue,
  the staging area and the end of the mapping elsewhere.
\<close>

theorem header_layouts_differ:
  "c_offset legacy_DspSharedMemory ''in_queue'' = c_offset layout_DspSharedMemory ''in_queue''
   \<and> c_size legacy_DspAudioFrame = 8200 \<and> c_size layout_DspAudioFrame = 8256
   \<and> c_offset legacy_DspSharedMemory ''out_queue'' = Some 131840
   \<and> c_offset layout_DspSharedMemory ''out_queue'' = Some 132736
   \<and> c_offset legacy_DspSharedMemory ''data_staging'' = Some 265472
   \<and> c_offset layout_DspSharedMemory ''data_staging'' = Some STAGING_OFFSET
   \<and> c_size legacy_DspSharedMemory = 4459840 \<and> c_size layout_DspSharedMemory = 4466496"
  by (simp only: size_DspAudioFrame size_DspSharedMemory queue_offsets staging_offset)
    (simp add: legacy_defs layout_defs align_up_def)

end
