(* ===== verification/Float_Arith.thy ===== *)
theory Float_Arith
  imports Prelude "HOL-Library.Log_Nat"
begin

text \<open>
  The floating point arithmetic of the code: IEEE 754 binary32 (\<open>float\<close>) and binary64
  (\<open>double\<close>) with the default rounding, to nearest with ties to even. A number is a sign and an
  exact rational magnitude; an operation computes the exact result and rounds it to the format,
  whose parameters are the precision \<open>p\<close> and the exponent range \<open>emin\<close> to \<open>emax\<close>. NaN payloads
  are not distinguished, because the code never looks at them. Conversions between the formats
  and the integer types are those the code writes as casts.
\<close>

section \<open>Numbers and rounding\<close>

text \<open>\<open>FFin True m\<close> is \<open>- m\<close>; the two zeroes differ in their sign.\<close>

datatype flt = FNaN | FInf bool | FFin bool rat

record fmt =
  precision :: int
  emin :: int
  emax :: int

definition binary32 :: fmt where
  "binary32 = \<lparr>precision = 24, emin = -126, emax = 127\<rparr>"

definition binary64 :: fmt where
  "binary64 = \<lparr>precision = 53, emin = -1022, emax = 1023\<rparr>"

text \<open>The exponent \<open>e\<close> with \<open>2 powi e \<le> m < 2 powi (e + 1)\<close>, for \<open>0 < m\<close>.\<close>

definition ilog2 :: "rat \<Rightarrow> int" where
  "ilog2 m = (case quotient_of m of (a, b) \<Rightarrow>
     let e = bitlen a - bitlen b in if 2 powi e \<le> m then e else e - 1)"

text \<open>The unit in the last place of a format at magnitude \<open>m\<close>; below \<open>2 powi emin\<close> it is that of the subnormals.\<close>

definition ulp :: "fmt \<Rightarrow> rat \<Rightarrow> rat" where
  "ulp F m = 2 powi (max (ilog2 m) (emin F) - (precision F - 1))"

definition round_half_even :: "rat \<Rightarrow> int" where
  "round_half_even r = (let f = \<lfloor>r\<rfloor>; d = r - of_int f in
     if d < 1/2 then f else if 1/2 < d then f + 1 else if even f then f else f + 1)"

definition fround :: "fmt \<Rightarrow> bool \<Rightarrow> rat \<Rightarrow> flt" where
  "fround F neg m =
     (if m = 0 then FFin neg 0
      else let v = of_int (round_half_even (m / ulp F m)) * ulp F m in
        if 2 powi (emax F + 1) \<le> v then FInf neg else FFin neg v)"

section \<open>Operations\<close>

fun fmul :: "fmt \<Rightarrow> flt \<Rightarrow> flt \<Rightarrow> flt" where
  "fmul F (FFin s a) (FFin t b) = fround F (s \<noteq> t) (a * b)"
| "fmul F (FFin s a) (FInf t) = (if a = 0 then FNaN else FInf (s \<noteq> t))"
| "fmul F (FInf s) (FFin t b) = (if b = 0 then FNaN else FInf (s \<noteq> t))"
| "fmul F (FInf s) (FInf t) = FInf (s \<noteq> t)"
| "fmul F FNaN y = FNaN"
| "fmul F x FNaN = FNaN"

fun fdiv :: "fmt \<Rightarrow> flt \<Rightarrow> flt \<Rightarrow> flt" where
  "fdiv F (FFin s a) (FFin t b) =
     (if b = 0 then (if a = 0 then FNaN else FInf (s \<noteq> t)) else fround F (s \<noteq> t) (a / b))"
| "fdiv F (FFin s a) (FInf t) = FFin (s \<noteq> t) 0"
| "fdiv F (FInf s) (FFin t b) = FInf (s \<noteq> t)"
| "fdiv F (FInf s) (FInf t) = FNaN"
| "fdiv F FNaN y = FNaN"
| "fdiv F x FNaN = FNaN"

fun signed_rat :: "bool \<Rightarrow> rat \<Rightarrow> rat" where
  "signed_rat s a = (if s then - a else a)"

fun fadd :: "fmt \<Rightarrow> flt \<Rightarrow> flt \<Rightarrow> flt" where
  "fadd F (FFin s a) (FFin t b) =
     (let v = signed_rat s a + signed_rat t b in
      if v = 0 then FFin (s \<and> t) 0 else fround F (v < 0) \<bar>v\<bar>)"
| "fadd F (FFin s a) (FInf t) = FInf t"
| "fadd F (FInf s) (FFin t b) = FInf s"
| "fadd F (FInf s) (FInf t) = (if s = t then FInf s else FNaN)"
| "fadd F FNaN y = FNaN"
| "fadd F x FNaN = FNaN"

text \<open>Conversions: an integer to a format, a format to a narrower one, and truncation to \<open>uint32_t\<close>,
  which is undefined when the truncated value does not fit.\<close>

definition of_integer :: "fmt \<Rightarrow> int \<Rightarrow> flt" where
  "of_integer F i = fround F (i < 0) (of_int \<bar>i\<bar>)"

fun to_format :: "fmt \<Rightarrow> flt \<Rightarrow> flt" where
  "to_format F (FFin s a) = fround F s a"
| "to_format F x = x"

fun to_u32 :: "flt \<Rightarrow> u32 outcome" where
  "to_u32 (FFin s a) =
     (let i = \<lfloor>a\<rfloor> in if (s \<and> i \<noteq> 0) \<or> 2 ^ 32 \<le> i then Inl Undefined_Conversion else Inr (of_int i))"
| "to_u32 x = Inl Undefined_Conversion"

text \<open>The literal \<open>n / d\<close> of a format.\<close>

definition flit :: "fmt \<Rightarrow> rat \<Rightarrow> flt" where
  "flit F r = fround F (r < 0) \<bar>r\<bar>"

type_synonym f32 = flt
type_synonym f64 = flt

abbreviation f32_zero :: f32 where
  "f32_zero \<equiv> FFin False 0"

section \<open>Rounding facts\<close>

lemma round_half_even_of_int [simp]: "round_half_even (of_int k) = k"
  by (simp add: round_half_even_def)

lemma round_half_even_error: "\<bar>of_int (round_half_even r) - r\<bar> \<le> 1/2"
proof -
  have "of_int \<lfloor>r\<rfloor> \<le> r \<and> r < of_int \<lfloor>r\<rfloor> + 1" using floor_correct [of r] by simp
  then show ?thesis by (simp add: round_half_even_def Let_def abs_le_iff)
qed

lemma ulp_pos [simp]: "0 < ulp F m"
  by (simp add: ulp_def)

lemma ulp_nonzero [simp]: "ulp F m \<noteq> 0"
  using ulp_pos [of F m] by linarith

text \<open>A magnitude of the format: a multiple of its unit in the last place, below the overflow bound.\<close>

definition representable :: "fmt \<Rightarrow> rat \<Rightarrow> bool" where
  "representable F m \<longleftrightarrow> 0 \<le> m \<and> (m = 0 \<or> of_int \<lfloor>m / ulp F m\<rfloor> = m / ulp F m \<and> m < 2 powi (emax F + 1))"

fun in_format :: "fmt \<Rightarrow> flt \<Rightarrow> bool" where
  "in_format F (FFin s m) = representable F m"
| "in_format F x = True"

lemma fround_representable [flt_simps]: "representable F m \<Longrightarrow> fround F s m = FFin s m"
proof -
  assume r: "representable F m"
  show ?thesis
  proof (cases "m = 0")
    case True
    then show ?thesis by (simp add: fround_def)
  next
    case False
    with r have "m / ulp F m = of_int \<lfloor>m / ulp F m\<rfloor>" "m < 2 powi (emax F + 1)"
      by (auto simp: representable_def)
    then have "of_int (round_half_even (m / ulp F m)) * ulp F m = m"
      by (metis nonzero_eq_divide_eq round_half_even_of_int ulp_nonzero)
    with False \<open>m < _\<close> show ?thesis by (simp add: fround_def)
  qed
qed

text \<open>Multiplying by one, the default gain, changes nothing.\<close>

lemma fmul_one:
  assumes "in_format F x"
  shows "fmul F x (FFin False 1) = x"
  using assms by (cases x) (simp_all add: fround_representable)

lemma fmul_zero_fin: "fmul F (FFin s a) (FFin t 0) = FFin (s \<noteq> t) 0"
  by (simp add: fround_def)

section \<open>Rounding keeps the magnitude\<close>

lemma powi_two_pos: "0 < (2::rat) powi k"
  by simp

lemma powi_two_le: "j \<le> k \<Longrightarrow> (2::rat) powi j \<le> 2 powi k"
  by (rule power_int_increasing) simp_all

lemma bitlen_powi:
  assumes "0 < (a::int)"
  shows "(2::rat) powi (bitlen a - 1) \<le> of_int a" "of_int a < (2::rat) powi (bitlen a)"
proof -
  have b: "2 ^ nat (bitlen a - 1) \<le> a \<and> a < 2 ^ nat (bitlen a)" using bitlen_bounds [OF assms] .
  have n: "0 \<le> bitlen a - 1" proof -
    have "bitlen a \<noteq> 0" using assms by (simp add: bitlen_eq_zero_iff)
    with bitlen_nonneg [of a] show ?thesis by linarith
  qed
  have "(2::rat) powi (bitlen a - 1) = of_int (2 ^ nat (bitlen a - 1))" using n by (simp add: power_int_def)
  with b show "(2::rat) powi (bitlen a - 1) \<le> of_int a" by (simp only: of_int_le_iff)
  have "(2::rat) powi (bitlen a) = of_int (2 ^ nat (bitlen a))" using n by (simp add: power_int_def)
  with b show "of_int a < (2::rat) powi (bitlen a)" by (simp only: of_int_less_iff)
qed

lemma ilog2_bounds:
  assumes "0 < m"
  shows "2 powi (ilog2 m) \<le> m" "m < 2 powi (ilog2 m + 1)"
proof -
  obtain a b where q: "quotient_of m = (a, b)" by fastforce
  have m: "m = of_int a / of_int b" and b: "0 < b" using quotient_of_div [OF q] quotient_of_denom_pos [OF q] by auto
  have a: "0 < a" using assms b by (simp add: m zero_less_divide_iff)
  let ?e = "bitlen a - bitlen b"
  have A: "(2::rat) powi (bitlen a - 1) \<le> of_int a" "of_int a < (2::rat) powi (bitlen a)" using bitlen_powi [OF a] .
  have B: "(2::rat) powi (bitlen b - 1) \<le> of_int b" "of_int b < (2::rat) powi (bitlen b)" using bitlen_powi [OF b] .
  have pb: "(0::rat) < of_int b" using b by simp
  have "m < 2 powi (bitlen a) / 2 powi (bitlen b - 1)"
    unfolding m using A(2) B(1) a by (intro frac_less) simp_all
  also have "\<dots> = 2 powi (?e + 1)" by (simp flip: power_int_diff add: algebra_simps)
  finally have up: "m < 2 powi (?e + 1)" .
  have "2 powi (bitlen a - 1) / 2 powi (bitlen b) \<le> m"
    unfolding m using A(1) B(2) pb a by (intro frac_le) simp_all
  moreover have "2 powi (bitlen a - 1) / 2 powi (bitlen b) = (2::rat) powi (?e - 1)"
    by (simp flip: power_int_diff add: algebra_simps)
  ultimately have lo: "2 powi (?e - 1) \<le> m" by simp
  show "2 powi (ilog2 m) \<le> m" "m < 2 powi (ilog2 m + 1)"
    using up lo by (auto simp: ilog2_def q Let_def)
qed

lemma fround_near:
  assumes "2 powi (emin F) \<le> m" "1 < precision F" "2 * m < 2 powi (emax F + 1)"
  shows "\<exists>v. fround F s m = FFin s v \<and> m / 2 \<le> v \<and> v \<le> 3 * m / 2"
proof -
  have m: "0 < m" using assms(1) powi_two_pos [of "emin F"] by linarith
  have "emin F \<le> ilog2 m"
  proof (rule ccontr)
    assume "\<not> emin F \<le> ilog2 m"
    then have "(2::rat) powi (ilog2 m + 1) \<le> 2 powi (emin F)" by (intro powi_two_le) simp
    with ilog2_bounds(2) [OF m] assms(1) show False by linarith
  qed
  then have u: "ulp F m = 2 powi (ilog2 m - (precision F - 1))" by (simp add: ulp_def)
  have "(2::rat) powi (ilog2 m - (precision F - 1)) \<le> 2 powi (ilog2 m)"
    using assms(2) by (intro powi_two_le) simp
  then have um: "ulp F m \<le> m" using ilog2_bounds(1) [OF m] u by simp
  let ?r = "of_int (round_half_even (m / ulp F m)) :: rat"
  have "\<bar>?r - m / ulp F m\<bar> \<le> 1/2" by (rule round_half_even_error)
  then have "\<bar>?r - m / ulp F m\<bar> * ulp F m \<le> 1/2 * ulp F m" by (rule mult_right_mono [OF _ less_imp_le [OF ulp_pos]])
  moreover have "\<bar>?r - m / ulp F m\<bar> * ulp F m = \<bar>?r * ulp F m - m\<bar>"
  proof -
    have "(?r - m / ulp F m) * ulp F m = ?r * ulp F m - m" by (simp add: left_diff_distrib)
    moreover have "\<bar>(?r - m / ulp F m) * ulp F m\<bar> = \<bar>?r - m / ulp F m\<bar> * ulp F m"
      by (simp only: abs_mult abs_of_pos [OF ulp_pos])
    ultimately show ?thesis by metis
  qed
  ultimately have "\<bar>?r * ulp F m - m\<bar> \<le> m / 2" using um by linarith
  from abs_le_D1 [OF this] abs_le_D2 [OF this]
  have v: "m / 2 \<le> ?r * ulp F m" "?r * ulp F m \<le> 3 * m / 2" by linarith+
  then have "\<not> 2 powi (emax F + 1) \<le> ?r * ulp F m" using assms(3) m by linarith
  with v m show ?thesis by (intro exI [of _ "?r * ulp F m"]) (simp add: fround_def)
qed

lemma fround_zero: "fround F s 0 = FFin s 0"
  by (simp add: fround_def)

text \<open>Integers and quotients far inside the range of \<open>float\<close>.\<close>

lemma fround32_near:
  assumes "1 \<le> 2 ^ 60 * m" "m < 2 ^ 100"
  shows "\<exists>v. fround binary32 s m = FFin s v \<and> m / 2 \<le> v \<and> v \<le> 3 * m / 2"
proof (rule fround_near)
  have "(2::rat) powi (-126) \<le> 2 powi (- 60)" by (rule powi_two_le) simp
  also have "(2::rat) powi (- 60) = 1 / 2 ^ 60" by (simp add: power_int_def power_one_over)
  also have "\<dots> \<le> m" using assms(1) by (simp add: field_simps)
  finally show "2 powi (emin binary32) \<le> m" by (simp add: binary32_def)
  show "2 * m < 2 powi (emax binary32 + 1)" using assms(2) by (simp add: binary32_def power_int_def)
qed (simp add: binary32_def)

lemma load_defined:
  assumes "1 \<le> frames" "frames \<le> 2 ^ 32" "0 \<le> us" "us \<le> 2 ^ 20"
  shows "\<exists>l. to_u32 (fdiv binary32 (fmul binary32 (of_integer binary32 us) (FFin False 100))
    (fdiv binary32 (fmul binary32 (of_integer binary32 frames) (FFin False 1000000)) (FFin False 48000))) = Inr l"
proof -
  let ?f = "of_int frames :: rat" and ?u = "of_int us :: rat"
  have f: "1 \<le> ?f" "?f \<le> 2 ^ 32" using assms(1,2) by (metis of_int_1_le_iff, metis of_int_le_iff of_int_numeral of_int_power)
  have u: "0 \<le> ?u" "?u \<le> 2 ^ 20" using assms(3,4) by (simp, metis of_int_le_iff of_int_numeral of_int_power)
  obtain v1 where v1: "fround binary32 False ?f = FFin False v1" "?f / 2 \<le> v1" "v1 \<le> 3 * ?f / 2"
    using fround32_near [of ?f False] f by auto
  obtain v2 where v2: "fround binary32 False (v1 * 1000000) = FFin False v2"
      "v1 * 1000000 / 2 \<le> v2" "v2 \<le> 3 * (v1 * 1000000) / 2"
    using fround32_near [of "v1 * 1000000" False] v1 f by auto
  obtain v3 where v3: "fround binary32 False (v2 / 48000) = FFin False v3" "v2 / 48000 / 2 \<le> v3" "v3 \<le> 3 * (v2 / 48000) / 2"
    using fround32_near [of "v2 / 48000" False] v1 v2 f by auto
  have d: "fdiv binary32 (fmul binary32 (of_integer binary32 frames) (FFin False 1000000)) (FFin False 48000) = FFin False v3"
    using v1(1) v2(1) v3(1) assms(1) by (simp add: of_integer_def)
  have v3b: "2 \<le> v3" using v1 v2 v3 f by linarith
  show ?thesis
  proof (cases "us = 0")
    case True
    then show ?thesis unfolding d using v3b by (simp add: of_integer_def fround_zero)
  next
    case False
    with assms(3) have u1: "1 \<le> ?u" by (metis of_int_1_le_iff int_one_le_iff_zero_less less_le)
    obtain w1 where w1: "fround binary32 False ?u = FFin False w1" "?u / 2 \<le> w1" "w1 \<le> 3 * ?u / 2"
      using fround32_near [of ?u False] u u1 by auto
    obtain w2 where w2: "fround binary32 False (w1 * 100) = FFin False w2" "w1 * 100 / 2 \<le> w2" "w2 \<le> 3 * (w1 * 100) / 2"
      using fround32_near [of "w1 * 100" False] w1 u u1 by auto
    have q: "w2 / v3 \<le> 2 ^ 29" "0 \<le> w2 / v3"
    proof -
      have "w2 \<le> 2 ^ 29" using w2 w1 u by simp
      moreover have "0 \<le> w2" using w2 w1 u by simp
      ultimately have "w2 / v3 \<le> w2 / 1" using v3b by (intro divide_left_mono) simp_all
      with \<open>w2 \<le> 2 ^ 29\<close> show "w2 / v3 \<le> 2 ^ 29" by simp
      show "0 \<le> w2 / v3" using \<open>0 \<le> w2\<close> v3b by simp
    qed
    have v3u: "v3 \<le> 2 ^ 50" using v1 v2 v3 f by simp
    have w2l: "25 \<le> w2" using w2 w1 u1 by simp
    have "1 \<le> 2 ^ 60 * (w2 / v3)"
    proof -
      have "v3 \<le> 2 ^ 60 * w2" using v3u w2l by simp
      then show ?thesis using v3b by (simp add: field_simps)
    qed
    then obtain r where r: "fround binary32 False (w2 / v3) = FFin False r" "r \<le> 3 * (w2 / v3) / 2" "w2 / v3 / 2 \<le> r"
      using fround32_near [of "w2 / v3" False] q by auto
    have "r < 2 ^ 32" using r(2) q by simp
    then have "\<lfloor>r\<rfloor> < 2 ^ 32" by (simp add: floor_less_iff)
    then show ?thesis unfolding d using w1 w2 r u1 v3b assms(3) by (simp add: of_integer_def Let_def)
  qed
qed

end
