(* ===== verification/Shm.thy ===== *)
theory Shm
  imports Ring Layout Float_Arith
begin

text \<open>
  The shared memory of \<open>daemon/ipc/include/ipc_shm.hpp\<close> that the plugin side and one worker
  process map: the worker control blocks, the two audio queues, the control, memory and log
  buses and the staging area. A structure is a record without its padding members, an
  enumeration a datatype; an array of a fixed length is a list of that length, which the
  invariant \<open>shm_wf\<close> states.
\<close>

section \<open>Structures\<close>

definition MAX_FRAMES :: nat where
  "MAX_FRAMES = 256"

definition MAX_CHANNELS :: nat where
  "MAX_CHANNELS = 8"

definition MAX_SAMPLES :: nat where
  "MAX_SAMPLES = 256 * 8"

lemma max_samples: "MAX_SAMPLES = MAX_CHANNELS * MAX_FRAMES"
  by (simp add: MAX_SAMPLES_def MAX_CHANNELS_def MAX_FRAMES_def)

record dsp_audio_frame =
  instance_id :: u32
  frame_count :: u32
  channel_count :: u32
  reserved_align :: u32
  timestamp_ns :: u64
  samples :: "f32 list"

datatype worker_error = NO_ERROR | DEVICE_LOST | OUT_OF_MEMORY | PERMISSION_DENIED | INTERNAL_ERROR

record worker_control_block =
  heartbeat :: u64
  last_error :: worker_error
  is_ready :: bool
  should_restart :: bool
  bypass_zero_copy :: bool
  load_pct :: u32

text \<open>The member \<open>value\<close> of a control event is \<open>evt_value\<close> here, \<open>type\<close> and \<open>size\<close> of a request are
  \<open>req_type\<close> and \<open>req_size\<close>.\<close>

record dsp_control_event =
  parameter_id :: u32
  evt_value :: f32

datatype dsp_memory_request_type = ALLOCATE | FREE | UPLOAD

record dsp_memory_request =
  request_id :: u32
  req_type :: dsp_memory_request_type
  req_size :: u64
  req_handle :: u32
  shm_offset :: u64

record dsp_memory_response =
  resp_request_id :: u32
  resp_handle :: u32
  success :: bool

record dsp_log_entry =
  level :: u32
  tag :: "char list"
  msg :: "char list"

definition TAG_SIZE :: nat where
  "TAG_SIZE = 16"

definition MSG_SIZE :: nat where
  "MSG_SIZE = 128"

record dsp_shared_memory =
  workers :: "worker_control_block list"
  in_queue :: "dsp_audio_frame ring"
  out_queue :: "dsp_audio_frame ring"
  control_bus :: "dsp_control_event ring"
  memory_request_bus :: "dsp_memory_request ring"
  memory_response_bus :: "dsp_memory_response ring"
  log_bus :: "dsp_log_entry ring"
  data_staging :: "u8 list"
  prefer_block_parallel :: bool

section \<open>Initial contents\<close>

text \<open>A fresh memfd is filled with zero bytes, which is the zero of every structure.\<close>

definition frame_zero :: dsp_audio_frame where
  "frame_zero = \<lparr>instance_id = 0, frame_count = 0, channel_count = 0, reserved_align = 0, timestamp_ns = 0,
     samples = replicate MAX_SAMPLES f32_zero\<rparr>"

definition wcb_zero :: worker_control_block where
  "wcb_zero = \<lparr>heartbeat = 0, last_error = NO_ERROR, is_ready = False, should_restart = False,
     bypass_zero_copy = False, load_pct = 0\<rparr>"

definition request_zero :: dsp_memory_request where
  "request_zero = \<lparr>request_id = 0, req_type = ALLOCATE, req_size = 0, req_handle = 0, shm_offset = 0\<rparr>"

definition response_zero :: dsp_memory_response where
  "response_zero = \<lparr>resp_request_id = 0, resp_handle = 0, success = False\<rparr>"

definition log_entry_zero :: dsp_log_entry where
  "log_entry_zero = \<lparr>level = 0, tag = replicate TAG_SIZE (CHR 0x00), msg = replicate MSG_SIZE (CHR 0x00)\<rparr>"

definition shm_zero :: dsp_shared_memory where
  "shm_zero = \<lparr>workers = replicate 8 wcb_zero,
     in_queue = new_ring IPC_QUEUE_DEPTH frame_zero,
     out_queue = new_ring IPC_QUEUE_DEPTH frame_zero,
     control_bus = new_ring 64 \<lparr>parameter_id = 0, evt_value = f32_zero\<rparr>,
     memory_request_bus = new_ring 32 request_zero,
     memory_response_bus = new_ring 32 response_zero,
     log_bus = new_ring 32 log_entry_zero,
     data_staging = replicate STAGING_SIZE 0,
     prefer_block_parallel = False\<rparr>"

section \<open>Well-formed shared memory\<close>

definition frame_wf :: "dsp_audio_frame \<Rightarrow> bool" where
  "frame_wf f \<longleftrightarrow> length (samples f) = MAX_SAMPLES"

text \<open>The counts of a frame are within its sample array.\<close>

definition frame_bounded :: "dsp_audio_frame \<Rightarrow> bool" where
  "frame_bounded f \<longleftrightarrow> frame_wf f \<and> unat (frame_count f) \<le> MAX_FRAMES \<and> unat (channel_count f) \<le> MAX_CHANNELS"

definition log_entry_wf :: "dsp_log_entry \<Rightarrow> bool" where
  "log_entry_wf e \<longleftrightarrow> length (tag e) = TAG_SIZE \<and> length (msg e) = MSG_SIZE"

text \<open>A ring of \<open>n\<close> slots whose every slot, in use or not, satisfies \<open>P\<close>.\<close>

definition ring_of :: "('a \<Rightarrow> bool) \<Rightarrow> nat \<Rightarrow> 'a ring \<Rightarrow> bool" where
  "ring_of P n q \<longleftrightarrow> ring_wf q \<and> length (rb_data q) = n \<and> list_all P (rb_data q)"

definition shm_wf :: "dsp_shared_memory \<Rightarrow> bool" where
  "shm_wf m \<longleftrightarrow> length (workers m) = 8
     \<and> ring_of frame_wf IPC_QUEUE_DEPTH (in_queue m) \<and> ring_of frame_wf IPC_QUEUE_DEPTH (out_queue m)
     \<and> ring_of (\<lambda>e. True) 64 (control_bus m) \<and> ring_of (\<lambda>r. True) 32 (memory_request_bus m)
     \<and> ring_of (\<lambda>r. True) 32 (memory_response_bus m) \<and> ring_of log_entry_wf 32 (log_bus m)
     \<and> length (data_staging m) = STAGING_SIZE"

text \<open>Every queued audio frame is within its array: what keeps the copies of both sides in bounds.\<close>

definition queue_bounded :: "dsp_audio_frame ring \<Rightarrow> bool" where
  "queue_bounded q \<longleftrightarrow> list_all frame_bounded (items q)"

lemma frame_zero_wf [simp]: "frame_wf frame_zero"
  by (simp add: frame_wf_def frame_zero_def)

lemma ring_of_new: "0 < n \<Longrightarrow> n < 2 ^ 64 \<Longrightarrow> P x \<Longrightarrow> ring_of P n (new_ring n x)"
  by (simp add: ring_of_def new_ring_def ring_wf_def list_all_iff)

lemma shm_zero_wf [simp]: "shm_wf shm_zero"
  by (simp add: shm_wf_def shm_zero_def ring_of_new IPC_QUEUE_DEPTH_def log_entry_wf_def log_entry_zero_def)

lemma shm_zero_queues [simp]:
  "items (in_queue shm_zero) = []" "items (out_queue shm_zero) = []" "items (control_bus shm_zero) = []"
  "items (memory_request_bus shm_zero) = []" "items (memory_response_bus shm_zero) = []"
  "items (log_bus shm_zero) = []" "workers shm_zero = replicate 8 wcb_zero"
  by (simp_all add: shm_zero_def)

section \<open>Rings of a fixed size and the operations\<close>

lemma ring_ofD: "ring_of P n q \<Longrightarrow> ring_wf q" "ring_of P n q \<Longrightarrow> length (rb_data q) = n"
  "ring_of P n q \<Longrightarrow> ring_room q = n - 1"
  by (simp_all add: ring_of_def ring_room_def)

lemma ring_of_items:
  assumes "ring_of P n q" "x \<in> set (items q)"
  shows "P x"
proof -
  have "0 < length (rb_data q)" using assms(1) by (simp add: ring_of_def ring_wf_def)
  then have "set (items q) \<subseteq> set (rb_data q)" by (auto simp: items_def)
  with assms show ?thesis by (auto simp: ring_of_def list_all_iff)
qed

lemma ring_of_store [inv_intros]: "ring_of P n q \<Longrightarrow> P x \<Longrightarrow> ring_of P n (store_slot q i x)"
  using set_update_subset_insert [of "rb_data q" i x]
  by (auto simp: ring_of_def ring_wf_def store_slot_def list_all_iff)

lemma ring_of_commit_write [inv_intros]:
  "ring_of P n q \<Longrightarrow> ring_of P n (commit_write q)"
  using unat_next [of q "rb_tail q"] by (auto simp: ring_of_def ring_wf_def commit_write_def Let_def)

lemma ring_of_commit_read [inv_intros]: "ring_of P n q \<Longrightarrow> ring_of P n (commit_read q)"
  using unat_next [of q "rb_head q"] by (auto simp: ring_of_def ring_wf_def commit_read_def Let_def)

lemma ring_of_push [inv_intros]: "ring_of P n q \<Longrightarrow> P x \<Longrightarrow> push q x = (ok, q') \<Longrightarrow> ring_of P n q'"
  by (auto simp: push_via_reserve split: option.splits intro: ring_of_commit_write ring_of_store)

lemma ring_of_pop [inv_intros]: "ring_of P n q \<Longrightarrow> pop q = (r, q') \<Longrightarrow> ring_of P n q'"
  by (auto simp: pop_via_peek split: option.splits intro: ring_of_commit_read)

lemma ring_of_slot: "ring_of P n q \<Longrightarrow> i < n \<Longrightarrow> P (slot_at q i)"
  by (auto simp: ring_of_def list_all_iff slot_at_def)

lemma reserve_write_lt: "ring_of P n q \<Longrightarrow> reserve_write q = Some i \<Longrightarrow> i < n"
  by (auto simp: reserve_write_def ring_of_def ring_wf_def Let_def split: if_splits)

lemma peek_read_lt: "ring_of P n q \<Longrightarrow> peek_read q = Some i \<Longrightarrow> i < n"
  by (auto simp: peek_read_def ring_of_def ring_wf_def Let_def split: if_splits)

section \<open>The control block of a worker\<close>

text \<open>Access to a worker's control block, whose index comes from the command line or the daemon unchecked.\<close>

definition control_block :: "dsp_shared_memory \<Rightarrow> int \<Rightarrow> worker_control_block outcome" where
  "control_block m i = (if 0 \<le> i \<and> i < int (length (workers m)) then Inr (workers m ! nat i) else Inl Out_Of_Bounds)"

definition update_control_block :: "(worker_control_block \<Rightarrow> worker_control_block) \<Rightarrow> int \<Rightarrow> dsp_shared_memory
    \<Rightarrow> dsp_shared_memory outcome" where
  "update_control_block f i m =
     (case control_block m i of
        Inl e \<Rightarrow> Inl e
      | Inr b \<Rightarrow> Inr (m\<lparr>workers := (workers m)[nat i := f b]\<rparr>))"

lemma control_block_ok: "control_block m i = Inr b \<longleftrightarrow> 0 \<le> i \<and> i < int (length (workers m)) \<and> b = workers m ! nat i"
  by (auto simp: control_block_def)

lemma update_control_block_ok:
  "0 \<le> i \<Longrightarrow> i < int (length (workers m)) \<Longrightarrow>
     update_control_block f i m = Inr (m\<lparr>workers := (workers m)[nat i := f (workers m ! nat i)]\<rparr>)"
  by (simp add: update_control_block_def control_block_def)

section \<open>Strings\<close>

text \<open>
  \<open>strncpy(dst, src, n)\<close>: the characters of \<open>src\<close> before its terminator, at most \<open>n\<close>, then zero
  bytes up to \<open>n\<close>; the rest of \<open>dst\<close> stays. A C string is the characters before the first zero
  byte of an array, or all of a literal.
\<close>

definition c_str :: "char list \<Rightarrow> string" where
  "c_str a = takeWhile (\<lambda>c. c \<noteq> CHR 0x00) a"

definition strncpy :: "char list \<Rightarrow> char list \<Rightarrow> nat \<Rightarrow> char list" where
  "strncpy dst src n =
     (let s = take n (c_str src) in s @ replicate (n - length s) (CHR 0x00) @ drop n dst)"

lemma strncpy_length: "n \<le> length dst \<Longrightarrow> length (strncpy dst src n) = length dst"
  by (simp add: strncpy_def Let_def)

lemma c_str_no_nul: "CHR 0x00 \<notin> set (c_str a)"
  unfolding c_str_def by (auto dest: set_takeWhileD)

lemma c_str_id: "CHR 0x00 \<notin> set s \<Longrightarrow> c_str s = s"
  by (auto simp: c_str_def takeWhile_eq_all_conv)

lemma c_str_append_nul: "CHR 0x00 \<notin> set s \<Longrightarrow> c_str (s @ CHR 0x00 # r) = s"
  by (simp add: c_str_def takeWhile_append takeWhile_eq_all_conv)

lemma c_str_strncpy:
  assumes "n < length dst" "dst ! n = CHR 0x00"
  shows "c_str (strncpy dst src n) = take n (c_str src)"
proof -
  let ?s = "take n (c_str src)"
  have nz: "CHR 0x00 \<notin> set ?s" using c_str_no_nul [of src] by (auto dest: in_set_takeD)
  have "drop n dst = CHR 0x00 # drop (Suc n) dst" using assms by (simp flip: Cons_nth_drop_Suc)
  moreover have "\<exists>r. replicate k (CHR 0x00) @ CHR 0x00 # t = CHR 0x00 # r" for k and t :: string
    by (cases k) auto
  ultimately have "\<exists>r. replicate (n - length ?s) (CHR 0x00) @ drop n dst = CHR 0x00 # r"
    by metis
  then obtain r where "strncpy dst src n = ?s @ CHR 0x00 # r" by (auto simp: strncpy_def Let_def)
  with nz show ?thesis by (simp add: c_str_append_nul)
qed

section \<open>The channels of a frame\<close>

text \<open>The number of samples of a bounded frame does not wrap and fits the array.\<close>

lemma bounded_product:
  fixes fc cc :: u32
  assumes "unat fc \<le> MAX_FRAMES" "unat cc \<le> MAX_CHANNELS"
  shows "unat (fc * cc) = unat fc * unat cc" "unat fc * unat cc \<le> MAX_SAMPLES"
proof -
  have "unat fc * unat cc \<le> MAX_FRAMES * MAX_CHANNELS" using assms by (rule mult_le_mono)
  then show le: "unat fc * unat cc \<le> MAX_SAMPLES" by (simp add: max_samples mult.commute)
  have "MAX_SAMPLES < 4294967296" by (simp add: MAX_SAMPLES_def)
  with le have "unat fc * unat cc < 4294967296" by linarith
  then show "unat (fc * cc) = unat fc * unat cc" by (simp add: unat_word_ariths(2))
qed

text \<open>The first \<open>n\<close> samples of channel \<open>ch\<close>: each channel has a stride of 256 samples.\<close>

definition channel_block :: "f32 list \<Rightarrow> nat \<Rightarrow> nat \<Rightarrow> f32 list" where
  "channel_block xs ch n = take n (drop (ch * MAX_FRAMES) xs)"

lemma channel_fits:
  assumes "ch < MAX_CHANNELS" "n \<le> MAX_FRAMES"
  shows "ch * MAX_FRAMES + n \<le> MAX_SAMPLES"
proof -
  have "(ch + 1) * MAX_FRAMES \<le> MAX_CHANNELS * MAX_FRAMES" using assms(1) by (intro mult_le_mono1) simp
  with assms(2) show ?thesis by (simp add: max_samples)
qed

lemma channel_offset_u32:
  "ch < MAX_CHANNELS \<Longrightarrow> unat ((of_nat ch :: u32) * 256) = ch * MAX_FRAMES"
  by (simp add: MAX_CHANNELS_def MAX_FRAMES_def unat_word_ariths(2) unat_of_nat take_bit_nat_eq_self)

text \<open>Writing one channel of a frame leaves the other channels alone.\<close>

lemma channel_write_other:
  assumes d: "memcpy_at dst (ch * MAX_FRAMES) src n = Inr d" and n: "n \<le> MAX_FRAMES"
    and len: "length dst = MAX_SAMPLES" and c: "c < MAX_CHANNELS" "c \<noteq> ch"
  shows "channel_block d c n = channel_block dst c n"
proof (intro nth_equalityI)
  have l: "length d = length dst" using d by (rule memcpy_at_length)
  then show "length (channel_block d c n) = length (channel_block dst c n)"
    by (simp add: channel_block_def)
  fix i assume "i < length (channel_block d c n)"
  then have i: "i < n" "c * MAX_FRAMES + i < length dst" using l by (auto simp: channel_block_def)
  have "\<not> (ch * MAX_FRAMES \<le> c * MAX_FRAMES + i \<and> c * MAX_FRAMES + i < ch * MAX_FRAMES + n)"
  proof (cases "c < ch")
    case True
    then have "(c + 1) * MAX_FRAMES \<le> ch * MAX_FRAMES" by (intro mult_le_mono1) simp
    with i n show ?thesis by simp
  next
    case False
    with c have "(ch + 1) * MAX_FRAMES \<le> c * MAX_FRAMES" by (intro mult_le_mono1) simp
    with i n show ?thesis by simp
  qed
  then show "channel_block d c n ! i = channel_block dst c n ! i"
    using i l memcpy_at_nth [OF d i(2)] by (auto simp: channel_block_def)
qed

lemma channel_write_same:
  assumes d: "memcpy_at dst (ch * MAX_FRAMES) src n = Inr d"
  shows "channel_block d ch n = take n src"
  using d by (auto simp: memcpy_at_def channel_block_def split: if_splits)

text \<open>
  \<open>for (ch = 0; ch < cc; ch++) memcpy(&dst[ch * 256], src(ch), n * sizeof(float))\<close>, the copy both
  sides use to fill the sample array; the index is computed in \<open>uint32_t\<close>.
\<close>

definition put_channels :: "(nat \<Rightarrow> f32 list) \<Rightarrow> nat \<Rightarrow> nat \<Rightarrow> f32 list \<Rightarrow> f32 list outcome" where
  "put_channels src n cc dst =
     for_each (\<lambda>ch d. memcpy_at d (unat ((of_nat ch :: u32) * 256)) (src ch) n) [0..<cc] dst"

lemma put_channels_ok:
  assumes "length dst = MAX_SAMPLES" "n \<le> MAX_FRAMES" "cc \<le> MAX_CHANNELS"
    and "\<And>ch. ch < cc \<Longrightarrow> n \<le> length (src ch)"
  shows "\<exists>d. put_channels src n cc dst = Inr d \<and> length d = MAX_SAMPLES \<and>
    (\<forall>c < cc. channel_block d c n = take n (src c))"
proof -
  define P where "P k d \<longleftrightarrow> length d = MAX_SAMPLES \<and> (\<forall>c < k. channel_block d c n = take n (src c))" for k and d :: "f32 list"
  have "\<exists>d. put_channels src n cc dst = Inr d \<and> P cc d"
    unfolding put_channels_def
  proof (rule for_each_upt)
    show "P 0 dst" using assms(1) by (simp add: P_def)
    fix i t assume i: "i < cc" and p: "P i t"
    have c: "i < MAX_CHANNELS" using i assms(3) by simp
    have off: "unat ((of_nat i :: u32) * 256) = i * MAX_FRAMES" using channel_offset_u32 [OF c] .
    have t: "length t = MAX_SAMPLES" using p by (simp add: P_def)
    have "i * MAX_FRAMES + n \<le> length t" using channel_fits [OF c assms(2)] t by simp
    from memcpy_at_ok [OF this assms(4) [OF i]] obtain d where d: "memcpy_at t (i * MAX_FRAMES) (src i) n = Inr d" by blast
    have "channel_block d k n = take n (src k)" if "k < Suc i" for k
    proof (cases "k = i")
      case False
      with that have "k < i" by simp
      with p channel_write_other [OF d assms(2) t, of k] c show ?thesis by (simp add: P_def)
    qed (use channel_write_same [OF d] in simp)
    then have "P (Suc i) d" using memcpy_at_length [OF d] t by (simp add: P_def)
    with d off show "\<exists>t'. memcpy_at t (unat ((of_nat i :: u32) * 256)) (src i) n = Inr t' \<and> P (Suc i) t'" by auto
  qed
  then show ?thesis by (auto simp: P_def)
qed

end
