(* ===== verification/Vulkan_Driver.thy ===== *)
theory Vulkan_Driver
  imports Shm
begin

text \<open>
  The interface \<open>daemon/vulkan/vulkan_compute.h\<close> between the worker's back end and a Vulkan driver:
  the functions of the header as a record of operations over the driver's context type, and what
  the back end relies on as the locale \<open>vulkan_driver\<close>. A context pointer that may be null is an
  \<open>option\<close>; an operation that writes through the context returns the pointer with its new target.
  Theories \<open>Vulkan_Compute\<close> and \<open>Vulkan_Mock\<close> interpret the locale.
\<close>

text \<open>The parameters both dispatch functions pass on: gain, threshold, p1, p2, algo.\<close>

record dsp_params =
  gain :: f32
  threshold :: f32
  param1 :: f32
  param2 :: f32
  algo_id :: u32

record 'c vk_driver =
  drv_init :: "int \<Rightarrow> 'c option"
  drv_dispatch :: "'c option \<Rightarrow> f32 list \<Rightarrow> u32 \<Rightarrow> u32 \<Rightarrow> dsp_params \<Rightarrow> u32 \<Rightarrow> (bool \<times> f32 list \<times> 'c option) outcome"
  drv_dispatch_zero_copy :: "'c option \<Rightarrow> u32 \<Rightarrow> u32 \<Rightarrow> u32 \<Rightarrow> u32 \<Rightarrow> dsp_params \<Rightarrow> u32 \<Rightarrow> (bool \<times> 'c option) outcome"
  drv_allocate :: "'c option \<Rightarrow> u64 \<Rightarrow> u32 \<times> 'c option"
  drv_upload :: "'c option \<Rightarrow> u32 \<Rightarrow> u8 list \<Rightarrow> u64 \<Rightarrow> (bool \<times> 'c option) outcome"
  drv_free :: "'c option \<Rightarrow> u32 \<Rightarrow> 'c option"
  drv_import :: "'c option \<Rightarrow> int \<Rightarrow> u64 \<Rightarrow> u32 \<times> 'c option"

text \<open>
  The contract: a dispatch of a frame within its array returns, keeps the length of the sample
  array and the context; handles are below 256, and dispatching with such handles returns.
  \<open>reaches\<close> tells that one context may follow another; an operation only moves along it.
\<close>

locale vulkan_driver =
  fixes drv :: "'c vk_driver"
    and ctx_ok :: "'c \<Rightarrow> bool"
  assumes init_ok: "drv_init drv i = Some c \<Longrightarrow> ctx_ok c"
    and dispatch_ok: "ctx_ok c \<Longrightarrow> length xs = MAX_SAMPLES \<Longrightarrow> unat fc \<le> MAX_FRAMES \<Longrightarrow> unat cc \<le> MAX_CHANNELS \<Longrightarrow>
      \<exists>ok ys c'. drv_dispatch drv (Some c) xs fc cc p h = Inr (ok, ys, Some c') \<and> length ys = MAX_SAMPLES \<and> ctx_ok c'"
    and zero_copy_ok: "ctx_ok c \<Longrightarrow> unat h < 256 \<Longrightarrow> unat sh < 256 \<Longrightarrow>
      \<exists>ok c'. drv_dispatch_zero_copy drv (Some c) h off fc cc p sh = Inr (ok, Some c') \<and> ctx_ok c'"
    and allocate_ok: "ctx_ok c \<Longrightarrow> \<exists>h c'. drv_allocate drv (Some c) n = (h, Some c') \<and> unat h < 256 \<and> ctx_ok c'"
    and upload_ok: "ctx_ok c \<Longrightarrow> drv_upload drv (Some c) h data n = Inr (ok, ctx') \<Longrightarrow> \<exists>c'. ctx' = Some c' \<and> ctx_ok c'"
    and free_ok: "ctx_ok c \<Longrightarrow> \<exists>c'. drv_free drv (Some c) h = Some c' \<and> ctx_ok c'"
    and import_ok: "ctx_ok c \<Longrightarrow> \<exists>h c'. drv_import drv (Some c) fd n = (h, Some c') \<and> unat h < 256 \<and> ctx_ok c'"

end
