(* ===== verification/Backend.thy ===== *)
theory Backend
  imports Vulkan_Driver
begin

text \<open>
  The back ends of the worker: the interface \<open>IDspNode\<close> of \<open>daemon/compute_backend.hpp\<close> as a record of
  operations over a node's state (its virtual functions), the contract the worker relies on as the
  locale \<open>dsp_node\<close>, and the two implementations, \<open>VulkanBackend\<close> of \<open>daemon/worker.cpp\<close> over any driver
  that satisfies \<open>vulkan_driver\<close> and \<open>NpuArrayBackend\<close> of \<open>daemon/npu_array_backend.hpp\<close>.
\<close>

section \<open>The interface\<close>

datatype DspWorkloadType = DSP_ACCEL_TYPE_MASSIVELY_PARALLEL | DSP_ACCEL_TYPE_ARRAY_PROCESSOR | DSP_ACCEL_TYPE_REMOTE

record dsp_node_descriptor =
  node_name :: string
  node_type :: DspWorkloadType
  vram_capacity_mb :: u64
  supports_zero_copy :: bool
  supports_staging :: bool
  max_buffer_size :: u64

text \<open>
  \<open>process_stage\<close> takes the frame and its address (the zero-copy path computes with it) and
  returns its result, the frame it may have changed, and the node. Reading the bytes behind a data
  pointer is left to the caller, which passes the bytes that follow it.
\<close>

record 'n node_ops =
  node_init :: "int \<Rightarrow> 'n \<Rightarrow> bool \<times> 'n"
  get_descriptor :: "'n \<Rightarrow> dsp_node_descriptor"
  process_stage :: "'n \<Rightarrow> dsp_audio_frame \<Rightarrow> u64 \<Rightarrow> (bool \<times> dsp_audio_frame \<times> 'n) outcome"
  apply_control_event :: "'n \<Rightarrow> u32 \<Rightarrow> f32 \<Rightarrow> 'n outcome"
  allocate_buffer :: "'n \<Rightarrow> u64 \<Rightarrow> u32 \<times> 'n"
  upload_buffer :: "'n \<Rightarrow> u32 \<Rightarrow> u8 list \<Rightarrow> u64 \<Rightarrow> (bool \<times> 'n) outcome"
  free_buffer :: "'n \<Rightarrow> u32 \<Rightarrow> 'n"
  set_shm_ptr :: "'n \<Rightarrow> u64 \<Rightarrow> 'n"
  set_zero_copy_bypass :: "'n \<Rightarrow> bool \<Rightarrow> int \<Rightarrow> u64 \<Rightarrow> 'n"

text \<open>What a stage must leave alone: everything but the samples.\<close>

definition same_block :: "dsp_audio_frame \<Rightarrow> dsp_audio_frame \<Rightarrow> bool" where
  "same_block f g \<longleftrightarrow> g\<lparr>samples := samples f\<rparr> = f \<and> length (samples g) = length (samples f)"

lemma same_block_refl [simp]: "same_block f f"
  by (simp add: same_block_def)

lemma same_block_fields:
  "same_block f g \<Longrightarrow> instance_id g = instance_id f \<and> frame_count g = frame_count f \<and>
     channel_count g = channel_count f \<and> timestamp_ns g = timestamp_ns f \<and> length (samples g) = length (samples f)"
proof -
  assume b: "same_block f g"
  then have "g\<lparr>samples := samples f\<rparr> = f" by (simp add: same_block_def)
  moreover have "instance_id (g\<lparr>samples := samples f\<rparr>) = instance_id g"
    "frame_count (g\<lparr>samples := samples f\<rparr>) = frame_count g"
    "channel_count (g\<lparr>samples := samples f\<rparr>) = channel_count g"
    "timestamp_ns (g\<lparr>samples := samples f\<rparr>) = timestamp_ns g" by simp_all
  ultimately show ?thesis using b by (simp add: same_block_def)
qed

lemma same_block_trans: "same_block f g \<Longrightarrow> same_block g h \<Longrightarrow> same_block f h"
proof -
  assume a: "same_block f g" and b: "same_block g h"
  have "h\<lparr>samples := samples f\<rparr> = (h\<lparr>samples := samples g\<rparr>)\<lparr>samples := samples f\<rparr>" by simp
  also have "\<dots> = f" using a b by (simp add: same_block_def)
  finally show ?thesis using a b by (simp add: same_block_def)
qed

lemma same_block_bounded: "same_block f g \<Longrightarrow> frame_bounded f \<Longrightarrow> frame_bounded g"
  by (auto simp: frame_bounded_def frame_wf_def dest!: same_block_fields)

lemma same_block_samples [simp]: "length xs = length (samples f) \<Longrightarrow> same_block f (f\<lparr>samples := xs\<rparr>)"
  by (simp add: same_block_def)

text \<open>
  The contract of a node: on a frame within its bounds a stage returns and changes samples only;
  the operations keep the node usable; a control event in the node's domain is applied.
\<close>

locale dsp_node =
  fixes ops :: "'n node_ops"
    and node_fresh :: "'n \<Rightarrow> bool"
    and node_ok :: "'n \<Rightarrow> bool"
    and event_ok :: "u32 \<Rightarrow> f32 \<Rightarrow> bool"
  assumes init_ok: "node_fresh n \<Longrightarrow> node_init ops i n = (True, n') \<Longrightarrow> node_ok n'"
    and process_ok: "node_ok n \<Longrightarrow> frame_bounded f \<Longrightarrow>
      \<exists>ok f' n'. process_stage ops n f addr = Inr (ok, f', n') \<and> same_block f f' \<and> node_ok n'"
    and control_ok: "node_ok n \<Longrightarrow> event_ok k v \<Longrightarrow> \<exists>n'. apply_control_event ops n k v = Inr n' \<and> node_ok n'"
    and node_allocate_ok: "node_ok n \<Longrightarrow> node_ok (snd (allocate_buffer ops n sz))"
    and node_upload_ok: "node_ok n \<Longrightarrow> upload_buffer ops n h data sz = Inr (ok, n') \<Longrightarrow> node_ok n'"
    and node_free_ok: "node_ok n \<Longrightarrow> node_ok (free_buffer ops n h)"
    and shm_ptr_ok: "node_ok n \<Longrightarrow> node_ok (set_shm_ptr ops n p)"
    and bypass_ok: "node_ok n \<Longrightarrow> node_ok (set_zero_copy_bypass ops n b fd sz)"

section \<open>The Vulkan back end\<close>

record 'c vulkan_backend =
  vb_params :: dsp_params
  instance_states :: "u32 \<rightharpoonup> u32"
  vk_ctx :: "'c option"
  shm_buffer_handle :: u32
  shm_ptr :: u64

definition default_params :: dsp_params where
  "default_params = \<lparr>gain = flit binary32 1, threshold = flit binary32 (95 / 100), param1 = flit binary32 (1 / 2),
     param2 = flit binary32 (1 / 2), algo_id = 0\<rparr>"

definition new_vulkan_backend :: "'c vulkan_backend" where
  "new_vulkan_backend = \<lparr>vb_params = default_params, instance_states = Map.empty, vk_ctx = None,
     shm_buffer_handle = 0, shm_ptr = 0\<rparr>"

definition vb_init :: "'c vk_driver \<Rightarrow> int \<Rightarrow> 'c vulkan_backend \<Rightarrow> bool \<times> 'c vulkan_backend" where
  "vb_init drv device_index n = (let c = drv_init drv device_index in (c \<noteq> None, n\<lparr>vk_ctx := c\<rparr>))"

text \<open>The state buffer of an instance, allocated when the instance is seen for the first time.\<close>

definition state_buffer :: "'c vk_driver \<Rightarrow> u32 \<Rightarrow> 'c vulkan_backend \<Rightarrow> u32 \<times> 'c vulkan_backend" where
  "state_buffer drv i n =
     (case instance_states n i of
        Some h \<Rightarrow> (h, n)
      | None \<Rightarrow> (let (h, ctx) = drv_allocate drv (vk_ctx n) 1024
                in (h, n\<lparr>vk_ctx := ctx, instance_states := (instance_states n)(i \<mapsto> h)\<rparr>)))"

definition vb_process_stage :: "'c vk_driver \<Rightarrow> 'c vulkan_backend \<Rightarrow> dsp_audio_frame \<Rightarrow> u64
    \<Rightarrow> (bool \<times> dsp_audio_frame \<times> 'c vulkan_backend) outcome" where
  "vb_process_stage drv n frame addr =
     (if vk_ctx n = None then Inr (False, frame, n)
      else let (state_handle, n1) = state_buffer drv (instance_id frame) n in
        if shm_buffer_handle n1 \<noteq> 0 then
          (let offset = ucast (addr - shm_ptr n1) in
           case drv_dispatch_zero_copy drv (vk_ctx n1) (shm_buffer_handle n1) offset (frame_count frame)
               (channel_count frame) (vb_params n1) state_handle of
             Inl e \<Rightarrow> Inl e
           | Inr (ok, ctx) \<Rightarrow> Inr (ok, frame, n1\<lparr>vk_ctx := ctx\<rparr>))
        else
          (case drv_dispatch drv (vk_ctx n1) (samples frame) (frame_count frame) (channel_count frame)
               (vb_params n1) state_handle of
             Inl e \<Rightarrow> Inl e
           | Inr (ok, xs, ctx) \<Rightarrow> Inr (ok, frame\<lparr>samples := xs\<rparr>, n1\<lparr>vk_ctx := ctx\<rparr>)))"

definition vb_apply_control_event :: "'c vulkan_backend \<Rightarrow> u32 \<Rightarrow> f32 \<Rightarrow> 'c vulkan_backend outcome" where
  "vb_apply_control_event n param_id v =
     (let p = vb_params n in
      if param_id = 1 then Inr (n\<lparr>vb_params := p\<lparr>gain := v\<rparr>\<rparr>)
      else if param_id = 2 then Inr (n\<lparr>vb_params := p\<lparr>threshold := v\<rparr>\<rparr>)
      else if param_id = 3 then Inr (n\<lparr>vb_params := p\<lparr>param1 := v\<rparr>\<rparr>)
      else if param_id = 4 then Inr (n\<lparr>vb_params := p\<lparr>param2 := v\<rparr>\<rparr>)
      else if param_id = 5 then
        (case to_u32 v of Inl e \<Rightarrow> Inl e | Inr a \<Rightarrow> Inr (n\<lparr>vb_params := p\<lparr>algo_id := a\<rparr>\<rparr>))
      else Inr n)"

definition vb_allocate_buffer :: "'c vk_driver \<Rightarrow> 'c vulkan_backend \<Rightarrow> u64 \<Rightarrow> u32 \<times> 'c vulkan_backend" where
  "vb_allocate_buffer drv n sz = (let (h, ctx) = drv_allocate drv (vk_ctx n) sz in (h, n\<lparr>vk_ctx := ctx\<rparr>))"

definition vb_upload_buffer :: "'c vk_driver \<Rightarrow> 'c vulkan_backend \<Rightarrow> u32 \<Rightarrow> u8 list \<Rightarrow> u64
    \<Rightarrow> (bool \<times> 'c vulkan_backend) outcome" where
  "vb_upload_buffer drv n h data sz =
     (case drv_upload drv (vk_ctx n) h data sz of
        Inl e \<Rightarrow> Inl e
      | Inr (ok, ctx) \<Rightarrow> Inr (ok, n\<lparr>vk_ctx := ctx\<rparr>))"

definition vb_free_buffer :: "'c vk_driver \<Rightarrow> 'c vulkan_backend \<Rightarrow> u32 \<Rightarrow> 'c vulkan_backend" where
  "vb_free_buffer drv n h = n\<lparr>vk_ctx := drv_free drv (vk_ctx n) h\<rparr>"

definition vb_set_zero_copy_bypass :: "'c vk_driver \<Rightarrow> 'c vulkan_backend \<Rightarrow> bool \<Rightarrow> int \<Rightarrow> u64 \<Rightarrow> 'c vulkan_backend" where
  "vb_set_zero_copy_bypass drv n enabled shm_fd shm_size =
     (if enabled \<and> 0 \<le> shm_fd then
        (let (h, ctx) = drv_import drv (vk_ctx n) shm_fd shm_size in n\<lparr>shm_buffer_handle := h, vk_ctx := ctx\<rparr>)
      else n\<lparr>shm_buffer_handle := 0\<rparr>)"

definition vb_descriptor :: dsp_node_descriptor where
  "vb_descriptor = \<lparr>node_name = ''Vulkan GPU Node'', node_type = DSP_ACCEL_TYPE_MASSIVELY_PARALLEL,
     vram_capacity_mb = 0, supports_zero_copy = False, supports_staging = True, max_buffer_size = 16384\<rparr>"

definition vulkan_ops :: "'c vk_driver \<Rightarrow> 'c vulkan_backend node_ops" where
  "vulkan_ops drv = \<lparr>node_init = vb_init drv, get_descriptor = (\<lambda>n. vb_descriptor),
     process_stage = vb_process_stage drv, apply_control_event = vb_apply_control_event,
     allocate_buffer = vb_allocate_buffer drv, upload_buffer = vb_upload_buffer drv,
     free_buffer = vb_free_buffer drv, set_shm_ptr = (\<lambda>n p. n\<lparr>shm_ptr := p\<rparr>),
     set_zero_copy_bypass = vb_set_zero_copy_bypass drv\<rparr>"

text \<open>A usable back end: it has a context, and every handle it keeps is one of the pool.\<close>

definition vb_ok :: "('c \<Rightarrow> bool) \<Rightarrow> 'c vulkan_backend \<Rightarrow> bool" where
  "vb_ok ctx_ok n \<longleftrightarrow> (case vk_ctx n of None \<Rightarrow> False | Some c \<Rightarrow> ctx_ok c) \<and> unat (shm_buffer_handle n) < 256 \<and>
     (\<forall>i h. instance_states n i = Some h \<longrightarrow> unat h < 256)"

lemma vb_okE:
  assumes "vb_ok ctx_ok n"
  obtains c where "vk_ctx n = Some c" "ctx_ok c" "unat (shm_buffer_handle n) < 256"
    "\<And>i h. instance_states n i = Some h \<Longrightarrow> unat h < 256"
  using assms by (auto simp: vb_ok_def split: option.splits)

text \<open>The conversion of an algorithm number must be defined; every other value is accepted.\<close>

definition vb_event_ok :: "u32 \<Rightarrow> f32 \<Rightarrow> bool" where
  "vb_event_ok param_id v \<longleftrightarrow> param_id \<noteq> 5 \<or> succeeds (to_u32 v)"

context vulkan_driver
begin

lemma state_buffer_ok:
  assumes "vb_ok ctx_ok n"
  shows "\<exists>h n'. state_buffer drv i n = (h, n') \<and> vb_ok ctx_ok n' \<and> unat h < 256 \<and> instance_states n' i = Some h"
proof (cases "instance_states n i")
  case None
  obtain c where c: "vk_ctx n = Some c" "ctx_ok c" using assms by (auto simp: vb_ok_def split: option.splits)
  from allocate_ok [OF c(2), of 1024] obtain h c' where
    "drv_allocate drv (Some c) 1024 = (h, Some c')" "unat h < 256" "ctx_ok c'" by blast
  with None c assms show ?thesis by (simp add: state_buffer_def vb_ok_def)
qed (use assms in \<open>auto simp: state_buffer_def vb_ok_def\<close>)

lemma vb_process_ok:
  assumes "vb_ok ctx_ok n" "frame_bounded f"
  shows "\<exists>ok f' n'. vb_process_stage drv n f addr = Inr (ok, f', n') \<and> same_block f f' \<and> vb_ok ctx_ok n'"
proof -
  from state_buffer_ok [OF assms(1), of "instance_id f"] obtain h n1 where
    s: "state_buffer drv (instance_id f) n = (h, n1)" "vb_ok ctx_ok n1" "unat h < 256" by blast
  from s(2) obtain c where c: "vk_ctx n1 = Some c" "ctx_ok c" "unat (shm_buffer_handle n1) < 256"
    by (auto simp: vb_ok_def split: option.splits)
  have nn: "vk_ctx n \<noteq> None" using assms(1) by (elim vb_okE) simp
  have upd: "vb_ok ctx_ok (n1\<lparr>vk_ctx := Some c'\<rparr>)" if "ctx_ok c'" for c'
    using s(2) that by (simp add: vb_ok_def)
  show ?thesis
  proof (cases "shm_buffer_handle n1 = 0")
    case False
    from zero_copy_ok [OF c(2,3) s(3), of "ucast (addr - shm_ptr n1)" "frame_count f" "channel_count f" "vb_params n1"]
    show ?thesis using nn s(1) c(1) False upd by (auto simp: vb_process_stage_def Let_def)
  next
    case True
    have "length (samples f) = MAX_SAMPLES" "unat (frame_count f) \<le> MAX_FRAMES" "unat (channel_count f) \<le> MAX_CHANNELS"
      using assms(2) by (simp_all add: frame_bounded_def frame_wf_def)
    from dispatch_ok [OF c(2) this, of "vb_params n1" h] this(1)
    show ?thesis using nn s(1) c(1) True upd by (auto simp: vb_process_stage_def Let_def)
  qed
qed

end

sublocale vulkan_driver \<subseteq> node: dsp_node "vulkan_ops drv" "\<lambda>n. n = new_vulkan_backend" "vb_ok ctx_ok" vb_event_ok
proof unfold_locales
  show "vb_ok ctx_ok n'" if "n = new_vulkan_backend" "node_init (vulkan_ops drv) i n = (True, n')" for n i n'
    using that init_ok by (auto simp: vulkan_ops_def vb_init_def new_vulkan_backend_def vb_ok_def Let_def)
  show "\<exists>ok f' n'. process_stage (vulkan_ops drv) n f addr = Inr (ok, f', n') \<and> same_block f f' \<and> vb_ok ctx_ok n'"
    if "vb_ok ctx_ok n" "frame_bounded f" for n f addr
    using vb_process_ok [OF that, of addr] by (simp add: vulkan_ops_def)
  show "\<exists>n'. apply_control_event (vulkan_ops drv) n k v = Inr n' \<and> vb_ok ctx_ok n'"
    if "vb_ok ctx_ok n" "vb_event_ok k v" for n k v
    using that by (auto simp: vulkan_ops_def vb_apply_control_event_def vb_ok_def vb_event_ok_def Let_def
        succeeds_iff split: sum.splits)
  show "vb_ok ctx_ok (snd (allocate_buffer (vulkan_ops drv) n sz))" if "vb_ok ctx_ok n" for n sz
  proof -
    from that obtain c where c: "vk_ctx n = Some c" "ctx_ok c" by (rule vb_okE)
    from allocate_ok [OF c(2), of sz] that c(1) show ?thesis
      by (auto simp: vulkan_ops_def vb_allocate_buffer_def vb_ok_def)
  qed
  show "vb_ok ctx_ok n'"
    if "vb_ok ctx_ok n" "upload_buffer (vulkan_ops drv) n h data sz = Inr (ok, n')" for n h data sz ok n'
  proof -
    from that(1) obtain c where c: "vk_ctx n = Some c" "ctx_ok c" by (rule vb_okE)
    from that(2) c(1) obtain ctx where u: "drv_upload drv (Some c) h data sz = Inr (ok, ctx)" "n' = n\<lparr>vk_ctx := ctx\<rparr>"
      by (auto simp: vulkan_ops_def vb_upload_buffer_def split: sum.splits)
    from upload_ok [OF c(2) u(1)] u(2) that(1) show ?thesis by (auto simp: vb_ok_def)
  qed
  show "vb_ok ctx_ok (free_buffer (vulkan_ops drv) n h)" if "vb_ok ctx_ok n" for n h
  proof -
    from that obtain c where c: "vk_ctx n = Some c" "ctx_ok c" by (rule vb_okE)
    from free_ok [OF c(2), of h] that c(1) show ?thesis
      by (auto simp: vulkan_ops_def vb_free_buffer_def vb_ok_def)
  qed
  show "vb_ok ctx_ok (set_shm_ptr (vulkan_ops drv) n p)" if "vb_ok ctx_ok n" for n p
    using that by (simp add: vulkan_ops_def vb_ok_def)
  show "vb_ok ctx_ok (set_zero_copy_bypass (vulkan_ops drv) n b fd sz)" if "vb_ok ctx_ok n" for n b fd sz
  proof -
    from that obtain c where c: "vk_ctx n = Some c" "ctx_ok c" by (rule vb_okE)
    from import_ok [OF c(2), of fd sz] that c(1) show ?thesis
      by (auto simp: vulkan_ops_def vb_set_zero_copy_bypass_def vb_ok_def)
  qed
qed

section \<open>The processor array back end\<close>

record npu_backend =
  device_id :: int

definition new_npu_backend :: npu_backend where
  "new_npu_backend = \<lparr>device_id = 0\<rparr>"

text \<open>\<open>std::to_string\<close> on an \<open>int\<close>.\<close>

fun digits :: "nat \<Rightarrow> string" where
  "digits n = (if n < 10 then [char_of (n + 48)] else digits (n div 10) @ [char_of (n mod 10 + 48)])"

declare digits.simps [simp del]

definition to_string :: "int \<Rightarrow> string" where
  "to_string i = (if i < 0 then ''-'' @ digits (nat (- i)) else digits (nat i))"

definition npu_descriptor :: "npu_backend \<Rightarrow> dsp_node_descriptor" where
  "npu_descriptor n = \<lparr>node_name = ''NPU Array Engine #'' @ to_string (device_id n),
     node_type = DSP_ACCEL_TYPE_ARRAY_PROCESSOR, vram_capacity_mb = 0, supports_zero_copy = False,
     supports_staging = True, max_buffer_size = 4096\<rparr>"

definition npu_ops :: "npu_backend node_ops" where
  "npu_ops = \<lparr>node_init = (\<lambda>device_index n. (True, n\<lparr>device_id := device_index\<rparr>)),
     get_descriptor = npu_descriptor,
     process_stage = (\<lambda>n frame addr. Inr (True, frame, n)),
     apply_control_event = (\<lambda>n param_id v. Inr n),
     allocate_buffer = (\<lambda>n sz. (0, n)),
     upload_buffer = (\<lambda>n h data sz. Inr (False, n)),
     free_buffer = (\<lambda>n h. n),
     set_shm_ptr = (\<lambda>n p. n),
     set_zero_copy_bypass = (\<lambda>n enabled fd sz. n)\<rparr>"

interpretation npu: dsp_node npu_ops "\<lambda>n. n = new_npu_backend" "\<lambda>n. True" "\<lambda>k v. True"
  by unfold_locales (auto simp: npu_ops_def)

section \<open>A node of either kind\<close>

text \<open>
  A pointer to \<open>IDspNode\<close> may point to either implementation; a call goes to the one it points to.
\<close>

definition sum_ops :: "'a node_ops \<Rightarrow> 'b node_ops \<Rightarrow> ('a + 'b) node_ops" where
  "sum_ops A B = \<lparr>node_init = (\<lambda>i n. case n of Inl a \<Rightarrow> map_prod id Inl (node_init A i a)
       | Inr b \<Rightarrow> map_prod id Inr (node_init B i b)),
     get_descriptor = case_sum (get_descriptor A) (get_descriptor B),
     process_stage = (\<lambda>n f addr. case n of
         Inl a \<Rightarrow> map_sum id (map_prod id (map_prod id Inl)) (process_stage A a f addr)
       | Inr b \<Rightarrow> map_sum id (map_prod id (map_prod id Inr)) (process_stage B b f addr)),
     apply_control_event = (\<lambda>n k v. case n of Inl a \<Rightarrow> map_sum id Inl (apply_control_event A a k v)
       | Inr b \<Rightarrow> map_sum id Inr (apply_control_event B b k v)),
     allocate_buffer = (\<lambda>n sz. case n of Inl a \<Rightarrow> map_prod id Inl (allocate_buffer A a sz)
       | Inr b \<Rightarrow> map_prod id Inr (allocate_buffer B b sz)),
     upload_buffer = (\<lambda>n h data sz. case n of
         Inl a \<Rightarrow> map_sum id (map_prod id Inl) (upload_buffer A a h data sz)
       | Inr b \<Rightarrow> map_sum id (map_prod id Inr) (upload_buffer B b h data sz)),
     free_buffer = (\<lambda>n h. map_sum (\<lambda>a. free_buffer A a h) (\<lambda>b. free_buffer B b h) n),
     set_shm_ptr = (\<lambda>n p. map_sum (\<lambda>a. set_shm_ptr A a p) (\<lambda>b. set_shm_ptr B b p) n),
     set_zero_copy_bypass = (\<lambda>n e fd sz. map_sum (\<lambda>a. set_zero_copy_bypass A a e fd sz)
       (\<lambda>b. set_zero_copy_bypass B b e fd sz) n)\<rparr>"

locale two_nodes =
  left: dsp_node opsA freshA okA event_okA + right: dsp_node opsB freshB okB event_okB
  for opsA :: "'a node_ops" and freshA okA event_okA
    and opsB :: "'b node_ops" and freshB okB event_okB

sublocale two_nodes \<subseteq> either: dsp_node "sum_ops opsA opsB" "case_sum freshA freshB" "case_sum okA okB"
  "\<lambda>k v. event_okA k v \<and> event_okB k v"
proof unfold_locales
  show "case_sum okA okB n'"
    if "case_sum freshA freshB n" "node_init (sum_ops opsA opsB) i n = (True, n')" for n i n'
    using that left.init_ok right.init_ok by (cases n) (auto simp: sum_ops_def map_prod_def split: prod.splits)
  show "\<exists>ok f' n'. process_stage (sum_ops opsA opsB) n f addr = Inr (ok, f', n') \<and> same_block f f' \<and> case_sum okA okB n'"
    if "case_sum okA okB n" "frame_bounded f" for n f addr
    using that left.process_ok [of _ f addr] right.process_ok [of _ f addr]
    by (cases n) (fastforce simp: sum_ops_def)+
  show "\<exists>n'. apply_control_event (sum_ops opsA opsB) n k v = Inr n' \<and> case_sum okA okB n'"
    if "case_sum okA okB n" "event_okA k v \<and> event_okB k v" for n k v
    using that left.control_ok [of _ k v] right.control_ok [of _ k v] by (cases n) (fastforce simp: sum_ops_def)+
  show "case_sum okA okB (snd (allocate_buffer (sum_ops opsA opsB) n sz))" if "case_sum okA okB n" for n sz
    using that left.node_allocate_ok right.node_allocate_ok by (cases n) (auto simp: sum_ops_def)
  show "case_sum okA okB n'"
    if "case_sum okA okB n" "upload_buffer (sum_ops opsA opsB) n h data sz = Inr (ok, n')" for n h data sz ok n'
  proof (cases n)
    case (Inl a)
    with that(2) obtain a' where "upload_buffer opsA a h data sz = Inr (ok, a')" "n' = Inl a'"
      by (cases "upload_buffer opsA a h data sz") (auto simp: sum_ops_def)
    with Inl that(1) left.node_upload_ok show ?thesis by auto
  next
    case (Inr b)
    with that(2) obtain b' where "upload_buffer opsB b h data sz = Inr (ok, b')" "n' = Inr b'"
      by (cases "upload_buffer opsB b h data sz") (auto simp: sum_ops_def)
    with Inr that(1) right.node_upload_ok show ?thesis by auto
  qed
  show "case_sum okA okB (free_buffer (sum_ops opsA opsB) n h)" if "case_sum okA okB n" for n h
    using that left.node_free_ok right.node_free_ok by (cases n) (auto simp: sum_ops_def)
  show "case_sum okA okB (set_shm_ptr (sum_ops opsA opsB) n p)" if "case_sum okA okB n" for n p
    using that left.shm_ptr_ok right.shm_ptr_ok by (cases n) (auto simp: sum_ops_def)
  show "case_sum okA okB (set_zero_copy_bypass (sum_ops opsA opsB) n b fd sz)" if "case_sum okA okB n" for n b fd sz
    using that left.bypass_ok right.bypass_ok by (cases n) (auto simp: sum_ops_def)
qed

end
