(* ===== verification/Vulkan_Mock.thy ===== *)
theory Vulkan_Mock
  imports Backend
begin

text \<open>
  The stand-in driver \<open>daemon/vulkan/vulkan_compute.cpp\<close>, which applies the gain on the CPU, and the
  CPU routine \<open>ParallelProcessor::apply_gain_parallel\<close> of \<open>daemon/parallel_processor.hpp\<close>, which runs
  the same loop.
\<close>

section \<open>The gain loop\<close>

text \<open>One pass of \<open>samples[i] *= gain\<close>, and the loop over the first \<open>frame_count * channel_count\<close> samples.\<close>

definition gain_step :: "f32 \<Rightarrow> nat \<Rightarrow> f32 list \<Rightarrow> f32 list outcome" where
  "gain_step g i xs = (if i < length xs then Inr (xs[i := fmul binary32 (xs ! i) g]) else Inl Out_Of_Bounds)"

definition gain_loop :: "f32 list \<Rightarrow> u32 \<Rightarrow> u32 \<Rightarrow> f32 \<Rightarrow> f32 list outcome" where
  "gain_loop xs frames channels g = for_each (gain_step g) [0..<unat (frames * channels)] xs"

definition apply_gain_parallel :: "dsp_audio_frame \<Rightarrow> f32 \<Rightarrow> dsp_audio_frame outcome" where
  "apply_gain_parallel frame g =
     (case gain_loop (samples frame) (frame_count frame) (channel_count frame) g of
        Inl e \<Rightarrow> Inl e
      | Inr xs \<Rightarrow> Inr (frame\<lparr>samples := xs\<rparr>))"

lemma gain_prefix:
  assumes "n \<le> length xs"
  shows "for_each (gain_step g) [0..<n] xs = Inr (map (\<lambda>x. fmul binary32 x g) (take n xs) @ drop n xs)"
  using assms
proof (induction n)
  case (Suc n)
  then have "n < length xs" by simp
  then have "drop n xs = xs ! n # drop (Suc n) xs" by (rule Cons_nth_drop_Suc [symmetric])
  then have "gain_step g n (map (\<lambda>x. fmul binary32 x g) (take n xs) @ drop n xs)
    = Inr (map (\<lambda>x. fmul binary32 x g) (take (Suc n) xs) @ drop (Suc n) xs)"
    using Suc.prems by (simp add: gain_step_def nth_append list_update_append take_Suc_conv_app_nth)
  with Suc show ?case by (simp add: for_each_append)
qed simp

lemma gain_loop_eq:
  "unat (frames * channels) \<le> length xs \<Longrightarrow> gain_loop xs frames channels g =
     Inr (map (\<lambda>x. fmul binary32 x g) (take (unat (frames * channels)) xs) @ drop (unat (frames * channels)) xs)"
  unfolding gain_loop_def by (rule gain_prefix)

section \<open>The stand-in driver\<close>

record mock_context =
  device_id :: int

definition mock_init :: "int \<Rightarrow> mock_context option" where
  "mock_init device_index = Some \<lparr>device_id = device_index\<rparr>"

definition mock_dispatch :: "mock_context option \<Rightarrow> f32 list \<Rightarrow> u32 \<Rightarrow> u32 \<Rightarrow> dsp_params \<Rightarrow> u32
    \<Rightarrow> (bool \<times> f32 list \<times> mock_context option) outcome" where
  "mock_dispatch ctx xs frames channels p state_handle =
     (case gain_loop xs frames channels (gain p) of
        Inl e \<Rightarrow> Inl e
      | Inr ys \<Rightarrow> Inr (True, ys, ctx))"

definition mock_dispatch_zero_copy :: "mock_context option \<Rightarrow> u32 \<Rightarrow> u32 \<Rightarrow> u32 \<Rightarrow> u32 \<Rightarrow> dsp_params \<Rightarrow> u32
    \<Rightarrow> (bool \<times> mock_context option) outcome" where
  "mock_dispatch_zero_copy ctx h off frames channels p state_handle = Inr (True, ctx)"

definition mock_allocate_buffer :: "mock_context option \<Rightarrow> u64 \<Rightarrow> u32 \<times> mock_context option" where
  "mock_allocate_buffer ctx n = (1, ctx)"

definition mock_upload_buffer :: "mock_context option \<Rightarrow> u32 \<Rightarrow> u8 list \<Rightarrow> u64 \<Rightarrow> (bool \<times> mock_context option) outcome" where
  "mock_upload_buffer ctx h data n = Inr (True, ctx)"

definition mock_free_buffer :: "mock_context option \<Rightarrow> u32 \<Rightarrow> mock_context option" where
  "mock_free_buffer ctx h = ctx"

definition mock_import_shm :: "mock_context option \<Rightarrow> int \<Rightarrow> u64 \<Rightarrow> u32 \<times> mock_context option" where
  "mock_import_shm ctx fd n = (2, ctx)"

definition mock_driver :: "mock_context vk_driver" where
  "mock_driver = \<lparr>drv_init = mock_init, drv_dispatch = mock_dispatch,
     drv_dispatch_zero_copy = mock_dispatch_zero_copy, drv_allocate = mock_allocate_buffer,
     drv_upload = mock_upload_buffer, drv_free = mock_free_buffer, drv_import = mock_import_shm\<rparr>"

lemmas mock_defs = mock_driver_def mock_init_def mock_dispatch_def mock_dispatch_zero_copy_def
  mock_allocate_buffer_def mock_upload_buffer_def mock_free_buffer_def mock_import_shm_def

lemma mock_dispatch_eq:
  assumes "length xs = MAX_SAMPLES" "unat fc \<le> MAX_FRAMES" "unat cc \<le> MAX_CHANNELS"
  shows "mock_dispatch ctx xs fc cc p h =
    Inr (True, map (\<lambda>x. fmul binary32 x (gain p)) (take (unat fc * unat cc) xs) @ drop (unat fc * unat cc) xs, ctx)"
  using bounded_product [OF assms(2,3)] assms(1) gain_loop_eq [of fc cc xs "gain p"] by (simp add: mock_dispatch_def)

interpretation mock: vulkan_driver mock_driver "\<lambda>c. True"
proof unfold_locales
  show "\<exists>ok ys c'. drv_dispatch mock_driver (Some c) xs fc cc p h = Inr (ok, ys, Some c') \<and>
      length ys = MAX_SAMPLES \<and> True"
    if "length xs = MAX_SAMPLES" "unat fc \<le> MAX_FRAMES" "unat cc \<le> MAX_CHANNELS" for c xs fc cc p h
    using mock_dispatch_eq [OF that, of "Some c" p h] that bounded_product [OF that(2,3)]
    by (auto simp: mock_driver_def)
qed (auto simp: mock_defs)

section \<open>Properties\<close>

text \<open>
  C36: On a frame within its bounds the driver multiplies exactly the first \<open>frame_count * channel_count\<close>
  of the 2048 array entries by the gain and leaves every other entry as it is. Because channels have a
  stride of 256 entries, these are all samples of the frame when a block has 256 samples; in a shorter
  block of two or more channels the last sample of the last channel is never scaled.
\<close>

theorem mock_gain_coverage:
  assumes "length xs = MAX_SAMPLES" "unat fc \<le> MAX_FRAMES" "unat cc \<le> MAX_CHANNELS"
  shows "\<exists>ys. mock_dispatch ctx xs fc cc p h = Inr (True, ys, ctx) \<and> length ys = MAX_SAMPLES \<and>
    (\<forall>k < MAX_SAMPLES. ys ! k = (if k < unat fc * unat cc then fmul binary32 (xs ! k) (gain p) else xs ! k)) \<and>
    (unat fc = MAX_FRAMES \<longrightarrow> (\<forall>ch < unat cc. \<forall>i < unat fc.
       ys ! (ch * MAX_FRAMES + i) = fmul binary32 (xs ! (ch * MAX_FRAMES + i)) (gain p))) \<and>
    (0 < unat fc \<and> unat fc < MAX_FRAMES \<and> 2 \<le> unat cc \<longrightarrow>
       (let last = (unat cc - 1) * MAX_FRAMES + (unat fc - 1) in ys ! last = xs ! last))"
proof -
  let ?n = "unat fc * unat cc"
  define ys where "ys = map (\<lambda>x. fmul binary32 x (gain p)) (take ?n xs) @ drop ?n xs"
  have n: "?n \<le> length xs" using bounded_product [OF assms(2,3)] assms(1) by simp
  have len: "length ys = MAX_SAMPLES" using n assms(1) by (simp add: ys_def)
  have entry: "ys ! k = (if k < ?n then fmul binary32 (xs ! k) (gain p) else xs ! k)" if "k < MAX_SAMPLES" for k
    using n that assms(1) by (auto simp: ys_def nth_append min_def)
  have inside: "ch * MAX_FRAMES + i < MAX_SAMPLES" if "ch < unat cc" "i < unat fc" for ch i
    using channel_fits [of ch "Suc i"] that assms by simp
  have "ys ! (ch * MAX_FRAMES + i) = fmul binary32 (xs ! (ch * MAX_FRAMES + i)) (gain p)"
    if "unat fc = MAX_FRAMES" "ch < unat cc" "i < unat fc" for ch i
  proof -
    have "(ch + 1) * MAX_FRAMES \<le> unat cc * MAX_FRAMES" using that(2) by (intro mult_le_mono1) simp
    with that have "ch * MAX_FRAMES + i < ?n" by (simp add: mult.commute)
    with entry [OF inside [OF that(2,3)]] show ?thesis by simp
  qed
  moreover have "ys ! ((unat cc - 1) * MAX_FRAMES + (unat fc - 1)) = xs ! ((unat cc - 1) * MAX_FRAMES + (unat fc - 1))"
    if "0 < unat fc" "unat fc < MAX_FRAMES" "2 \<le> unat cc"
  proof -
    have "?n = (unat cc - 1) * unat fc + unat fc" using that(3) by (cases "unat cc") (simp_all add: mult.commute)
    moreover have "(unat cc - 1) * Suc (unat fc) \<le> (unat cc - 1) * MAX_FRAMES" using that(2) by (intro mult_le_mono2) simp
    then have "(unat cc - 1) * unat fc + (unat cc - 1) \<le> (unat cc - 1) * MAX_FRAMES" by simp
    ultimately have "\<not> (unat cc - 1) * MAX_FRAMES + (unat fc - 1) < ?n" using that by linarith
    with entry [OF inside [of "unat cc - 1" "unat fc - 1"]] that show ?thesis by simp
  qed
  ultimately show ?thesis
    using mock_dispatch_eq [OF assms, of ctx p h] len entry by (intro exI [of _ ys]) (simp add: ys_def [symmetric])
qed

text \<open>A gain of 2 on samples 1: of 64 samples in two channels, the second channel is not scaled at all.\<close>

theorem mock_gain_coverage_witness:
  "\<exists>ys. mock_dispatch None (replicate 2048 (FFin False 1)) 64 2 \<lparr>gain = FFin False 2, threshold = FNaN, param1 = FNaN,
     param2 = FNaN, algo_id = 0\<rparr> 0 = Inr (True, ys, None) \<and>
    ys ! 0 = FFin False 2 \<and> ys ! 127 = FFin False 2 \<and> ys ! 128 = FFin False 1 \<and> ys ! 256 = FFin False 1 \<and> ys ! 319 = FFin False 1"
proof -
  let ?p = "\<lparr>gain = FFin False 2, threshold = FNaN, param1 = FNaN, param2 = FNaN, algo_id = 0\<rparr>"
  let ?xs = "replicate 2048 (FFin False 1)"
  have "fmul binary32 (FFin False 1) (FFin False 2) = FFin False 2" by code_simp
  moreover have "length ?xs = MAX_SAMPLES" "unat (64 :: u32) \<le> MAX_FRAMES" "unat (2 :: u32) \<le> MAX_CHANNELS"
    by (simp_all add: MAX_SAMPLES_def MAX_FRAMES_def MAX_CHANNELS_def)
  from mock_gain_coverage [OF this, of None ?p 0] obtain ys where
    "mock_dispatch None ?xs 64 2 ?p 0 = Inr (True, ys, None)"
    and k: "\<forall>k < MAX_SAMPLES. ys ! k = (if k < unat (64 :: u32) * unat (2 :: u32) then fmul binary32 (?xs ! k) (gain ?p) else ?xs ! k)"
    by blast
  moreover have "ys ! k = (if k < 128 then fmul binary32 (FFin False 1) (FFin False 2) else FFin False 1)" if "k < 2048" for k
    using k that by (simp add: MAX_SAMPLES_def)
  ultimately show ?thesis by (intro exI [of _ ys]) simp
qed

text \<open>
  The CPU routine \<open>apply_gain_parallel\<close> and the stand-in driver agree: on a frame within its
  bounds both return, with the same samples, and with the default gain 1 they leave every sample
  of the format (signed zeroes, subnormals, infinities and NaN included) unchanged.
\<close>

theorem cpu_gain_equals_driver:
  assumes "frame_bounded f"
  shows "\<exists>f'. apply_gain_parallel f (gain p) = Inr f' \<and>
      mock_dispatch ctx (samples f) (frame_count f) (channel_count f) p h = Inr (True, samples f', ctx) \<and>
      (gain p = FFin False 1 \<and> list_all (in_format binary32) (samples f) \<longrightarrow> f' = f)"
proof -
  let ?n = "unat (frame_count f * channel_count f)"
  let ?xs = "map (\<lambda>x. fmul binary32 x (gain p)) (take ?n (samples f)) @ drop ?n (samples f)"
  have n: "?n \<le> length (samples f)"
    using assms bounded_product [of "frame_count f" "channel_count f"] by (simp add: frame_bounded_def frame_wf_def)
  have "?xs = samples f" if "gain p = FFin False 1" "list_all (in_format binary32) (samples f)"
  proof -
    have "map (\<lambda>x. fmul binary32 x (FFin False 1)) (take ?n (samples f)) = take ?n (samples f)"
      using that(2) by (intro map_idI) (auto simp: list_all_iff fmul_one dest: in_set_takeD)
    with that(1) show ?thesis by (simp only: append_take_drop_id)
  qed
  then show ?thesis
    using gain_loop_eq [OF n, of "gain p"]
    by (intro exI [of _ "f\<lparr>samples := ?xs\<rparr>"]) (auto simp: apply_gain_parallel_def mock_dispatch_def)
qed

theorem cpu_gain_equals_driver_witness:
  "apply_gain_parallel frame_zero (FFin False 1) = Inr frame_zero"
proof -
  have "frame_bounded frame_zero" "list_all (in_format binary32) (samples frame_zero)"
    by (simp_all add: frame_bounded_def frame_zero_def frame_wf_def list_all_iff representable_def)
  then show ?thesis
    using cpu_gain_equals_driver [of frame_zero "\<lparr>gain = FFin False 1, threshold = FNaN, param1 = FNaN,
     param2 = FNaN, algo_id = 0\<rparr>" None 0] by simp
qed

end
