(* ===== verification/Node_Graph.thy ===== *)
theory Node_Graph
  imports Vulkan_Mock
begin

text \<open>
  The processing graph \<open>DspNodeGraph\<close> of \<open>daemon/node_graph.hpp\<close>. A pointer to a node is a number and
  the nodes live in a store from numbers to node states, so that a node that stands twice in the
  sequence is one object.
\<close>

section \<open>The graph and its operations\<close>

record node_graph =
  connections :: "(nat \<times> nat) list"
  execution_order :: "nat list"
  last_failed_node :: "nat option"

type_synonym 'n node_store = "nat \<Rightarrow> 'n"

definition empty_graph :: node_graph where
  "empty_graph = \<lparr>connections = [], execution_order = [], last_failed_node = None\<rparr>"

definition add_node_to_sequence :: "node_graph \<Rightarrow> nat \<Rightarrow> node_graph" where
  "add_node_to_sequence g node = g\<lparr>execution_order := execution_order g @ [node]\<rparr>"

definition clear :: "node_graph \<Rightarrow> node_graph" where
  "clear g = g\<lparr>execution_order := [], connections := [], last_failed_node := None\<rparr>"

text \<open>The loop of \<open>process_graph\<close>: the node whose stage failed, if any, the frame and the nodes.\<close>

fun run_stages :: "'n node_ops \<Rightarrow> nat list \<Rightarrow> 'n node_store \<Rightarrow> dsp_audio_frame \<Rightarrow> u64
    \<Rightarrow> (nat option \<times> dsp_audio_frame \<times> 'n node_store) outcome" where
  "run_stages ops [] st frame addr = Inr (None, frame, st)"
| "run_stages ops (node # ns) st frame addr =
     (case process_stage ops (st node) frame addr of
        Inl e \<Rightarrow> Inl e
      | Inr (ok, frame', n') \<Rightarrow>
          (if \<not> ok then Inr (Some node, frame', st(node := n'))
           else run_stages ops ns (st(node := n')) frame' addr))"

text \<open>The loop of \<open>process_graph_parallel\<close>, which passes over nodes without staging.\<close>

fun run_staging :: "'n node_ops \<Rightarrow> nat list \<Rightarrow> 'n node_store \<Rightarrow> dsp_audio_frame \<Rightarrow> u64
    \<Rightarrow> (nat option \<times> dsp_audio_frame \<times> 'n node_store) outcome" where
  "run_staging ops [] st frame addr = Inr (None, frame, st)"
| "run_staging ops (node # ns) st frame addr =
     (if supports_staging (get_descriptor ops (st node)) then
        (case process_stage ops (st node) frame addr of
           Inl e \<Rightarrow> Inl e
         | Inr (ok, frame', n') \<Rightarrow>
             (if \<not> ok then Inr (Some node, frame', st(node := n'))
              else run_staging ops ns (st(node := n')) frame' addr))
      else run_staging ops ns st frame addr)"

definition graph_result :: "node_graph \<Rightarrow> (nat option \<times> dsp_audio_frame \<times> 'n node_store) outcome
    \<Rightarrow> (bool \<times> node_graph \<times> dsp_audio_frame \<times> 'n node_store) outcome" where
  "graph_result g r = (case r of
     Inl e \<Rightarrow> Inl e
   | Inr (None, frame, st) \<Rightarrow> Inr (True, g, frame, st)
   | Inr (Some node, frame, st) \<Rightarrow> Inr (False, g\<lparr>last_failed_node := Some node\<rparr>, frame, st))"

definition process_graph :: "'n node_ops \<Rightarrow> node_graph \<Rightarrow> 'n node_store \<Rightarrow> dsp_audio_frame \<Rightarrow> u64
    \<Rightarrow> (bool \<times> node_graph \<times> dsp_audio_frame \<times> 'n node_store) outcome" where
  "process_graph ops g st frame addr = graph_result g (run_stages ops (execution_order g) st frame addr)"

definition process_graph_parallel :: "'n node_ops \<Rightarrow> node_graph \<Rightarrow> 'n node_store \<Rightarrow> dsp_audio_frame \<Rightarrow> u64 \<Rightarrow> u64
    \<Rightarrow> (bool \<times> node_graph \<times> dsp_audio_frame \<times> 'n node_store) outcome" where
  "process_graph_parallel ops g st frame addr num_blocks =
     graph_result g (run_staging ops (execution_order g) st frame addr)"

definition get_last_failed_node :: "node_graph \<Rightarrow> nat option" where
  "get_last_failed_node g = last_failed_node g"

definition get_nodes :: "node_graph \<Rightarrow> nat list" where
  "get_nodes g = execution_order g"

section \<open>Lemmas\<close>

lemma run_staging_eq:
  assumes "\<And>n. supports_staging (get_descriptor ops n)"
  shows "run_staging ops ns st frame addr = run_stages ops ns st frame addr"
  using assms by (induction ns arbitrary: st frame) (auto split: sum.splits)

text \<open>Where the loop stops: the stages before the failing one all succeed, those after it do not run.\<close>

lemma run_stages_append:
  "run_stages ops (ns @ ms) st frame addr =
     (case run_stages ops ns st frame addr of
        Inl e \<Rightarrow> Inl e
      | Inr (Some node, frame', st') \<Rightarrow> Inr (Some node, frame', st')
      | Inr (None, frame', st') \<Rightarrow> run_stages ops ms st' frame' addr)"
  by (induction ns arbitrary: st frame) (auto split: sum.splits prod.splits)

lemma run_stages_failed:
  "run_stages ops ns st frame addr = Inr (Some node, frame', st') \<Longrightarrow>
   \<exists>ps qs f1 st1 n'. ns = ps @ node # qs \<and> run_stages ops ps st frame addr = Inr (None, f1, st1) \<and>
     process_stage ops (st1 node) f1 addr = Inr (False, frame', n') \<and> st' = st1(node := n')"
proof (induction ns arbitrary: st frame)
  case (Cons p ns)
  from Cons.prems obtain ok f1 n1 where p: "process_stage ops (st p) frame addr = Inr (ok, f1, n1)"
    by (auto split: sum.splits prod.splits)
  show ?case
  proof (cases ok)
    case False
    with Cons.prems p have "node = p" "frame' = f1" "st' = st(p := n1)" by auto
    with False p show ?thesis by (intro exI [of _ "[]"] exI [of _ ns]) auto
  next
    case True
    with Cons.prems p have "run_stages ops ns (st(p := n1)) f1 addr = Inr (Some node, frame', st')" by simp
    from Cons.IH [OF this] obtain ps qs f2 st2 n' where i: "ns = ps @ node # qs"
      "run_stages ops ps (st(p := n1)) f1 addr = Inr (None, f2, st2)"
      "process_stage ops (st2 node) f2 addr = Inr (False, frame', n')" "st' = st2(node := n')" by blast
    with True p show ?thesis by (intro exI [of _ "p # ps"] exI [of _ qs]) auto
  qed
qed simp

lemma run_stages_untouched:
  "run_stages ops ns st frame addr = Inr (r, frame', st') \<Longrightarrow> k \<notin> set ns \<Longrightarrow> st' k = st k"
proof (induction ns arbitrary: st frame)
  case (Cons p ns)
  then show ?case by (auto split: sum.splits prod.splits if_splits dest!: Cons.IH)
qed simp

text \<open>Both ways to process a frame, as the worker chooses between them.\<close>

definition run_graph :: "'n node_ops \<Rightarrow> bool \<Rightarrow> node_graph \<Rightarrow> 'n node_store \<Rightarrow> dsp_audio_frame \<Rightarrow> u64
    \<Rightarrow> (bool \<times> node_graph \<times> dsp_audio_frame \<times> 'n node_store) outcome" where
  "run_graph ops split g st frame addr =
     (if split then process_graph_parallel ops g st frame addr 4 else process_graph ops g st frame addr)"

context dsp_node
begin

lemma run_staging_ok:
  assumes "\<forall>k \<in> set ns. node_ok (st k)" "frame_bounded f"
  shows "\<exists>r f' st'. run_staging ops ns st f addr = Inr (r, f', st') \<and> same_block f f' \<and>
    (\<forall>k. node_ok (st k) \<longrightarrow> node_ok (st' k))"
  using assms
proof (induction ns arbitrary: st f)
  case (Cons p ns)
  from Cons.prems process_ok [of "st p" f addr] obtain ok f1 n1 where
    p: "process_stage ops (st p) f addr = Inr (ok, f1, n1)" "same_block f f1" "node_ok n1" by auto
  show ?case
  proof (cases "supports_staging (get_descriptor ops (st p)) \<and> ok")
    case False
    with p Cons show ?thesis by (cases "supports_staging (get_descriptor ops (st p))") auto
  next
    case True
    have "\<forall>k \<in> set ns. node_ok ((st(p := n1)) k)" using Cons.prems(1) p(3) by simp
    from Cons.IH [OF this same_block_bounded [OF p(2) Cons.prems(2)]] obtain r f2 st2 where
      r: "run_staging ops ns (st(p := n1)) f1 addr = Inr (r, f2, st2)" "same_block f1 f2"
        "\<forall>k. node_ok ((st(p := n1)) k) \<longrightarrow> node_ok (st2 k)" by blast
    have "node_ok (st2 k)" if "node_ok (st k)" for k
      using r(3) that p(3) by (cases "k = p") auto
    with True p r same_block_trans [OF p(2) r(2)] show ?thesis by auto
  qed
qed simp

lemma run_stages_ok:
  assumes "\<forall>k \<in> set ns. node_ok (st k)" "frame_bounded f"
  shows "\<exists>r f' st'. run_stages ops ns st f addr = Inr (r, f', st') \<and> same_block f f' \<and>
    (\<forall>k. node_ok (st k) \<longrightarrow> node_ok (st' k))"
  using assms
proof (induction ns arbitrary: st f)
  case (Cons p ns)
  from Cons.prems process_ok [of "st p" f addr] obtain ok f1 n1 where
    p: "process_stage ops (st p) f addr = Inr (ok, f1, n1)" "same_block f f1" "node_ok n1" by auto
  show ?case
  proof (cases ok)
    case False
    with p Cons.prems show ?thesis by auto
  next
    case True
    have "\<forall>k \<in> set ns. node_ok ((st(p := n1)) k)" using Cons.prems(1) p(3) by simp
    from Cons.IH [OF this same_block_bounded [OF p(2) Cons.prems(2)]] obtain r f2 st2 where
      r: "run_stages ops ns (st(p := n1)) f1 addr = Inr (r, f2, st2)" "same_block f1 f2"
        "\<forall>k. node_ok ((st(p := n1)) k) \<longrightarrow> node_ok (st2 k)" by blast
    have "node_ok (st2 k)" if "node_ok (st k)" for k
      using r(3) that p(3) by (cases "k = p") auto
    with True p r same_block_trans [OF p(2) r(2)] show ?thesis by auto
  qed
qed simp

lemma run_graph_ok:
  assumes "\<forall>k \<in> set (execution_order g). node_ok (st k)" "frame_bounded f"
  shows "\<exists>ok g' f' st'. run_graph ops split g st f addr = Inr (ok, g', f', st') \<and> same_block f f' \<and>
    (\<forall>k. node_ok (st k) \<longrightarrow> node_ok (st' k)) \<and> execution_order g' = execution_order g"
proof -
  obtain r f' st' where r: "(if split then run_staging ops (execution_order g) st f addr
      else run_stages ops (execution_order g) st f addr) = Inr (r, f', st')" "same_block f f'"
    "\<forall>k. node_ok (st k) \<longrightarrow> node_ok (st' k)"
    using run_stages_ok [OF assms, of addr] run_staging_ok [OF assms, of addr] by (cases split) auto
  have "run_graph ops split g st f addr = graph_result g (Inr (r, f', st'))"
    using r(1) by (cases split) (simp_all add: run_graph_def process_graph_def process_graph_parallel_def)
  with r(2,3) show ?thesis by (cases r) (auto simp: graph_result_def)
qed

end

section \<open>Properties\<close>

text \<open>
  When \<open>process_graph\<close> reports failure, it stopped at one node of the sequence: every stage
  before it succeeded on the frame of its predecessor, its own stage failed on what they made of the
  frame, it is the node recorded as failed, and no stage after it ran (a node that stands only
  there keeps its state).
\<close>

theorem graph_stops_at_failure:
  assumes "process_graph ops g st frame addr = Inr (False, g', frame', st')"
  shows "\<exists>ps node qs f1 st1 n'. execution_order g = ps @ node # qs \<and>
    process_graph ops (g\<lparr>execution_order := ps\<rparr>) st frame addr = Inr (True, g\<lparr>execution_order := ps\<rparr>, f1, st1) \<and>
    process_stage ops (st1 node) f1 addr = Inr (False, frame', n') \<and> st' = st1(node := n') \<and>
    get_last_failed_node g' = Some node \<and> (\<forall>k. k \<notin> set (ps @ [node]) \<longrightarrow> st' k = st k)"
proof -
  from assms obtain node where r: "run_stages ops (execution_order g) st frame addr = Inr (Some node, frame', st')"
    and g': "g' = g\<lparr>last_failed_node := Some node\<rparr>"
    by (auto simp: process_graph_def graph_result_def split: sum.splits option.splits prod.splits)
  from run_stages_failed [OF r] obtain ps qs f1 st1 n' where p: "execution_order g = ps @ node # qs"
    "run_stages ops ps st frame addr = Inr (None, f1, st1)"
    "process_stage ops (st1 node) f1 addr = Inr (False, frame', n')" "st' = st1(node := n')" by blast
  have "process_graph ops (g\<lparr>execution_order := ps\<rparr>) st frame addr = Inr (True, g\<lparr>execution_order := ps\<rparr>, f1, st1)"
    by (simp add: process_graph_def graph_result_def p(2))
  moreover have "st' k = st k" if "k \<notin> set (ps @ [node])" for k
    using run_stages_untouched [OF p(2), of k] that p(4) by auto
  ultimately show ?thesis
    using p g' by (intro exI [of _ ps] exI [of _ node] exI [of _ qs]) (auto simp: get_last_failed_node_def)
qed

text \<open>Three nodes: processor arrays, and between them a back end that was never initialised.\<close>

definition demo_store :: "nat \<Rightarrow> mock_context vulkan_backend + npu_backend" where
  "demo_store k = (if k = 1 then Inl new_vulkan_backend else Inr new_npu_backend)"

definition demo_graph :: node_graph where
  "demo_graph = add_node_to_sequence (add_node_to_sequence (add_node_to_sequence empty_graph 0) 1) 2"

theorem graph_stops_at_failure_witness:
  "\<exists>ps node qs. execution_order demo_graph = ps @ node # qs \<and> node = 1 \<and>
     (\<exists>g' st'. process_graph (sum_ops (vulkan_ops mock_driver) npu_ops) demo_graph demo_store frame_zero 0
        = Inr (False, g', frame_zero, st') \<and> get_last_failed_node g' = Some node)"
proof -
  let ?ops = "sum_ops (vulkan_ops mock_driver) npu_ops"
  let ?g' = "demo_graph\<lparr>last_failed_node := Some 1\<rparr>"
  have run: "process_graph ?ops demo_graph demo_store frame_zero 0 = Inr (False, ?g', frame_zero, demo_store)"
  proof -
    have "demo_store(0 := demo_store 0, Suc 0 := demo_store 1) = demo_store" by (simp add: fun_eq_iff)
    then show ?thesis
      by (simp add: process_graph_def graph_result_def demo_graph_def add_node_to_sequence_def empty_graph_def
          sum_ops_def vulkan_ops_def npu_ops_def vb_process_stage_def new_vulkan_backend_def demo_store_def fun_upd_idem)
  qed
  from graph_stops_at_failure [OF run] obtain ps node qs where
    "execution_order demo_graph = ps @ node # qs" "get_last_failed_node ?g' = Some node" by blast
  moreover from this have "node = 1" by (simp add: get_last_failed_node_def)
  ultimately show ?thesis using run by blast
qed

end
