(* ===== verification/Vulkan_Compute.thy ===== *)
theory Vulkan_Compute
  imports Backend
begin

text \<open>
  The Vulkan driver \<open>daemon/vulkan/vulkan_compute.c\<close>: device selection and set-up, the pool of
  256 handles for resident buffers, uploads, and the recording of a dispatch. The Vulkan API is a
  parameter, the record \<open>vk_api\<close> of its answers; the \<open>n\<close>-th fallible call of a context asks for
  answer number \<open>n\<close>. What the GPU computes is not modelled: a dispatch is recorded with the
  push constants, the work group count and the bindings the host passes.
\<close>

section \<open>The Vulkan API as a parameter\<close>

datatype vk_object = Instance | Device | Command_Pool | Shader_Module | Pipeline_Layout | Compute_Pipeline
  | Descriptor_Set_Layout | Descriptor_Pool | Descriptor_Set

text \<open>
  \<open>vk_creates\<close> tells whether a creation whose result the code ignores yields a handle;
  \<open>vk_create_device\<close> takes the number of extensions that are asked for. A successful memory
  allocation yields a handle and the bytes of the block.
\<close>

record vk_api =
  vk_create_instance :: bool
  vk_device_count :: u32
  vk_queue_families :: "u32 list"
  vk_create_device :: "nat \<Rightarrow> bool"
  vk_creates :: "vk_object \<Rightarrow> bool"
  spv_file :: bool
  vk_memory_types :: "u32 list"
  vk_create_buffer :: "nat \<Rightarrow> u64 \<Rightarrow> nat option"
  vk_memory_requirements :: "u64 \<Rightarrow> u64 \<times> u32"
  vk_allocate_memory :: "nat \<Rightarrow> u64 \<Rightarrow> u32 \<Rightarrow> (nat \<times> u8 list) option"
  vk_map_memory :: "nat \<Rightarrow> bool"
  vk_queue_submit :: "nat \<Rightarrow> bool"

section \<open>The context\<close>

record dsp_vulkan_buffer =
  vb_buffer :: nat
  vb_memory :: nat
  vb_size :: u64
  active :: bool

record vk_binding =
  bind_buffer :: nat
  bind_offset :: u64
  bind_range :: u64

record vk_dispatch =
  push_constants :: "f32 list"
  group_count :: u32
  dispatch_bindings :: "vk_binding list"

text \<open>
  The handles of the set-up are the list \<open>vk_objects\<close> of those that are not null. The last
  fields are the device's side: the number of fallible calls so far, the buffers and memory
  blocks that exist, the descriptor bindings, the dispatches submitted, and the descriptors of
  failed imports.
\<close>

record dsp_vulkan_context =
  physical_device :: int
  queue_family_index :: u32
  vk_objects :: "vk_object list"
  user_buffers :: "dsp_vulkan_buffer list"
  vk_calls :: nat
  live_buffers :: "nat list"
  device_memory :: "nat \<rightharpoonup> u8 list"
  vk_bindings :: "vk_binding list"
  submitted :: "vk_dispatch list"
  leaked_fds :: nat

definition no_buffer :: dsp_vulkan_buffer where
  "no_buffer = \<lparr>vb_buffer = 0, vb_memory = 0, vb_size = 0, active = False\<rparr>"

definition POOL_SIZE :: nat where
  "POOL_SIZE = 256"

section \<open>Set-up and tear-down\<close>

definition dsp_vulkan_enumerate_devices :: "vk_api \<Rightarrow> int" where
  "dsp_vulkan_enumerate_devices api =
     (if \<not> vk_create_instance api then 0 else sint (vk_device_count api))"

definition VK_QUEUE_COMPUTE_BIT :: u32 where
  "VK_QUEUE_COMPUTE_BIT = 2"

fun first_compute_family :: "u32 \<Rightarrow> u32 list \<Rightarrow> u32" where
  "first_compute_family i [] = 0xFFFFFFFF"
| "first_compute_family i (flags # fs) =
     (if flags AND VK_QUEUE_COMPUTE_BIT \<noteq> 0 then i else first_compute_family (i + 1) fs)"

text \<open>The objects \<open>dsp_vulkan_destroy\<close> destroys, in its order.\<close>

definition dsp_vulkan_destroy :: "vk_object list \<Rightarrow> vk_object list" where
  "dsp_vulkan_destroy objs =
     (if Device \<in> set objs then
        filter (\<lambda>x. x \<in> set objs)
          [Pipeline_Layout, Shader_Module, Compute_Pipeline, Descriptor_Pool, Descriptor_Set_Layout, Command_Pool]
        @ [Device]
      else [])
     @ (if Instance \<in> set objs then [Instance] else [])"

text \<open>The objects of the shader and pipeline set-up, created only if the shader file can be read.\<close>

definition pipeline_objects :: "vk_api \<Rightarrow> vk_object list" where
  "pipeline_objects api =
     filter (vk_creates api) [Command_Pool]
     @ (if spv_file api then
          filter (vk_creates api)
            [Shader_Module, Pipeline_Layout, Compute_Pipeline, Descriptor_Set_Layout, Descriptor_Pool, Descriptor_Set]
        else [])"

text \<open>The result is the context, or \<open>None\<close> with the objects that remain after a failure.\<close>

definition dsp_vulkan_init :: "vk_api \<Rightarrow> int \<Rightarrow> vk_object list + dsp_vulkan_context" where
  "dsp_vulkan_init api device_index =
     (let fail = (\<lambda>objs. Inl (filter (\<lambda>x. x \<notin> set (dsp_vulkan_destroy objs)) objs)) in
      if \<not> vk_create_instance api then Inl []
      else if vk_device_count api = 0 then fail [Instance]
      else if device_index < 0 \<or> vk_device_count api \<le> of_int device_index then fail [Instance]
      else if \<not> vk_create_device api 3 \<and> \<not> vk_create_device api 0 then fail [Instance]
      else Inr \<lparr>physical_device = device_index,
             queue_family_index = first_compute_family 0 (vk_queue_families api),
             vk_objects = Instance # Device # pipeline_objects api,
             user_buffers = replicate POOL_SIZE no_buffer,
             vk_calls = 0, live_buffers = [], device_memory = Map.empty, vk_bindings = [], submitted = [],
             leaked_fds = 0\<rparr>)"

section \<open>The buffer pool\<close>

text \<open>The index of the first inactive slot of the pool from \<open>i\<close> on; 0 if there is none.\<close>

fun first_free_from :: "nat \<Rightarrow> dsp_vulkan_buffer list \<Rightarrow> nat" where
  "first_free_from i [] = 0"
| "first_free_from i (b # bs) = (if \<not> active b then i else first_free_from (Suc i) bs)"

definition first_free :: "dsp_vulkan_buffer list \<Rightarrow> nat" where
  "first_free bs = first_free_from 1 (drop 1 bs)"

definition DEVICE_LOCAL :: u32 where
  "DEVICE_LOCAL = 1"

definition HOST_VISIBLE :: u32 where
  "HOST_VISIBLE = 2"

fun find_memory_type_from :: "nat \<Rightarrow> u32 list \<Rightarrow> u32 \<Rightarrow> u32 \<Rightarrow> int" where
  "find_memory_type_from i [] typeFilter properties = - 1"
| "find_memory_type_from i (flags # ts) typeFilter properties =
     (if typeFilter AND push_bit i 1 \<noteq> 0 \<and> flags AND properties = properties then int i
      else find_memory_type_from (Suc i) ts typeFilter properties)"

definition find_memory_type :: "vk_api \<Rightarrow> u32 \<Rightarrow> u32 \<Rightarrow> int" where
  "find_memory_type api typeFilter properties = find_memory_type_from 0 (vk_memory_types api) typeFilter properties"

text \<open>Stores into slot \<open>handle\<close> of the pool.\<close>

definition set_slot :: "dsp_vulkan_context \<Rightarrow> nat \<Rightarrow> (dsp_vulkan_buffer \<Rightarrow> dsp_vulkan_buffer) \<Rightarrow> dsp_vulkan_context" where
  "set_slot c h f = c\<lparr>user_buffers := (user_buffers c)[h := f (user_buffers c ! h)]\<rparr>"

text \<open>
  What allocation and import have in common after the memory type is chosen: allocate the memory,
  destroy the buffer again if that fails, else bind it and activate the slot.
\<close>

definition bind_slot :: "vk_api \<Rightarrow> dsp_vulkan_context \<Rightarrow> nat \<Rightarrow> nat \<Rightarrow> u64 \<Rightarrow> u64 \<Rightarrow> u32
    \<Rightarrow> u32 \<times> dsp_vulkan_context" where
  "bind_slot api c handle buf sz alloc_size mem_type =
     (case vk_allocate_memory api (vk_calls c) alloc_size mem_type of
        None \<Rightarrow> (0, c\<lparr>vk_calls := Suc (vk_calls c), live_buffers := removeAll buf (live_buffers c)\<rparr>)
      | Some (mem, bytes) \<Rightarrow>
          (of_nat handle,
           (set_slot c handle (\<lambda>b. b\<lparr>vb_memory := mem, vb_size := sz, active := True\<rparr>))
             \<lparr>vk_calls := Suc (vk_calls c), device_memory := (device_memory c)(mem \<mapsto> bytes)\<rparr>))"

definition create_buffer :: "vk_api \<Rightarrow> dsp_vulkan_context \<Rightarrow> nat \<Rightarrow> u64 \<Rightarrow> nat option \<times> dsp_vulkan_context" where
  "create_buffer api c handle sz =
     (case vk_create_buffer api (vk_calls c) sz of
        None \<Rightarrow> (None, c\<lparr>vk_calls := Suc (vk_calls c)\<rparr>)
      | Some buf \<Rightarrow>
          (Some buf, (set_slot c handle (\<lambda>b. b\<lparr>vb_buffer := buf\<rparr>))
             \<lparr>vk_calls := Suc (vk_calls c), live_buffers := buf # live_buffers c\<rparr>))"

definition dsp_vulkan_allocate_buffer :: "vk_api \<Rightarrow> dsp_vulkan_context option \<Rightarrow> u64
    \<Rightarrow> u32 \<times> dsp_vulkan_context option" where
  "dsp_vulkan_allocate_buffer api ctx sz =
     (case ctx of
        None \<Rightarrow> (0, None)
      | Some c \<Rightarrow>
          (let handle = first_free (user_buffers c) in
           if handle = 0 then (0, Some c)
           else case create_buffer api c handle sz of
               (None, c1) \<Rightarrow> (0, Some c1)
             | (Some buf, c1) \<Rightarrow>
                 (let (reqs_size, type_bits) = vk_memory_requirements api sz;
                      mem_type = find_memory_type api type_bits (DEVICE_LOCAL OR HOST_VISIBLE);
                      mem_type = (if mem_type < 0 then find_memory_type api type_bits HOST_VISIBLE else mem_type) in
                  if mem_type < 0 then (0, Some c1)
                  else let (h, c2) = bind_slot api c1 handle buf sz reqs_size (of_int mem_type) in (h, Some c2))))"

definition dsp_vulkan_free_buffer :: "dsp_vulkan_context option \<Rightarrow> u32 \<Rightarrow> dsp_vulkan_context option" where
  "dsp_vulkan_free_buffer ctx handle =
     (case ctx of
        None \<Rightarrow> None
      | Some c \<Rightarrow>
          (if handle = 0 \<or> 256 \<le> handle \<or> \<not> active (user_buffers c ! unat handle) then Some c
           else let b = user_buffers c ! unat handle in
             Some ((set_slot c (unat handle) (\<lambda>b. b\<lparr>active := False\<rparr>))
               \<lparr>live_buffers := removeAll (vb_buffer b) (live_buffers c),
                device_memory := (device_memory c)(vb_memory b := None)\<rparr>)))"

text \<open>
  An upload maps the memory of the slot and copies \<open>size\<close> bytes of \<open>data\<close> into it; neither size
  is compared with the size of the buffer.
\<close>

definition dsp_vulkan_upload_buffer :: "vk_api \<Rightarrow> dsp_vulkan_context option \<Rightarrow> u32 \<Rightarrow> u8 list \<Rightarrow> u64
    \<Rightarrow> (bool \<times> dsp_vulkan_context option) outcome" where
  "dsp_vulkan_upload_buffer api ctx handle data sz =
     (case ctx of
        None \<Rightarrow> Inr (False, None)
      | Some c \<Rightarrow>
          (if handle = 0 \<or> 256 \<le> handle \<or> \<not> active (user_buffers c ! unat handle) then Inr (False, Some c)
           else let c1 = c\<lparr>vk_calls := Suc (vk_calls c)\<rparr>; mem = vb_memory (user_buffers c ! unat handle) in
             if \<not> vk_map_memory api (vk_calls c) then Inr (False, Some c1)
             else case device_memory c mem of
                 None \<Rightarrow> Inl Out_Of_Bounds
               | Some mapped_data \<Rightarrow>
                   (case memcpy_at mapped_data 0 data (unat sz) of
                      Inl e \<Rightarrow> Inl e
                    | Inr bytes \<Rightarrow> Inr (True, Some (c1\<lparr>device_memory := (device_memory c)(mem \<mapsto> bytes)\<rparr>)))))"

text \<open>\<open>find_memory_type\<close> may return -1 here, which becomes the index \<open>0xFFFFFFFF\<close>.\<close>

definition dsp_vulkan_import_shm :: "vk_api \<Rightarrow> dsp_vulkan_context option \<Rightarrow> int \<Rightarrow> u64
    \<Rightarrow> u32 \<times> dsp_vulkan_context option" where
  "dsp_vulkan_import_shm api ctx fd sz =
     (case ctx of
        None \<Rightarrow> (0, None)
      | Some c \<Rightarrow>
          (if fd < 0 then (0, Some c)
           else let handle = first_free (user_buffers c) in
             if handle = 0 then (0, Some c)
             else case create_buffer api c handle sz of
                 (None, c1) \<Rightarrow> (0, Some c1)
               | (Some buf, c1) \<Rightarrow>
                   (let (reqs_size, type_bits) = vk_memory_requirements api sz;
                        (h, c2) = bind_slot api c1 handle buf sz reqs_size (of_int (find_memory_type api type_bits 0)) in
                    (h, Some (if h = 0 then c2\<lparr>leaked_fds := Suc (leaked_fds c2)\<rparr> else c2)))))"

section \<open>Dispatch\<close>

text \<open>The number of work groups of 64 samples, in \<open>uint32_t\<close> arithmetic.\<close>

definition work_groups :: "u32 \<Rightarrow> u32 \<Rightarrow> u32" where
  "work_groups frames channels = (let total_samples = frames * channels in (total_samples + 63) div 64)"

definition push_block :: "u32 \<Rightarrow> dsp_params \<Rightarrow> f32 list" where
  "push_block frames p = [of_integer binary32 (uint frames), gain p, threshold p, param1 p, param2 p,
     of_integer binary32 (uint (algo_id p))]"

text \<open>The sample pointer \<open>buffer\<close> is returned as it is: the driver never reads or writes through it.\<close>

definition dsp_vulkan_dispatch :: "vk_api \<Rightarrow> dsp_vulkan_context option \<Rightarrow> f32 list \<Rightarrow> u32 \<Rightarrow> u32
    \<Rightarrow> dsp_params \<Rightarrow> u32 \<Rightarrow> bool \<times> f32 list \<times> dsp_vulkan_context option" where
  "dsp_vulkan_dispatch api ctx buffer frames channels p state_handle =
     (case ctx of
        None \<Rightarrow> (False, buffer, None)
      | Some c \<Rightarrow>
          (let c1 = c\<lparr>vk_calls := Suc (vk_calls c)\<rparr> in
           if \<not> vk_queue_submit api (vk_calls c) then (False, buffer, Some c1)
           else (True, buffer, Some (c1\<lparr>submitted := submitted c @
                  [\<lparr>push_constants = push_block frames p, group_count = work_groups frames channels,
                    dispatch_bindings = vk_bindings c\<rparr>]\<rparr>))))"

definition dsp_vulkan_dispatch_zero_copy :: "vk_api \<Rightarrow> dsp_vulkan_context option \<Rightarrow> u32 \<Rightarrow> u32 \<Rightarrow> u32 \<Rightarrow> u32
    \<Rightarrow> dsp_params \<Rightarrow> u32 \<Rightarrow> (bool \<times> dsp_vulkan_context option) outcome" where
  "dsp_vulkan_dispatch_zero_copy api ctx handle offset frames channels p state_handle =
     (case ctx of
        None \<Rightarrow> Inr (False, None)
      | Some c \<Rightarrow>
          (if length (user_buffers c) \<le> unat handle then Inl Out_Of_Bounds
           else if \<not> active (user_buffers c ! unat handle) then Inr (False, Some c)
           else if length (user_buffers c) \<le> unat state_handle then Inl Out_Of_Bounds
           else let audio = \<lparr>bind_buffer = vb_buffer (user_buffers c ! unat handle), bind_offset = ucast offset,
                      bind_range = ucast (frames * channels) * 4\<rparr>;
                    state = \<lparr>bind_buffer = vb_buffer (user_buffers c ! unat state_handle), bind_offset = 0,
                      bind_range = vb_size (user_buffers c ! unat state_handle)\<rparr>;
                    (ok, buf, ctx') = dsp_vulkan_dispatch api (Some (c\<lparr>vk_bindings := [audio, state]\<rparr>)) []
                      frames channels p state_handle
                in Inr (ok, ctx')))"

section \<open>The pool\<close>

definition pool_wf :: "dsp_vulkan_context \<Rightarrow> bool" where
  "pool_wf c \<longleftrightarrow> length (user_buffers c) = POOL_SIZE \<and> \<not> active (user_buffers c ! 0)"

text \<open>Which slots are in use.\<close>

definition in_use :: "dsp_vulkan_context \<Rightarrow> bool list" where
  "in_use c = map active (user_buffers c)"

lemma length_in_use: "pool_wf c \<Longrightarrow> length (in_use c) = POOL_SIZE"
  by (simp add: in_use_def pool_wf_def)

lemma first_free_from_spec:
  "0 < i \<Longrightarrow> (if first_free_from i bs = 0 then list_all active bs
     else i \<le> first_free_from i bs \<and> first_free_from i bs < i + length bs \<and>
       \<not> active (bs ! (first_free_from i bs - i)) \<and> (\<forall>k < first_free_from i bs - i. active (bs ! k)))"
proof (induction i bs rule: first_free_from.induct)
  case (2 i b bs)
  show ?case
  proof (cases "active b")
    case True
    with 2 have ih: "if first_free_from (Suc i) bs = 0 then list_all active bs
      else Suc i \<le> first_free_from (Suc i) bs \<and> first_free_from (Suc i) bs < Suc i + length bs \<and>
       \<not> active (bs ! (first_free_from (Suc i) bs - Suc i)) \<and>
       (\<forall>k < first_free_from (Suc i) bs - Suc i. active (bs ! k))" by simp
    show ?thesis
    proof (cases "first_free_from (Suc i) bs = 0")
      case False
      with ih have "Suc i \<le> first_free_from (Suc i) bs" by simp
      then have l: "first_free_from (Suc i) bs - i = Suc (first_free_from (Suc i) bs - Suc i)" by arith
      then have "active ((b # bs) ! k)" if "k < first_free_from (Suc i) bs - i" for k
        using that ih True False by (cases k) auto
      with ih True False l show ?thesis by simp
    qed (use ih True in simp)
  qed (use 2 in simp)
qed simp

lemma first_free_spec:
  assumes "pool_wf c"
  shows "if first_free (user_buffers c) = 0 then (\<forall>k. 0 < k \<and> k < POOL_SIZE \<longrightarrow> in_use c ! k)
     else first_free (user_buffers c) < POOL_SIZE \<and> \<not> in_use c ! first_free (user_buffers c) \<and>
       (\<forall>k. 0 < k \<and> k < first_free (user_buffers c) \<longrightarrow> in_use c ! k)"
proof -
  let ?bs = "user_buffers c" and ?f = "first_free (user_buffers c)"
  have len: "length ?bs = POOL_SIZE" using assms by (simp add: pool_wf_def)
  have P: "0 < POOL_SIZE" by (simp add: POOL_SIZE_def)
  have nth: "drop 1 ?bs ! (k - 1) = ?bs ! k" if "0 < k" "k < POOL_SIZE" for k
    using that len by simp
  show ?thesis
  proof (cases "?f = 0")
    case True
    then have "list_all active (drop 1 ?bs)"
      using first_free_from_spec [of 1 "drop 1 ?bs"] by (simp add: first_free_def)
    then have "active (drop 1 ?bs ! (k - 1))" if "0 < k" "k < POOL_SIZE" for k
      using that len by (cases k) (simp_all add: list_all_length)
    with True nth len show ?thesis by (simp add: in_use_def)
  next
    case False
    then have s: "1 \<le> ?f" "?f < 1 + length (drop 1 ?bs)" "\<not> active (drop 1 ?bs ! (?f - 1))"
      "\<And>k. k < ?f - 1 \<Longrightarrow> active (drop 1 ?bs ! k)"
      using first_free_from_spec [of 1 "drop 1 ?bs"] by (simp_all add: first_free_def)
    from s(2) len P have lt: "?f < POOL_SIZE" by simp
    moreover have "\<not> active (?bs ! ?f)" using s(1,3) nth [of ?f] lt by simp
    moreover have "active (?bs ! k)" if "0 < k" "k < ?f" for k
      using s(4) [of "k - 1"] nth [of k] that lt by simp
    ultimately show ?thesis using False len by (simp add: in_use_def)
  qed
qed

lemma set_slot_simps [simp]:
  "length (user_buffers (set_slot c h f)) = length (user_buffers c)"
  "live_buffers (set_slot c h f) = live_buffers c" "device_memory (set_slot c h f) = device_memory c"
  "vk_calls (set_slot c h f) = vk_calls c"
  by (simp_all add: set_slot_def)

lemma in_use_set_slot:
  "h < length (user_buffers c) \<Longrightarrow> in_use (set_slot c h f) = (in_use c)[h := active (f (user_buffers c ! h))]"
  by (simp add: in_use_def set_slot_def map_update)

lemma in_use_congs [simp]:
  "in_use (c\<lparr>vk_calls := n\<rparr>) = in_use c" "in_use (c\<lparr>live_buffers := l\<rparr>) = in_use c"
  "in_use (c\<lparr>device_memory := d\<rparr>) = in_use c" "in_use (c\<lparr>leaked_fds := k\<rparr>) = in_use c"
  "in_use (c\<lparr>vk_bindings := b\<rparr>) = in_use c" "in_use (c\<lparr>submitted := s\<rparr>) = in_use c"
  by (simp_all add: in_use_def)

lemma pool_wf_in_use: "pool_wf c \<longleftrightarrow> length (in_use c) = POOL_SIZE \<and> \<not> in_use c ! 0"
proof -
  have "0 < POOL_SIZE" by (simp add: POOL_SIZE_def)
  then show ?thesis by (auto simp: pool_wf_def in_use_def)
qed

section \<open>What allocation and import do\<close>

lemma create_buffer_cases:
  assumes "create_buffer api c h sz = (r, c1)" "h < length (user_buffers c)"
  shows "in_use c1 = in_use c \<and> length (user_buffers c1) = length (user_buffers c)
    \<and> (r = None \<longrightarrow> live_buffers c1 = live_buffers c)
    \<and> (\<forall>buf. r = Some buf \<longrightarrow> live_buffers c1 = buf # live_buffers c \<and> vb_buffer (user_buffers c1 ! h) = buf \<and>
         vk_create_buffer api (vk_calls c) sz = Some buf)
    \<and> device_memory c1 = device_memory c \<and> vk_calls c1 = Suc (vk_calls c) \<and> leaked_fds c1 = leaked_fds c
    \<and> (\<forall>k. k \<noteq> h \<longrightarrow> user_buffers c1 ! k = user_buffers c ! k)"
proof -
  have "in_use (set_slot c h (\<lambda>b. b\<lparr>vb_buffer := buf\<rparr>)) = in_use c" for buf
    using assms(2) in_use_set_slot [of h c "\<lambda>b. b\<lparr>vb_buffer := buf\<rparr>"]
    by (simp add: in_use_def list_update_same_conv)
  then show ?thesis
    using assms by (auto simp: create_buffer_def set_slot_def split: option.splits)
qed

text \<open>The outcome of \<open>bind_slot\<close>: failure destroys the buffer again, success activates the slot.\<close>

lemma bind_slot_cases:
  assumes "bind_slot api c h buf sz asz mt = (r, c1)" "h < length (user_buffers c)" "0 < h" "h < 256"
  shows "(r = 0 \<and> in_use c1 = in_use c \<and> live_buffers c1 = removeAll buf (live_buffers c) \<and>
            user_buffers c1 = user_buffers c \<and> device_memory c1 = device_memory c)
       \<or> (unat r = h \<and> in_use c1 = (in_use c)[h := True] \<and> live_buffers c1 = live_buffers c \<and>
            vb_size (user_buffers c1 ! h) = sz \<and> vb_buffer (user_buffers c1 ! h) = vb_buffer (user_buffers c ! h) \<and>
            (\<exists>bytes. vk_allocate_memory api (vk_calls c) asz mt = Some (vb_memory (user_buffers c1 ! h), bytes) \<and>
               device_memory c1 = (device_memory c)(vb_memory (user_buffers c1 ! h) \<mapsto> bytes)) \<and>
            (\<forall>k. k \<noteq> h \<longrightarrow> user_buffers c1 ! k = user_buffers c ! k))"
proof (cases "vk_allocate_memory api (vk_calls c) asz mt")
  case None
  with assms(1) show ?thesis by (auto simp: bind_slot_def)
next
  case (Some r')
  obtain mem bytes where "r' = (mem, bytes)" by fastforce
  moreover have "unat (of_nat h :: u32) = h"
    using assms(4) by (simp add: unat_of_nat take_bit_nat_eq_self)
  ultimately show ?thesis
    using assms Some by (auto simp: bind_slot_def in_use_set_slot) (simp_all add: set_slot_def)
qed

lemma first_free_bounds:
  "pool_wf c \<Longrightarrow> first_free (user_buffers c) \<noteq> 0 \<Longrightarrow>
     first_free (user_buffers c) < length (user_buffers c) \<and> 0 < first_free (user_buffers c) \<and> first_free (user_buffers c) < 256"
  using first_free_spec [of c] by (auto simp: pool_wf_def POOL_SIZE_def)

text \<open>Both ways to take a handle, in terms of which slots are in use.\<close>

definition takes_handle :: "dsp_vulkan_context \<Rightarrow> u32 \<Rightarrow> u64 \<Rightarrow> dsp_vulkan_context \<Rightarrow> bool" where
  "takes_handle c h sz c' \<longleftrightarrow>
     (if h = 0 then in_use c' = in_use c
      else unat h = first_free (user_buffers c) \<and> in_use c' = (in_use c)[unat h := True] \<and>
        vb_size (user_buffers c' ! unat h) = sz \<and>
        (\<forall>k. k \<noteq> unat h \<longrightarrow> user_buffers c' ! k = user_buffers c ! k))"

lemma takes_handle_nonzero:
  assumes "takes_handle c h sz c'" "h \<noteq> 0"
  shows "first_free (user_buffers c) \<noteq> 0" "unat h \<noteq> 0"
proof -
  show "unat h \<noteq> 0" using assms(2) by (simp only: unat_eq_zero not_False_eq_True)
  moreover have "unat h = first_free (user_buffers c)" using assms by (simp add: takes_handle_def)
  ultimately show "first_free (user_buffers c) \<noteq> 0" by metis
qed

lemma takes_handle_wf:
  assumes "pool_wf c" "takes_handle c h sz c'"
  shows "pool_wf c'" and "unat h < 256"
proof -
  show "unat h < 256"
    using assms(2) first_free_bounds [OF assms(1)] takes_handle_nonzero [OF assms(2)]
    by (cases "h = 0") (simp_all add: takes_handle_def)
  have "0 < POOL_SIZE" by (simp add: POOL_SIZE_def)
  then show "pool_wf c'"
    using assms takes_handle_nonzero [OF assms(2)]
    by (cases "h = 0") (simp_all add: takes_handle_def pool_wf_in_use)
qed

lemma allocate_takes_handle:
  assumes "pool_wf c"
  shows "\<exists>h c'. dsp_vulkan_allocate_buffer api (Some c) sz = (h, Some c') \<and> takes_handle c h sz c'"
proof (cases "first_free (user_buffers c) = 0")
  case True
  then show ?thesis by (simp add: dsp_vulkan_allocate_buffer_def takes_handle_def)
next
  case False
  let ?f = "first_free (user_buffers c)"
  note b = first_free_bounds [OF assms False]
  obtain r c1 where cb: "create_buffer api c ?f sz = (r, c1)" by fastforce
  note c1 = create_buffer_cases [OF cb conjunct1 [OF b]]
  show ?thesis
  proof (cases r)
    case None
    with cb c1 False show ?thesis by (simp add: dsp_vulkan_allocate_buffer_def takes_handle_def)
  next
    case (Some buf)
    obtain rs tb where rq: "vk_memory_requirements api sz = (rs, tb)" by fastforce
    define mt where "mt = (let m = find_memory_type api tb (DEVICE_LOCAL OR HOST_VISIBLE)
      in if m < 0 then find_memory_type api tb HOST_VISIBLE else m)"
    obtain h c2 where bs: "bind_slot api c1 ?f buf sz rs (of_int mt) = (h, c2)" by fastforce
    have eq: "dsp_vulkan_allocate_buffer api (Some c) sz = (if mt < 0 then (0, Some c1) else (h, Some c2))"
      using False cb Some rq bs by (simp add: dsp_vulkan_allocate_buffer_def mt_def Let_def)
    have "takes_handle c 0 sz c1" using c1 by (simp add: takes_handle_def)
    moreover have "takes_handle c h sz c2"
      using bind_slot_cases [OF bs] b c1 by (auto simp: takes_handle_def unat_eq_zero)
    ultimately show ?thesis using eq by auto
  qed
qed

lemma import_takes_handle:
  assumes "pool_wf c"
  shows "\<exists>h c'. dsp_vulkan_import_shm api (Some c) fd sz = (h, Some c') \<and> takes_handle c h sz c'"
proof (cases "fd < 0 \<or> first_free (user_buffers c) = 0")
  case True
  then show ?thesis by (auto simp: dsp_vulkan_import_shm_def takes_handle_def)
next
  case False
  let ?f = "first_free (user_buffers c)"
  have nz: "?f \<noteq> 0" using False by simp
  note b = first_free_bounds [OF assms nz]
  obtain r c1 where cb: "create_buffer api c ?f sz = (r, c1)" by fastforce
  note c1 = create_buffer_cases [OF cb conjunct1 [OF b]]
  show ?thesis
  proof (cases r)
    case None
    with cb c1 False show ?thesis by (simp add: dsp_vulkan_import_shm_def takes_handle_def)
  next
    case (Some buf)
    obtain rs tb where rq: "vk_memory_requirements api sz = (rs, tb)" by fastforce
    obtain h c2 where bs: "bind_slot api c1 ?f buf sz rs (of_int (find_memory_type api tb 0)) = (h, c2)" by fastforce
    have "dsp_vulkan_import_shm api (Some c) fd sz
      = (h, Some (if h = 0 then c2\<lparr>leaked_fds := Suc (leaked_fds c2)\<rparr> else c2))"
      using False cb Some rq bs by (simp add: dsp_vulkan_import_shm_def)
    moreover have "takes_handle c h sz (if h = 0 then c2\<lparr>leaked_fds := Suc (leaked_fds c2)\<rparr> else c2)"
      using bind_slot_cases [OF bs] b c1 by (auto simp: takes_handle_def unat_eq_zero)
    ultimately show ?thesis by blast
  qed
qed

lemma free_slot:
  assumes "pool_wf c"
  shows "\<exists>c'. dsp_vulkan_free_buffer (Some c) h = Some c' \<and> pool_wf c' \<and>
    in_use c' = (if unat h < POOL_SIZE then (in_use c)[unat h := False] else in_use c)"
proof -
  have l: "length (user_buffers c) = POOL_SIZE" "\<not> active (user_buffers c ! 0)"
    using assms by (simp_all add: pool_wf_def)
  have lt: "256 \<le> h \<longleftrightarrow> \<not> unat h < POOL_SIZE"
    by (simp add: POOL_SIZE_def word_le_nat_alt not_less)
  show ?thesis
  proof (cases "h = 0 \<or> 256 \<le> h \<or> \<not> active (user_buffers c ! unat h)")
    case True
    then have "dsp_vulkan_free_buffer (Some c) h = Some c" by (auto simp: dsp_vulkan_free_buffer_def)
    moreover have "(in_use c)[unat h := False] = in_use c" if "unat h < POOL_SIZE"
      using True that l lt by (auto simp: in_use_def list_update_same_conv)
    ultimately show ?thesis using assms by simp
  next
    case False
    let ?b = "user_buffers c ! unat h"
    let ?c' = "(set_slot c (unat h) (\<lambda>b. b\<lparr>active := False\<rparr>))\<lparr>live_buffers := removeAll (vb_buffer ?b) (live_buffers c),
      device_memory := (device_memory c)(vb_memory ?b := None)\<rparr>"
    have e: "dsp_vulkan_free_buffer (Some c) h = Some ?c'"
      using False by (simp add: dsp_vulkan_free_buffer_def Let_def)
    have u: "in_use ?c' = (in_use c)[unat h := False]"
      using False lt l by (simp add: in_use_set_slot)
    moreover have "pool_wf ?c'"
      using assms u by (cases "unat h = 0") (auto simp: pool_wf_in_use POOL_SIZE_def)
    ultimately show ?thesis using e False lt by auto
  qed
qed

lemma upload_keeps_pool:
  "pool_wf c \<Longrightarrow> dsp_vulkan_upload_buffer api (Some c) h data sz = Inr (ok, ctx') \<Longrightarrow>
     \<exists>c'. ctx' = Some c' \<and> pool_wf c' \<and> in_use c' = in_use c"
  by (auto simp: dsp_vulkan_upload_buffer_def Let_def pool_wf_in_use split: if_splits option.splits sum.splits)

lemma init_pool_wf: "dsp_vulkan_init api i = Inr c \<Longrightarrow> pool_wf c"
  by (auto simp: dsp_vulkan_init_def Let_def pool_wf_def POOL_SIZE_def no_buffer_def split: if_splits)

section \<open>The driver as an instance of its interface\<close>

definition real_init :: "vk_api \<Rightarrow> int \<Rightarrow> dsp_vulkan_context option" where
  "real_init api i = (case dsp_vulkan_init api i of Inl objs \<Rightarrow> None | Inr c \<Rightarrow> Some c)"

definition real_driver :: "vk_api \<Rightarrow> dsp_vulkan_context vk_driver" where
  "real_driver api = \<lparr>drv_init = real_init api,
     drv_dispatch = (\<lambda>ctx xs fc cc p h. Inr (dsp_vulkan_dispatch api ctx xs fc cc p h)),
     drv_dispatch_zero_copy = dsp_vulkan_dispatch_zero_copy api,
     drv_allocate = dsp_vulkan_allocate_buffer api,
     drv_upload = dsp_vulkan_upload_buffer api,
     drv_free = dsp_vulkan_free_buffer,
     drv_import = dsp_vulkan_import_shm api\<rparr>"

lemma dispatch_keeps_pool:
  assumes "pool_wf c"
  shows "\<exists>ok c'. dsp_vulkan_dispatch api (Some c) xs fc cc p h = (ok, xs, Some c') \<and> pool_wf c' \<and> in_use c' = in_use c"
  using assms by (auto simp: dsp_vulkan_dispatch_def Let_def pool_wf_in_use)

interpretation real: vulkan_driver "real_driver api" pool_wf
proof unfold_locales
  show "pool_wf c" if "drv_init (real_driver api) i = Some c" for i c
    using that init_pool_wf [of api i c] by (auto simp: real_driver_def real_init_def split: sum.splits)
  show "\<exists>ok ys c'. drv_dispatch (real_driver api) (Some c) xs fc cc p h = Inr (ok, ys, Some c') \<and>
      length ys = MAX_SAMPLES \<and> pool_wf c'"
    if "pool_wf c" "length xs = MAX_SAMPLES" for c xs fc cc p h
    using dispatch_keeps_pool [OF that(1), of api xs fc cc p h] that(2) by (auto simp: real_driver_def)
  show "\<exists>ok c'. drv_dispatch_zero_copy (real_driver api) (Some c) h off fc cc p sh = Inr (ok, Some c') \<and> pool_wf c'"
    if "pool_wf c" "unat h < 256" "unat sh < 256" for c h sh off fc cc p
  proof -
    have "length (user_buffers c) = 256" using that(1) by (simp add: pool_wf_def POOL_SIZE_def)
    moreover have "pool_wf (c\<lparr>vk_bindings := bs\<rparr>)" for bs using that(1) by (simp add: pool_wf_in_use)
    ultimately show ?thesis
      using that dispatch_keeps_pool [of "c\<lparr>vk_bindings := bs\<rparr>" api "[]" fc cc p sh for bs]
      by (auto simp: real_driver_def dsp_vulkan_dispatch_zero_copy_def Let_def split: prod.splits)
        (metis prod.inject)
  qed
  show "\<exists>h c'. drv_allocate (real_driver api) (Some c) n = (h, Some c') \<and> unat h < 256 \<and> pool_wf c'"
    if "pool_wf c" for c n
    using allocate_takes_handle [OF that, of api n] takes_handle_wf [OF that]
    by (auto simp: real_driver_def)
  show "\<exists>c'. ctx' = Some c' \<and> pool_wf c'"
    if "pool_wf c" "drv_upload (real_driver api) (Some c) h data n = Inr (ok, ctx')" for c h data n ok ctx'
    using upload_keeps_pool [OF that(1)] that(2) by (fastforce simp: real_driver_def)
  show "\<exists>c'. drv_free (real_driver api) (Some c) h = Some c' \<and> pool_wf c'" if "pool_wf c" for c h
    using free_slot [OF that, of h] by (auto simp: real_driver_def)
  show "\<exists>h c'. drv_import (real_driver api) (Some c) fd n = (h, Some c') \<and> unat h < 256 \<and> pool_wf c'"
    if "pool_wf c" for c fd n
    using import_takes_handle [OF that, of api fd n] takes_handle_wf [OF that]
    by (auto simp: real_driver_def)
qed

section \<open>Properties\<close>

text \<open>
  Allocation returns 0 and leaves every slot's state as it was, or it returns the lowest free
  handle, between 1 and 255, marks exactly that slot as in use and records the requested size; when
  the pool is full it returns 0. The reserved handle 0 is never in use.
\<close>

theorem allocate_lowest_free_handle:
  assumes "pool_wf c" "dsp_vulkan_allocate_buffer api (Some c) sz = (h, ctx')"
  shows "\<exists>c'. ctx' = Some c' \<and> pool_wf c' \<and> unat h < POOL_SIZE \<and>
    (if h = 0 then in_use c' = in_use c
     else \<not> in_use c ! unat h \<and> in_use c' = (in_use c)[unat h := True] \<and> vb_size (user_buffers c' ! unat h) = sz \<and>
       (\<forall>k. 0 < k \<and> k < unat h \<longrightarrow> in_use c ! k))
    \<and> ((\<forall>k. 0 < k \<and> k < POOL_SIZE \<longrightarrow> in_use c ! k) \<longrightarrow> h = 0)"
proof -
  obtain c' where c': "ctx' = Some c'" "takes_handle c h sz c'"
    using allocate_takes_handle [OF assms(1), of api sz] assms(2) by auto
  note wf = takes_handle_wf [OF assms(1) c'(2)] and f = first_free_spec [OF assms(1)]
  have nz: "unat h \<noteq> 0" if "h \<noteq> 0" using that by (simp only: unat_eq_zero not_False_eq_True)
  have "h = 0 \<or> (unat h = first_free (user_buffers c) \<and> unat h \<noteq> 0)"
    using c'(2) nz by (auto simp: takes_handle_def)
  then show ?thesis
    using c' wf f by (cases "h = 0") (auto simp: takes_handle_def POOL_SIZE_def)
qed

text \<open>An API whose device has one memory type, host visible and device local, and where every call succeeds:
  the \<open>n\<close>-th call yields the handle \<open>n + 1\<close> and a block of eight bytes.\<close>

definition demo_api :: vk_api where
  "demo_api = \<lparr>vk_create_instance = True, vk_device_count = 1, vk_queue_families = [1, 6],
     vk_create_device = (\<lambda>n. n = 0), vk_creates = (\<lambda>x. True), spv_file = True, vk_memory_types = [1, 3],
     vk_create_buffer = (\<lambda>n sz. Some (n + 1)), vk_memory_requirements = (\<lambda>sz. (sz, 3)),
     vk_allocate_memory = (\<lambda>n sz t. Some (n + 1, replicate 8 0)), vk_map_memory = (\<lambda>n. True),
     vk_queue_submit = (\<lambda>n. True)\<rparr>"

definition demo_context :: dsp_vulkan_context where
  "demo_context = \<lparr>physical_device = 0, queue_family_index = 1, vk_objects = [Instance, Device],
     user_buffers = replicate POOL_SIZE no_buffer, vk_calls = 0, live_buffers = [], device_memory = Map.empty,
     vk_bindings = [], submitted = [], leaked_fds = 0\<rparr>"

lemma pool_wf_demo [simp]: "pool_wf demo_context"
  by (simp add: pool_wf_def demo_context_def POOL_SIZE_def no_buffer_def)

lemma demo_first_free: "first_free (user_buffers demo_context) = 1"
  by (simp add: first_free_def demo_context_def POOL_SIZE_def no_buffer_def numeral_eq_Suc)

theorem allocate_lowest_free_handle_witness:
  "\<exists>h ctx'. dsp_vulkan_allocate_buffer demo_api (Some demo_context) 8 = (h, ctx') \<and> unat h < POOL_SIZE"
  using allocate_lowest_free_handle [OF pool_wf_demo] by (metis surj_pair)

text \<open>
  C35: A handle's life cycle leaves no trace, whatever else the context holds: when the two calls that the
  allocation makes hand out a buffer and a memory block that do not exist at that moment (a new object
  is none of the existing ones), freeing the handle that the allocation returned restores the pool, the
  existing buffers and the device memory to what they were before; freeing it again changes nothing.
\<close>

theorem allocate_free_roundtrip:
  assumes "pool_wf c" "dsp_vulkan_allocate_buffer api (Some c) sz = (h, ctx1)" "h \<noteq> 0"
    and "\<And>buf. vk_create_buffer api (vk_calls c) sz = Some buf \<Longrightarrow> buf \<notin> set (live_buffers c)"
    and "\<And>asz mt mem bytes. vk_allocate_memory api (Suc (vk_calls c)) asz mt = Some (mem, bytes) \<Longrightarrow> device_memory c mem = None"
  shows "\<exists>c2. dsp_vulkan_free_buffer ctx1 h = Some c2 \<and> in_use c2 = in_use c \<and>
    live_buffers c2 = live_buffers c \<and> device_memory c2 = device_memory c \<and>
    dsp_vulkan_free_buffer (Some c2) h = Some c2"
proof -
  let ?f = "first_free (user_buffers c)"
  have nz: "?f \<noteq> 0"
  proof
    assume "?f = 0"
    with assms(2,3) show False by (simp add: dsp_vulkan_allocate_buffer_def)
  qed
  note b = first_free_bounds [OF assms(1) nz]
  obtain r c1 where cb: "create_buffer api c ?f sz = (r, c1)" by fastforce
  note c1 = create_buffer_cases [OF cb conjunct1 [OF b]]
  obtain buf where r: "r = Some buf" using assms(2,3) cb nz by (cases r) (auto simp: dsp_vulkan_allocate_buffer_def)
  obtain rs mt c2 where bs: "bind_slot api c1 ?f buf sz rs mt = (h, c2)" "ctx1 = Some c2"
    using assms(2,3) cb nz r
    by (auto simp: dsp_vulkan_allocate_buffer_def Let_def split: prod.splits if_splits)
  have len: "?f < length (user_buffers c1)" using b c1 by simp
  have free: "\<not> in_use c ! ?f" using first_free_spec [OF assms(1)] nz by simp
  from bind_slot_cases [OF bs(1) len] b assms(3) obtain bytes where
    c2: "unat h = ?f" "in_use c2 = (in_use c1)[?f := True]" "live_buffers c2 = live_buffers c1"
      "vb_buffer (user_buffers c2 ! ?f) = vb_buffer (user_buffers c1 ! ?f)"
    and m: "vk_allocate_memory api (vk_calls c1) rs mt = Some (vb_memory (user_buffers c2 ! ?f), bytes)"
      "device_memory c2 = (device_memory c1)(vb_memory (user_buffers c2 ! ?f) \<mapsto> bytes)"
    by auto
  have l2: "length (user_buffers c2) = length (user_buffers c)" "?f < length (in_use c)"
    using c2(2) c1 b by (auto simp: in_use_def dest: arg_cong [where f = length])
  have h: "h \<noteq> 0" "\<not> 256 \<le> h" using assms(3) c2(1) b by (auto simp: word_le_nat_alt)
  have "in_use c2 ! ?f" using c2(2) c1 l2 by simp
  then have act: "active (user_buffers c2 ! unat h)" using c2(1) l2 b by (simp add: in_use_def)
  let ?c3 = "(set_slot c2 (unat h) (\<lambda>b. b\<lparr>active := False\<rparr>))\<lparr>live_buffers := removeAll buf (live_buffers c2),
      device_memory := (device_memory c2)(vb_memory (user_buffers c2 ! ?f) := None)\<rparr>"
  have e: "dsp_vulkan_free_buffer (Some c2) h = Some ?c3"
    using h act c2(1,4) c1 r by (simp add: dsp_vulkan_free_buffer_def Let_def)
  have "in_use ?c3 = in_use c"
    using c2 c1 l2 b free by (simp add: in_use_set_slot list_update_same_conv)
  moreover have "buf \<notin> set (live_buffers c)" using c1 r assms(4) [of buf] by simp
  then have "live_buffers ?c3 = live_buffers c" using c2 c1 r by (simp add: removeAll_id)
  moreover have "device_memory ?c3 = device_memory c"
    using m(2) assms(5) [of rs mt] m(1) c1 by (auto simp: fun_eq_iff)
  moreover have "\<not> active (user_buffers ?c3 ! unat h)"
    using l2 b c2(1) by (simp add: set_slot_def)
  then have "dsp_vulkan_free_buffer (Some ?c3) h = Some ?c3"
    unfolding dsp_vulkan_free_buffer_def by simp
  ultimately show ?thesis using e bs(2) by (intro exI [of _ ?c3]) simp
qed

lemma demo_allocate: "fst (dsp_vulkan_allocate_buffer demo_api (Some demo_context) 8) = 1"
  by code_simp

text \<open>A context with a live allocation, made by the driver itself.\<close>

definition demo_allocated :: dsp_vulkan_context where
  "demo_allocated = the (snd (dsp_vulkan_allocate_buffer demo_api (Some demo_context) 8))"

lemma demo_allocated_facts:
  "vk_calls demo_allocated = 2" "live_buffers demo_allocated = [1]" "length (user_buffers demo_allocated) = 256"
  "in_use demo_allocated ! 0 = False" "in_use demo_allocated ! 1 = True"
  "device_memory demo_allocated 2 = Some (replicate 8 0)" "device_memory demo_allocated 4 = None"
  "fst (dsp_vulkan_allocate_buffer demo_api (Some demo_allocated) 16) = 2"
  by code_simp+

lemma demo_allocated_wf: "pool_wf demo_allocated"
  using demo_allocated_facts(3,4) by (simp add: pool_wf_in_use in_use_def POOL_SIZE_def)

theorem allocate_free_roundtrip_witness:
  "\<exists>ctx1 c2. dsp_vulkan_allocate_buffer demo_api (Some demo_allocated) 16 = (2, ctx1) \<and>
    dsp_vulkan_free_buffer ctx1 2 = Some c2 \<and> in_use c2 = in_use demo_allocated \<and> in_use c2 ! 1 \<and>
    live_buffers c2 = [1] \<and> device_memory c2 2 = Some (replicate 8 0)"
proof -
  obtain ctx1 where a: "dsp_vulkan_allocate_buffer demo_api (Some demo_allocated) 16 = (2, ctx1)"
    using demo_allocated_facts(8) by (metis prod.collapse)
  have "(2::u32) \<noteq> 0" by simp
  moreover have "buf \<notin> set (live_buffers demo_allocated)" if "vk_create_buffer demo_api (vk_calls demo_allocated) 16 = Some buf" for buf
    using that by (simp add: demo_allocated_facts demo_api_def)
  moreover have "device_memory demo_allocated mem = None"
    if "vk_allocate_memory demo_api (Suc (vk_calls demo_allocated)) asz mt = Some (mem, bytes)" for asz mt mem bytes
    using that by (simp add: demo_allocated_facts demo_api_def)
  ultimately show ?thesis
    using allocate_free_roundtrip [OF demo_allocated_wf a] a demo_allocated_facts(2,5,6) by metis
qed

text \<open>
  The memory type search returns the first type that the filter allows and that has all the
  requested properties, and -1 exactly when there is none.
\<close>

theorem find_memory_type_first:
  "let fits = (\<lambda>i. typeFilter AND push_bit i 1 \<noteq> 0 \<and> vk_memory_types api ! i AND properties = properties);
       n = length (vk_memory_types api); r = find_memory_type api typeFilter properties
   in (r = - 1 \<and> \<not> (\<exists>i < n. fits i)) \<or> (\<exists>i < n. r = int i \<and> fits i \<and> \<not> (\<exists>j < i. fits j))"
proof -
  have "(find_memory_type_from k ts typeFilter properties = - 1 \<and>
      \<not> (\<exists>i < length ts. typeFilter AND push_bit (k + i) 1 \<noteq> 0 \<and> ts ! i AND properties = properties))
    \<or> (\<exists>i < length ts. find_memory_type_from k ts typeFilter properties = int (k + i) \<and>
        typeFilter AND push_bit (k + i) 1 \<noteq> 0 \<and> ts ! i AND properties = properties \<and>
        \<not> (\<exists>j < i. typeFilter AND push_bit (k + j) 1 \<noteq> 0 \<and> ts ! j AND properties = properties))" for k ts
  proof (induction ts arbitrary: k)
    case (Cons flags ts)
    show ?case
    proof (cases "typeFilter AND push_bit k 1 \<noteq> 0 \<and> flags AND properties = properties")
      case False
      have ex: "(\<exists>i < Suc m. Q i) \<longleftrightarrow> Q 0 \<or> (\<exists>i < m. Q (Suc i))" for Q and m :: nat
        by (metis less_Suc_eq_0_disj)
      from Cons.IH [of "Suc k"] False show ?thesis by (auto simp: ex)
    qed (intro disjI2 exI [of _ 0], simp)
  qed simp
  from this [of 0 "vk_memory_types api"] show ?thesis
    by (simp add: find_memory_type_def Let_def)
qed

text \<open>
  When no memory type is host visible, an allocation fails after it has created its buffer and
  leaves that buffer behind: it still exists, and the slot that names it is not in use.
\<close>

theorem allocate_leaks_buffer:
  assumes "pool_wf c" "first_free (user_buffers c) \<noteq> 0"
    and "vk_create_buffer api (vk_calls c) sz = Some buf"
    and "\<And>i. i < length (vk_memory_types api) \<Longrightarrow> vk_memory_types api ! i AND HOST_VISIBLE \<noteq> HOST_VISIBLE"
  shows "\<exists>c'. dsp_vulkan_allocate_buffer api (Some c) sz = (0, Some c') \<and>
    live_buffers c' = buf # live_buffers c \<and> in_use c' = in_use c"
proof -
  let ?f = "first_free (user_buffers c)"
  note b = first_free_bounds [OF assms(1,2)]
  obtain r c1 where cb: "create_buffer api c ?f sz = (r, c1)" by fastforce
  note c1 = create_buffer_cases [OF cb conjunct1 [OF b]]
  have r: "r = Some buf" using cb assms(3) by (simp add: create_buffer_def)
  have none: "find_memory_type_from k ts tf ps = - 1"
    if "list_all (\<lambda>t. t AND ps \<noteq> ps) ts" for k ts tf ps
    using that by (induction k ts tf ps rule: find_memory_type_from.induct) auto
  have hv: "list_all (\<lambda>t. t AND HOST_VISIBLE \<noteq> HOST_VISIBLE) (vk_memory_types api)"
    using assms(4) by (simp add: list_all_length)
  have "t AND (DEVICE_LOCAL OR HOST_VISIBLE) \<noteq> DEVICE_LOCAL OR HOST_VISIBLE"
    if "t AND HOST_VISIBLE \<noteq> HOST_VISIBLE" for t
  proof
    assume "t AND (DEVICE_LOCAL OR HOST_VISIBLE) = DEVICE_LOCAL OR HOST_VISIBLE"
    then have "(t AND (DEVICE_LOCAL OR HOST_VISIBLE)) AND HOST_VISIBLE = (DEVICE_LOCAL OR HOST_VISIBLE) AND HOST_VISIBLE"
      by metis
    moreover have "(DEVICE_LOCAL OR HOST_VISIBLE) AND HOST_VISIBLE = HOST_VISIBLE"
      by (simp add: DEVICE_LOCAL_def HOST_VISIBLE_def)
    ultimately show False using that by (simp add: and.assoc)
  qed
  then have "list_all (\<lambda>t. t AND (DEVICE_LOCAL OR HOST_VISIBLE) \<noteq> DEVICE_LOCAL OR HOST_VISIBLE) (vk_memory_types api)"
    using hv by (simp add: list_all_iff)
  with hv have "find_memory_type api tb (DEVICE_LOCAL OR HOST_VISIBLE) = - 1" "find_memory_type api tb HOST_VISIBLE = - 1" for tb
    by (simp_all add: find_memory_type_def none)
  then have "dsp_vulkan_allocate_buffer api (Some c) sz = (0, Some c1)"
    using assms(2) cb r by (simp add: dsp_vulkan_allocate_buffer_def Let_def split: prod.splits)
  with c1 r show ?thesis by simp
qed

theorem allocate_leaks_buffer_witness:
  "\<exists>c'. dsp_vulkan_allocate_buffer (demo_api\<lparr>vk_memory_types := [1, 1]\<rparr>) (Some demo_context) 8 = (0, Some c') \<and>
    live_buffers c' = [1]"
proof -
  let ?api = "demo_api\<lparr>vk_memory_types := [1, 1]\<rparr>"
  have "first_free (user_buffers demo_context) \<noteq> 0" by (simp add: demo_first_free)
  moreover have "vk_create_buffer ?api (vk_calls demo_context) 8 = Some 1"
    by (simp add: demo_api_def demo_context_def)
  moreover have "vk_memory_types ?api ! i AND HOST_VISIBLE \<noteq> HOST_VISIBLE" if "i < length (vk_memory_types ?api)" for i
    using that by (auto simp: HOST_VISIBLE_def less_Suc_eq)
  ultimately show ?thesis
    using allocate_leaks_buffer [OF pool_wf_demo, of ?api 8 1] by (auto simp: demo_context_def)
qed

text \<open>
  An upload to a handle in use copies exactly the first \<open>size\<close> bytes of the data into the
  memory of that handle and touches no other memory, if the memory block has at least \<open>size\<close> bytes;
  if it is smaller and the mapping succeeds, the copy runs past its end, because \<open>size\<close> is compared
  with nothing. A failed mapping changes no memory.
\<close>

theorem upload_copies_prefix:
  assumes "pool_wf c" "unat h < POOL_SIZE" "in_use c ! unat h"
    and "device_memory c (vb_memory (user_buffers c ! unat h)) = Some bytes" "unat n \<le> length data"
  shows "case dsp_vulkan_upload_buffer api (Some c) h data n of
      Inl e \<Rightarrow> vk_map_memory api (vk_calls c) \<and> length bytes < unat n
    | Inr (ok, ctx') \<Rightarrow> \<exists>c'. ctx' = Some c' \<and> pool_wf c' \<and> ok = vk_map_memory api (vk_calls c) \<and>
        device_memory c' = (if ok then (device_memory c)(vb_memory (user_buffers c ! unat h) \<mapsto>
            take (unat n) data @ drop (unat n) bytes) else device_memory c) \<and>
        (ok \<longrightarrow> unat n \<le> length bytes)"
proof -
  have "h \<noteq> 0" using assms(1,3) by (auto simp: pool_wf_in_use)
  moreover have "\<not> 256 \<le> h" using assms(2) by (simp add: POOL_SIZE_def word_le_nat_alt)
  moreover have "active (user_buffers c ! unat h)"
    using assms(1-3) by (simp add: in_use_def pool_wf_def)
  ultimately show ?thesis
    using assms(1,4,5) by (auto simp: dsp_vulkan_upload_buffer_def Let_def memcpy_at_def pool_wf_in_use)
qed

definition demo_uploaded :: dsp_vulkan_context where
  "demo_uploaded = demo_context\<lparr>user_buffers := no_buffer # no_buffer\<lparr>vb_memory := 7, vb_size := 2, active := True\<rparr>
     # replicate 254 no_buffer, device_memory := [7 \<mapsto> [1, 2]]\<rparr>"

theorem upload_copies_prefix_witness:
  "(case dsp_vulkan_upload_buffer demo_api (Some demo_uploaded) 1 [5, 6, 7] 2 of
     Inl e \<Rightarrow> False | Inr (ok, ctx') \<Rightarrow> ok \<and> (\<exists>c'. ctx' = Some c' \<and> device_memory c' = [7 \<mapsto> [5, 6]]))
   \<and> \<not> succeeds (dsp_vulkan_upload_buffer demo_api (Some demo_uploaded) 1 [5, 6, 7] 3)"
proof -
  have w: "pool_wf demo_uploaded" "unat (1::u32) < POOL_SIZE" "in_use demo_uploaded ! unat (1::u32)"
    "device_memory demo_uploaded (vb_memory (user_buffers demo_uploaded ! unat (1::u32))) = Some [1, 2]"
    by (simp_all add: demo_uploaded_def pool_wf_def in_use_def POOL_SIZE_def no_buffer_def)
  from upload_copies_prefix [OF w, of 2 "[5, 6, 7]" demo_api] upload_copies_prefix [OF w, of 3 "[5, 6, 7]" demo_api]
  show ?thesis
    by (auto simp: demo_api_def demo_uploaded_def no_buffer_def split: sum.splits prod.splits)
qed

text \<open>
  On a frame within its bounds the dispatch starts enough work groups of 64 threads for every
  sample of every channel, and fewer than 64 threads have no sample; nothing wraps around. The
  dispatch is recorded once, after the earlier ones, with these parameters, or nothing is
  submitted and the call fails.
\<close>

theorem dispatch_covers_samples:
  assumes "unat fc \<le> MAX_FRAMES" "unat cc \<le> MAX_CHANNELS" "pool_wf c"
  shows "unat fc * unat cc \<le> 64 * unat (work_groups fc cc) \<and> 64 * unat (work_groups fc cc) < unat fc * unat cc + 64
    \<and> (\<exists>ok c'. dsp_vulkan_dispatch api (Some c) xs fc cc p h = (ok, xs, Some c') \<and> pool_wf c' \<and>
        submitted c' = submitted c @ (if ok then [\<lparr>push_constants = push_block fc p, group_count = work_groups fc cc,
          dispatch_bindings = vk_bindings c\<rparr>] else []))"
proof -
  let ?n = "unat fc * unat cc"
  have "MAX_SAMPLES + 63 < 4294967296" by (simp add: MAX_SAMPLES_def)
  then have "?n + 63 < 4294967296" using bounded_product(2) [OF assms(1,2)] by linarith
  then have "unat (fc * cc + 63) = ?n + 63"
    by (simp add: unat_word_ariths(1) bounded_product(1) [OF assms(1,2)])
  then have g: "unat (work_groups fc cc) = (?n + 63) div 64"
    by (simp add: work_groups_def Let_def unat_div_distrib)
  have "?n \<le> 64 * ((?n + 63) div 64)" "64 * ((?n + 63) div 64) < ?n + 64" by linarith+
  with g assms(3) show ?thesis
    by (auto simp: dsp_vulkan_dispatch_def Let_def pool_wf_in_use)
qed

theorem dispatch_covers_samples_witness:
  "unat (work_groups 100 3) * 64 = 320 \<and> 100 * 3 \<le> 64 * unat (work_groups 100 3)"
  using dispatch_covers_samples [of 100 3 demo_context demo_api "[]" "\<lparr>gain = FNaN, threshold = FNaN,
     param1 = FNaN, param2 = FNaN, algo_id = 0\<rparr>" 0]
  by (simp add: MAX_FRAMES_def MAX_CHANNELS_def work_groups_def)

text \<open>
  Initialisation fails exactly when no instance can be created, the index names no device, or
  a device can be created neither with the extensions nor without; then no object it created is
  left. On success the pool is empty, and destroying the context destroys every object that was
  created (the descriptor set goes with its pool), the device last but for the instance.
\<close>

theorem init_failure_leaves_nothing:
  "case dsp_vulkan_init api i of
     Inl objs \<Rightarrow> objs = [] \<and> (\<not> vk_create_instance api \<or> i < 0 \<or> vk_device_count api \<le> of_int i
        \<or> \<not> vk_create_device api 3 \<and> \<not> vk_create_device api 0)
   | Inr c \<Rightarrow> vk_create_instance api \<and> 0 \<le> i \<and> of_int i < vk_device_count api \<and> pool_wf c \<and>
        \<not> list_ex id (in_use c) \<and> set (dsp_vulkan_destroy (vk_objects c)) = set (vk_objects c) - {Descriptor_Set} \<and>
        (\<exists>ds. dsp_vulkan_destroy (vk_objects c) = ds @ [Device, Instance])"
proof (cases "dsp_vulkan_init api i")
  case (Inl objs)
  then show ?thesis
    by (auto simp: dsp_vulkan_init_def dsp_vulkan_destroy_def Let_def split: if_splits)
next
  case (Inr c)
  then have o: "vk_objects c = Instance # Device # pipeline_objects api"
    and b: "user_buffers c = replicate POOL_SIZE no_buffer"
    and g: "vk_create_instance api" "0 \<le> i" "of_int i < vk_device_count api"
    by (auto simp: dsp_vulkan_init_def Let_def split: if_splits)
  have "set (dsp_vulkan_destroy (vk_objects c)) = set (vk_objects c) - {Descriptor_Set}"
    by (auto simp: dsp_vulkan_destroy_def o pipeline_objects_def)
  moreover have "\<exists>ds. dsp_vulkan_destroy (vk_objects c) = ds @ [Device, Instance]"
    by (simp add: dsp_vulkan_destroy_def o)
  moreover have "\<not> list_ex id (in_use c)"
    by (simp add: in_use_def b list_ex_iff no_buffer_def)
  ultimately show ?thesis using Inr g init_pool_wf [OF Inr] by simp
qed

theorem init_failure_leaves_nothing_witness:
  "(case dsp_vulkan_init demo_api 0 of Inl objs \<Rightarrow> False | Inr c \<Rightarrow> pool_wf c \<and> \<not> list_ex id (in_use c))
   \<and> dsp_vulkan_init demo_api 1 = Inl []"
  using init_failure_leaves_nothing [of demo_api 0] init_failure_leaves_nothing [of demo_api 1]
  by (auto simp: demo_api_def split: sum.splits)

end
