(* ===== verification/Worker.thy ===== *)
theory Worker
  imports Node_Graph Vulkan_Compute
begin

text \<open>
  The worker process of \<open>daemon/worker.cpp\<close>: its start-up, and one iteration of its loop, which
  counts the heartbeat, follows the bypass flag, applies control events, processes one audio frame
  when the plugin has signalled, and serves the memory bus. What the operating system answers in
  an iteration (\<open>poll\<close>, \<open>read\<close>, \<open>write\<close>, the clock) is a parameter.
\<close>

section \<open>State\<close>

record loop_env =
  poll_ready :: bool      \<comment> \<open>\<open>poll\<close> reports the event descriptor readable\<close>
  read_ok :: bool         \<comment> \<open>reading its counter succeeds\<close>
  elapsed_us :: int       \<comment> \<open>the duration of the processing in microseconds\<close>
  write_interrupts :: nat \<comment> \<open>how often \<open>write\<close> is interrupted by a signal\<close>
  write_ok :: bool        \<comment> \<open>its answer when it is not interrupted\<close>

text \<open>
  \<open>shm_base\<close> is the address of the mapping. \<open>front_bytes\<close> are the bytes of the structures before the
  staging area, which a request may read by giving another offset. \<open>signals\<close> counts the
  successful writes to the event descriptor of the plugin.
\<close>

record 'n worker =
  worker_id :: int
  shm_fd :: int
  shm_base :: u64
  shm :: dsp_shared_memory
  graph :: node_graph
  nodes :: "'n node_store"
  primary_node :: nat
  signals :: nat

section \<open>Draining a bus\<close>

text \<open>
  \<open>while (bus.pop(x)) body\<close>. The fuel is the number of slots; a ring never holds more items than
  that, and nobody adds any while the worker drains it.
\<close>

fun drain_fuel :: "nat \<Rightarrow> ('a \<Rightarrow> 's \<Rightarrow> 's outcome) \<Rightarrow> 'a ring \<Rightarrow> 's \<Rightarrow> ('a ring \<times> 's) outcome" where
  "drain_fuel 0 body q s = Inr (q, s)"
| "drain_fuel (Suc k) body q s =
     (case pop q of
        (None, q') \<Rightarrow> Inr (q', s)
      | (Some x, q') \<Rightarrow> (case body x s of Inl e \<Rightarrow> Inl e | Inr s' \<Rightarrow> drain_fuel k body q' s'))"

definition drain :: "('a \<Rightarrow> 's \<Rightarrow> 's outcome) \<Rightarrow> 'a ring \<Rightarrow> 's \<Rightarrow> ('a ring \<times> 's) outcome" where
  "drain body q s = drain_fuel (length (rb_data q)) body q s"

lemma drain_fuel_eq:
  "ring_of P n q \<Longrightarrow> length (items q) \<le> k \<Longrightarrow>
   (case for_each body (items q) s of
      Inl e \<Rightarrow> drain_fuel k body q s = Inl e
    | Inr s' \<Rightarrow> \<exists>q'. drain_fuel k body q s = Inr (q', s') \<and> items q' = [] \<and> ring_of P n q')"
proof (induction k arbitrary: q s)
  case 0
  then have "items q = []" by (simp del: length_items)
  with 0 show ?case by simp
next
  case (Suc k)
  from ring_ofD(1) [OF Suc.prems(1)] show ?case
  proof (cases rule: pop_cases)
    case none
    with Suc.prems show ?thesis by simp
  next
    case (popped y q')
    have r: "ring_of P n q'" using ring_of_pop [OF Suc.prems(1)] popped(2) .
    have l: "length (items q') \<le> k" using Suc.prems(2) popped(1) by (simp del: length_items)
    show ?thesis
    proof (cases "body y s")
      case (Inl e)
      then show ?thesis unfolding popped(1) by (simp add: popped(2))
    next
      case (Inr s1)
      then have "drain_fuel (Suc k) body q s = drain_fuel k body q' s1" by (simp add: popped(2))
      moreover have "for_each body (items q) s = for_each body (items q') s1" using Inr by (simp add: popped(1))
      ultimately show ?thesis using Suc.IH [OF r l, of s1] by (simp only:)
    qed
  qed
qed

lemma drain_eq:
  assumes "ring_of P n q"
  shows "case for_each body (items q) s of
      Inl e \<Rightarrow> drain body q s = Inl e
    | Inr s' \<Rightarrow> \<exists>q'. drain body q s = Inr (q', s') \<and> items q' = [] \<and> ring_of P n q'"
proof -
  have "length (items q) \<le> length (rb_data q)"
    using ring_count_lt [OF ring_ofD(1) [OF assms]] by simp
  from drain_fuel_eq [OF assms this] show ?thesis unfolding drain_def .
qed

section \<open>One audio frame\<close>

text \<open>
  The load of the accelerator in per cent of the block's duration, in \<open>float\<close> arithmetic; the
  conversion of the quotient to an integer is undefined when it does not fit.
\<close>

definition actual_load :: "u32 \<Rightarrow> int \<Rightarrow> u32 outcome" where
  "actual_load frames us =
     (let block_duration_us = fdiv binary32 (fmul binary32 (of_integer binary32 (uint frames)) (flit binary32 1000000))
            (flit binary32 48000)
      in to_u32 (fdiv binary32 (fmul binary32 (of_integer binary32 us) (flit binary32 100)) block_duration_us))"

definition clamp_load :: "u32 \<Rightarrow> u32" where
  "clamp_load l = (if 100 < l then 100 else l)"

text \<open>\<open>for (ch = 0; ch < cc; ch++) memcpy(&dst[ch * 256], &src[ch * 256], fc * sizeof(float))\<close>.\<close>

definition copy_channels :: "f32 list \<Rightarrow> u32 \<Rightarrow> u32 \<Rightarrow> f32 list \<Rightarrow> f32 list outcome" where
  "copy_channels src fc cc dst =
     put_channels (\<lambda>ch. drop (unat ((of_nat ch :: u32) * 256)) src) (unat fc) (unat cc) dst"

text \<open>The metadata and the valid samples of the processed frame go to a slot of the output queue.\<close>

definition write_output :: "dsp_audio_frame \<Rightarrow> dsp_audio_frame ring \<Rightarrow> dsp_audio_frame ring outcome" where
  "write_output frame q =
     (case reserve_write q of
        None \<Rightarrow> Inr q
      | Some i \<Rightarrow>
          (let out_slot = slot_at q i in
           case copy_channels (samples frame) (frame_count frame) (channel_count frame) (samples out_slot) of
             Inl e \<Rightarrow> Inl e
           | Inr xs \<Rightarrow> Inr (commit_write (store_slot q i
               (out_slot\<lparr>frame_count := frame_count frame, channel_count := channel_count frame,
                 timestamp_ns := timestamp_ns frame, samples := xs\<rparr>)))))"

definition wants_split :: "dsp_shared_memory \<Rightarrow> worker_control_block \<Rightarrow> dsp_audio_frame \<Rightarrow> bool" where
  "wants_split m b frame \<longleftrightarrow> prefer_block_parallel m \<and> load_pct b < 60 \<and> 128 \<le> frame_count frame"

definition process_frame :: "'n node_ops \<Rightarrow> loop_env \<Rightarrow> 'n worker \<Rightarrow> 'n worker outcome" where
  "process_frame ops env w =
     (case peek_read (in_queue (shm w)) of
        None \<Rightarrow> Inr w
      | Some i \<Rightarrow>
          (case control_block (shm w) (worker_id w) of
             Inl e \<Rightarrow> Inl e
           | Inr b \<Rightarrow>
             (let frame = slot_at (in_queue (shm w)) i;
                  addr = shm_base w + of_nat (in_slot_offset i) in
              case run_graph ops (wants_split (shm w) b frame) (graph w) (nodes w) frame addr of
                Inl e \<Rightarrow> Inl e
              | Inr (ok, g, frame', st) \<Rightarrow>
                (case actual_load (frame_count frame') (elapsed_us env) of
                   Inl e \<Rightarrow> Inl e
                 | Inr load \<Rightarrow>
                   (case update_control_block (\<lambda>b. b\<lparr>load_pct := clamp_load load,
                        last_error := (if ok then last_error b else DEVICE_LOST)\<rparr>) (worker_id w) (shm w) of
                      Inl e \<Rightarrow> Inl e
                    | Inr m \<Rightarrow>
                      (case write_output frame' (out_queue m) of
                         Inl e \<Rightarrow> Inl e
                       | Inr oq \<Rightarrow>
                           Inr (w\<lparr>graph := g, nodes := st,
                             shm := m\<lparr>in_queue := commit_read (store_slot (in_queue m) i frame'), out_queue := oq\<rparr>,
                             signals := signals w + (if retry_write (write_interrupts env) (write_ok env) then 1 else 0)\<rparr>)))))))"

section \<open>The memory bus\<close>

text \<open>
  The bytes from an offset of the mapping on. \<open>front\<close> is the representation of the structures before
  the staging area, which the model does not fix.
\<close>

definition shm_bytes_from :: "u8 list \<Rightarrow> dsp_shared_memory \<Rightarrow> u64 \<Rightarrow> u8 list" where
  "shm_bytes_from front m off = drop (unat off) (front @ data_staging m)"

definition handle_request :: "'n node_ops \<Rightarrow> u8 list \<Rightarrow> dsp_shared_memory \<Rightarrow> dsp_memory_request
    \<Rightarrow> 'n \<times> dsp_memory_response ring \<Rightarrow> ('n \<times> dsp_memory_response ring) outcome" where
  "handle_request ops front m r = (\<lambda>(n, bus).
     (case (case req_type r of
              ALLOCATE \<Rightarrow> (let (h, n') = allocate_buffer ops n (req_size r) in
                Inr (n', \<lparr>resp_request_id = request_id r, resp_handle = h, success = (h \<noteq> 0)\<rparr>))
            | UPLOAD \<Rightarrow>
                (case upload_buffer ops n (req_handle r) (shm_bytes_from front m (shm_offset r)) (req_size r) of
                   Inl e \<Rightarrow> Inl e
                 | Inr (ok, n') \<Rightarrow> Inr (n', \<lparr>resp_request_id = request_id r, resp_handle = 0, success = ok\<rparr>))
            | FREE \<Rightarrow> Inr (free_buffer ops n (req_handle r),
                \<lparr>resp_request_id = request_id r, resp_handle = 0, success = True\<rparr>)) of
        Inl e \<Rightarrow> Inl e
      | Inr (n', response) \<Rightarrow> Inr (n', snd (push bus response))))"

definition serve_memory_bus :: "'n node_ops \<Rightarrow> u8 list \<Rightarrow> 'n worker \<Rightarrow> 'n worker outcome" where
  "serve_memory_bus ops front w =
     (case drain (handle_request ops front (shm w)) (memory_request_bus (shm w))
         (nodes w (primary_node w), memory_response_bus (shm w)) of
        Inl e \<Rightarrow> Inl e
      | Inr (q, n, bus) \<Rightarrow>
          Inr (w\<lparr>nodes := (nodes w)(primary_node w := n),
            shm := (shm w)\<lparr>memory_request_bus := q, memory_response_bus := bus\<rparr>\<rparr>))"

section \<open>The loop\<close>

definition apply_events :: "'n node_ops \<Rightarrow> 'n worker \<Rightarrow> 'n worker outcome" where
  "apply_events ops w =
     (case drain (\<lambda>e n. apply_control_event ops n (parameter_id e) (evt_value e)) (control_bus (shm w))
         (nodes w (primary_node w)) of
        Inl e \<Rightarrow> Inl e
      | Inr (q, n) \<Rightarrow> Inr (w\<lparr>nodes := (nodes w)(primary_node w := n), shm := (shm w)\<lparr>control_bus := q\<rparr>\<rparr>))"

text \<open>The heartbeat and the bypass flag at the top of an iteration.\<close>

definition begin_iteration :: "'n node_ops \<Rightarrow> 'n worker \<Rightarrow> 'n worker outcome" where
  "begin_iteration ops w =
     (case update_control_block (\<lambda>b. b\<lparr>heartbeat := heartbeat b + 1\<rparr>) (worker_id w) (shm w) of
        Inl e \<Rightarrow> Inl e
      | Inr m \<Rightarrow>
          (case control_block m (worker_id w) of
             Inl e \<Rightarrow> Inl e
           | Inr b \<Rightarrow> Inr (w\<lparr>shm := m, nodes := (nodes w)(primary_node w :=
               set_zero_copy_bypass ops (nodes w (primary_node w)) (bypass_zero_copy b) (shm_fd w)
                 (of_nat (c_size layout_DspSharedMemory)))\<rparr>)))"

text \<open>A failed \<open>read\<close> continues with the next iteration, past the memory bus.\<close>

definition worker_iteration :: "'n node_ops \<Rightarrow> u8 list \<Rightarrow> loop_env \<Rightarrow> 'n worker \<Rightarrow> 'n worker outcome" where
  "worker_iteration ops front env w =
     (case begin_iteration ops w of
        Inl e \<Rightarrow> Inl e
      | Inr w1 \<Rightarrow>
        (case apply_events ops w1 of
           Inl e \<Rightarrow> Inl e
         | Inr w2 \<Rightarrow>
           (if poll_ready env \<and> \<not> read_ok env then Inr w2
            else case (if poll_ready env then process_frame ops env w2 else Inr w2) of
                Inl e \<Rightarrow> Inl e
              | Inr w3 \<Rightarrow> serve_memory_bus ops front w3)))"

text \<open>The loop: one iteration for each answer of the environment, until \<open>running\<close> is cleared.\<close>

definition worker_loop :: "'n node_ops \<Rightarrow> u8 list \<Rightarrow> loop_env list \<Rightarrow> 'n worker \<Rightarrow> 'n worker outcome" where
  "worker_loop ops front envs w = for_each (worker_iteration ops front) envs w"

section \<open>Start-up\<close>

text \<open>A log entry for the plugin; a full log bus drops it.\<close>

definition send_worker_log :: "dsp_shared_memory option \<Rightarrow> string \<Rightarrow> string \<Rightarrow> u32 \<Rightarrow> dsp_shared_memory option" where
  "send_worker_log m t s lvl =
     (case m of
        None \<Rightarrow> None
      | Some m \<Rightarrow>
          (let entry = log_entry_zero\<lparr>level := lvl\<rparr>;
               entry = entry\<lparr>tag := strncpy (tag entry) t 15\<rparr>;
               entry = entry\<lparr>msg := strncpy (msg entry) s 127\<rparr>
           in Some (m\<lparr>log_bus := snd (push (log_bus m) entry)\<rparr>)))"

text \<open>\<open>atoi\<close>: white space, a sign, then digits up to the first other character.\<close>

fun atoi_digits :: "int \<Rightarrow> string \<Rightarrow> int" where
  "atoi_digits n [] = n"
| "atoi_digits n (c # cs) =
     (if 48 \<le> (of_char c :: int) \<and> (of_char c :: int) \<le> 57 then atoi_digits (10 * n + (of_char c - 48)) cs else n)"

definition is_space :: "char \<Rightarrow> bool" where
  "is_space c \<longleftrightarrow> c \<in> {CHR '' '', CHR 0x09, CHR 0x0A, CHR 0x0B, CHR 0x0C, CHR 0x0D}"

definition atoi :: "string \<Rightarrow> int" where
  "atoi s = (case dropWhile is_space s of
     [] \<Rightarrow> 0
   | c # cs \<Rightarrow> (if c = CHR ''-'' then - atoi_digits 0 cs
               else if c = CHR ''+'' then atoi_digits 0 cs else atoi_digits 0 (c # cs)))"

text \<open>The options as \<open>getopt_long\<close> delivers them, a later one overriding an earlier one.\<close>

fun parse_options :: "(char \<times> string) list \<Rightarrow> string \<times> int \<Rightarrow> string \<times> int" where
  "parse_options [] r = r"
| "parse_options ((opt, optarg) # rest) (ty, i) =
     parse_options rest (if opt = CHR ''t'' then (optarg, i) else if opt = CHR ''i'' then (ty, atoi optarg) else (ty, i))"

definition worker_options :: "(char \<times> string) list \<Rightarrow> string \<times> int" where
  "worker_options args = parse_options args (''vulkan'', 0)"

text \<open>
  The start-up after the options: the three descriptors and the mapping, then the node for the
  type. The result is the running worker, or the shared memory as an early exit leaves it.
  \<open>make_node\<close> creates the node for a type name.
\<close>

definition worker_start :: "'n node_ops \<Rightarrow> (string \<Rightarrow> 'n option) \<Rightarrow> string \<Rightarrow> int \<Rightarrow> int \<Rightarrow> int \<Rightarrow> int
    \<Rightarrow> dsp_shared_memory option \<Rightarrow> u64 \<Rightarrow> (dsp_shared_memory option + 'n worker) outcome" where
  "worker_start ops make_node ty wid fd e_send e_recv mapped base =
     (case mapped of
        None \<Rightarrow> Inr (Inl None)
      | Some m0 \<Rightarrow>
       (if fd < 0 \<or> e_send < 0 \<or> e_recv < 0 then Inr (Inl mapped)
        else case update_control_block (\<lambda>b. b\<lparr>is_ready := False\<rparr>) wid m0 of
            Inl e \<Rightarrow> Inl e
          | Inr m1 \<Rightarrow>
             (let started = (case make_node ty of None \<Rightarrow> None
                     | Some n \<Rightarrow> (case node_init ops 0 n of (True, n1) \<Rightarrow> Some n1 | (False, n1) \<Rightarrow> None)) in
              case started of
                None \<Rightarrow>
                  (case update_control_block (\<lambda>b. b\<lparr>last_error := INTERNAL_ERROR\<rparr>) wid m1 of
                     Inl e \<Rightarrow> Inl e
                   | Inr m2 \<Rightarrow> Inr (Inl (send_worker_log (Some m2) ''CORE'' ''Hardware initialization failed'' 2)))
              | Some n1 \<Rightarrow>
                  (case update_control_block (\<lambda>b. b\<lparr>is_ready := True\<rparr>) wid m1 of
                     Inl e \<Rightarrow> Inl e
                   | Inr m2 \<Rightarrow>
                      (case send_worker_log (Some m2) ''CORE'' ''Worker graph initialized successfully'' 0 of
                         None \<Rightarrow> Inr (Inl None)
                       | Some m3 \<Rightarrow>
                           Inr (Inr \<lparr>worker_id = wid, shm_fd = fd, shm_base = base, shm = m3,
                             graph = add_node_to_sequence empty_graph 0,
                             nodes = (\<lambda>k. set_shm_ptr ops n1 base), primary_node = 0, signals = 0\<rparr>))))))"

text \<open>The two kinds of node a worker knows.\<close>

definition worker_ops :: "'c vk_driver \<Rightarrow> ('c vulkan_backend + npu_backend) node_ops" where
  "worker_ops drv = sum_ops (vulkan_ops drv) npu_ops"

definition make_node :: "string \<Rightarrow> ('c vulkan_backend + npu_backend) option" where
  "make_node ty =
     (if ty = ''vulkan'' then Some (Inl new_vulkan_backend)
      else if ty = ''npu'' then Some (Inr new_npu_backend)
      else None)"

definition worker_main :: "'c vk_driver \<Rightarrow> (char \<times> string) list \<Rightarrow> int \<Rightarrow> int \<Rightarrow> int \<Rightarrow> dsp_shared_memory option
    \<Rightarrow> u64 \<Rightarrow> (dsp_shared_memory option + ('c vulkan_backend + npu_backend) worker) outcome" where
  "worker_main drv args fd e_send e_recv mapped base =
     (let (ty, wid) = worker_options args
      in worker_start (worker_ops drv) make_node ty wid fd e_send e_recv mapped base)"

interpretation real_worker: two_nodes "vulkan_ops (real_driver api)" "\<lambda>n. n = new_vulkan_backend" "vb_ok pool_wf"
  vb_event_ok npu_ops "\<lambda>n. n = new_npu_backend" "\<lambda>n. True" "\<lambda>k v. True"
  by (intro two_nodes.intro real.node.dsp_node_axioms npu.dsp_node_axioms)

section \<open>Lemmas about the steps\<close>

lemma load_literals:
  "flit binary32 1000000 = FFin False 1000000" "flit binary32 48000 = FFin False 48000"
  "flit binary32 100 = FFin False 100"
  by code_simp+

lemma actual_load_defined:
  assumes "frames \<noteq> 0" "0 \<le> us" "us \<le> 2 ^ 20"
  shows "\<exists>l. actual_load frames us = Inr l"
proof -
  have "0 < uint frames" using assms(1) by (metis less_le uint_0_iff uint_ge_0)
  then have "1 \<le> uint frames" by linarith
  moreover have "uint frames \<le> 2 ^ 32" using uint_lt2p [of frames] by simp
  ultimately show ?thesis
    using load_defined [of "uint frames" us] assms(2,3) by (simp add: actual_load_def load_literals)
qed

text \<open>The load of an empty block is a quotient by zero, which has no integer value.\<close>

lemma actual_load_empty: "actual_load 0 us = Inl Undefined_Conversion"
proof -
  have "to_u32 (fdiv F x (FFin t 0)) = Inl Undefined_Conversion" for F x t by (cases x) simp_all
  then show ?thesis by (simp add: actual_load_def load_literals of_integer_def fround_zero)
qed

lemma clamp_load_le: "clamp_load l \<le> 100"
  by (simp add: clamp_load_def not_less)

section \<open>A worker that can run\<close>

definition worker_ok :: "('n \<Rightarrow> bool) \<Rightarrow> 'n worker \<Rightarrow> bool" where
  "worker_ok node_ok w \<longleftrightarrow> shm_wf (shm w) \<and> 0 \<le> worker_id w \<and> worker_id w < 8 \<and> queue_bounded (in_queue (shm w)) \<and>
     queue_bounded (out_queue (shm w)) \<and>
     (\<forall>k \<in> set (execution_order (graph w)). node_ok (nodes w k)) \<and> node_ok (nodes w (primary_node w))"

text \<open>
  What the plugin has put on the buses is within the back end's domain: event values it can convert,
  blocks that are not empty, and no uploads (which copy as many bytes as the request says).
\<close>

definition pending_ok :: "(u32 \<Rightarrow> f32 \<Rightarrow> bool) \<Rightarrow> dsp_shared_memory \<Rightarrow> bool" where
  "pending_ok event_ok m \<longleftrightarrow> list_all (\<lambda>e. event_ok (parameter_id e) (evt_value e)) (items (control_bus m)) \<and>
     list_all (\<lambda>f. frame_count f \<noteq> 0) (items (in_queue m)) \<and>
     list_all (\<lambda>r. req_type r \<noteq> UPLOAD) (items (memory_request_bus m))"

text \<open>The processing took at most about a second.\<close>

definition env_ok :: "loop_env \<Rightarrow> bool" where
  "env_ok env \<longleftrightarrow> 0 \<le> elapsed_us env \<and> elapsed_us env \<le> 2 ^ 20"

text \<open>The oldest waiting block has no samples.\<close>

definition empty_block_next :: "'n worker \<Rightarrow> bool" where
  "empty_block_next w \<longleftrightarrow> (case items (in_queue (shm w)) of [] \<Rightarrow> False | f # fs \<Rightarrow> frame_count f = 0)"

lemma pending_not_empty: "pending_ok event_ok (shm w) \<Longrightarrow> \<not> empty_block_next w"
  by (auto simp: pending_ok_def empty_block_next_def split: list.splits)

lemma worker_okD:
  assumes "worker_ok node_ok w"
  shows "shm_wf (shm w)" "0 \<le> worker_id w" "worker_id w < int (length (workers (shm w)))"
    "ring_of frame_wf IPC_QUEUE_DEPTH (in_queue (shm w))" "ring_of frame_wf IPC_QUEUE_DEPTH (out_queue (shm w))"
    "ring_of (\<lambda>e. True) 64 (control_bus (shm w))" "ring_of (\<lambda>r. True) 32 (memory_request_bus (shm w))"
    "ring_of (\<lambda>r. True) 32 (memory_response_bus (shm w))"
    "node_ok (nodes w (primary_node w))"
  using assms by (simp_all add: worker_ok_def shm_wf_def)

text \<open>The worker's control block and its index.\<close>

definition my_block :: "'n worker \<Rightarrow> worker_control_block" where
  "my_block w = workers (shm w) ! nat (worker_id w)"

definition set_my_block :: "(worker_control_block \<Rightarrow> worker_control_block) \<Rightarrow> 'n worker \<Rightarrow> dsp_shared_memory" where
  "set_my_block f w = (shm w)\<lparr>workers := (workers (shm w))[nat (worker_id w) := f (my_block w)]\<rparr>"

lemma begin_iteration_eq:
  assumes "worker_ok node_ok w"
  shows "begin_iteration ops w = Inr (w\<lparr>shm := set_my_block (\<lambda>b. b\<lparr>heartbeat := heartbeat b + 1\<rparr>) w,
     nodes := (nodes w)(primary_node w := set_zero_copy_bypass ops (nodes w (primary_node w))
       (bypass_zero_copy (my_block w)) (shm_fd w) (of_nat (c_size layout_DspSharedMemory)))\<rparr>)"
  using worker_okD(2,3) [OF assms]
  by (simp add: begin_iteration_def update_control_block_ok set_my_block_def my_block_def control_block_def)

text \<open>
  The top of an iteration: \<open>bypassed\<close> is the primary node after the bypass flag, and \<open>after_head\<close> the
  worker once the pending events have turned that node into \<open>n\<close> and left the control bus \<open>q\<close>.
\<close>

abbreviation bypassed :: "'n node_ops \<Rightarrow> 'n worker \<Rightarrow> 'n" where
  "bypassed ops w \<equiv> set_zero_copy_bypass ops (nodes w (primary_node w)) (bypass_zero_copy (my_block w)) (shm_fd w)
     (of_nat (c_size layout_DspSharedMemory))"

definition after_head :: "'n worker \<Rightarrow> 'n \<Rightarrow> dsp_control_event ring \<Rightarrow> 'n worker" where
  "after_head w n q = w\<lparr>nodes := (nodes w)(primary_node w := n),
     shm := (set_my_block (\<lambda>b. b\<lparr>heartbeat := heartbeat b + 1\<rparr>) w)\<lparr>control_bus := q\<rparr>\<rparr>"

lemma after_head_simps [simp]:
  "in_queue (shm (after_head w n q)) = in_queue (shm w)" "out_queue (shm (after_head w n q)) = out_queue (shm w)"
  "memory_request_bus (shm (after_head w n q)) = memory_request_bus (shm w)"
  "memory_response_bus (shm (after_head w n q)) = memory_response_bus (shm w)"
  "data_staging (shm (after_head w n q)) = data_staging (shm w)" "control_bus (shm (after_head w n q)) = q"
  "nodes (after_head w n q) = (nodes w)(primary_node w := n)" "primary_node (after_head w n q) = primary_node w"
  "worker_id (after_head w n q) = worker_id w" "graph (after_head w n q) = graph w" "signals (after_head w n q) = signals w"
  by (simp_all add: after_head_def set_my_block_def)

lemma after_head_block:
  assumes "worker_ok node_ok w"
  shows "my_block (after_head w n q) = (my_block w)\<lparr>heartbeat := heartbeat (my_block w) + 1\<rparr>"
  using worker_okD(2,3) [OF assms] by (simp add: after_head_def my_block_def set_my_block_def)

lemma iteration_head:
  assumes w: "worker_ok node_ok w"
    and n: "for_each (\<lambda>e n. apply_control_event ops n (parameter_id e) (evt_value e)) (items (control_bus (shm w)))
      (bypassed ops w) = Inr n"
  shows "\<exists>q. items q = [] \<and> ring_of (\<lambda>e. True) 64 q \<and> worker_iteration ops front env w =
    (if poll_ready env \<and> \<not> read_ok env then Inr (after_head w n q)
     else case (if poll_ready env then process_frame ops env (after_head w n q) else Inr (after_head w n q)) of
         Inl e \<Rightarrow> Inl e
       | Inr w3 \<Rightarrow> serve_memory_bus ops front w3)"
proof -
  let ?body = "\<lambda>e n. apply_control_event ops n (parameter_id e) (evt_value e)"
  define m where "m = set_my_block (\<lambda>b. b\<lparr>heartbeat := heartbeat b + 1\<rparr>) w"
  have m: "control_bus m = control_bus (shm w)" by (simp add: m_def set_my_block_def)
  from drain_eq [OF worker_okD(6) [OF w], of ?body "bypassed ops w"] n obtain q where
    q: "drain ?body (control_bus (shm w)) (bypassed ops w) = Inr (q, n)" "items q = []" "ring_of (\<lambda>e. True) 64 q" by auto
  have "apply_events ops (w\<lparr>shm := m, nodes := (nodes w)(primary_node w := bypassed ops w)\<rparr>) = Inr (after_head w n q)"
    using q(1) m by (simp add: apply_events_def after_head_def m_def)
  with q(2,3) begin_iteration_eq [OF w, of ops] show ?thesis
    by (intro exI [of _ q]) (simp add: worker_iteration_def m_def)
qed

text \<open>A memory bus without requests.\<close>

lemma serve_idle:
  assumes "worker_ok node_ok w" "items (memory_request_bus (shm w)) = []"
  shows "\<exists>q. serve_memory_bus ops front w = Inr (w\<lparr>shm := (shm w)\<lparr>memory_request_bus := q\<rparr>\<rparr>) \<and> items q = [] \<and>
    ring_of (\<lambda>r. True) 32 q"
proof -
  let ?s = "(nodes w (primary_node w), memory_response_bus (shm w))"
  from drain_eq [OF worker_okD(7) [OF assms(1)], of "handle_request ops front (shm w)" ?s] assms(2) obtain q where
    q: "drain (handle_request ops front (shm w)) (memory_request_bus (shm w)) ?s = Inr (q, ?s)" "items q = []"
      "ring_of (\<lambda>r. True) 32 q" by auto
  then have "serve_memory_bus ops front w = Inr (w\<lparr>shm := (shm w)\<lparr>memory_request_bus := q\<rparr>\<rparr>)"
    by (simp add: serve_memory_bus_def)
  with q(2,3) show ?thesis by blast
qed

text \<open>The plugin is signalled once, after a block, if the write succeeds.\<close>

lemma iteration_rings:
  assumes "worker_iteration ops front env w = Inr w'"
  shows "signals w' = signals w +
    (if poll_ready env \<and> read_ok env \<and> peek_read (in_queue (shm w)) \<noteq> None \<and> write_ok env then 1 else 0)"
proof -
  have quiet: "begin_iteration ops v = Inr v' \<Longrightarrow> signals v' = signals v \<and> in_queue (shm v') = in_queue (shm v)"
    "apply_events ops v = Inr v' \<Longrightarrow> signals v' = signals v \<and> in_queue (shm v') = in_queue (shm v)"
    "serve_memory_bus ops front v = Inr v' \<Longrightarrow> signals v' = signals v" for v v'
    by (auto simp: begin_iteration_def apply_events_def serve_memory_bus_def update_control_block_def Let_def
        split: sum.splits option.splits if_splits)
  have frame: "process_frame ops env v = Inr v' \<Longrightarrow>
      signals v' = signals v + (if peek_read (in_queue (shm v)) \<noteq> None \<and> write_ok env then 1 else 0)" for v v'
    by (auto simp: process_frame_def Let_def split: option.splits sum.splits)
  from assms obtain w1 w2 where w: "begin_iteration ops w = Inr w1" "apply_events ops w1 = Inr w2"
    by (auto simp: worker_iteration_def split: sum.splits)
  note q = quiet(1) [OF w(1)] quiet(2) [OF w(2)]
  show ?thesis
  proof (cases "poll_ready env \<and> read_ok env")
    case True
    with assms w obtain w3 where "process_frame ops env w2 = Inr w3" "serve_memory_bus ops front w3 = Inr w'"
      by (auto simp: worker_iteration_def split: sum.splits)
    with frame [of w2 w3] quiet(3) [of w3 w'] q True show ?thesis by simp
  next
    case False
    with assms w quiet(3) [of w2 w'] q show ?thesis by (auto simp: worker_iteration_def split: if_splits)
  qed
qed

text \<open>A slot of the output queue delivers a frame: the counts, the time stamp and the valid samples agree.\<close>

definition delivers :: "dsp_audio_frame \<Rightarrow> dsp_audio_frame \<Rightarrow> bool" where
  "delivers f g \<longleftrightarrow> frame_bounded g \<and> frame_count g = frame_count f \<and>
     channel_count g = channel_count f \<and> timestamp_ns g = timestamp_ns f \<and>
     (\<forall>c < unat (channel_count f). channel_block (samples g) c (unat (frame_count f)) =
        channel_block (samples f) c (unat (frame_count f)))"

text \<open>
  What becomes of the output queue when the first of the given frames, if any, is processed: a slot
  delivers what the graph made of it if there is room, otherwise the result is lost.
\<close>

definition audio_result :: "dsp_audio_frame list \<Rightarrow> dsp_audio_frame ring \<Rightarrow> dsp_audio_frame ring \<Rightarrow> bool" where
  "audio_result fs q q' \<longleftrightarrow> (case fs of [] \<Rightarrow> q' = q
     | f # rest \<Rightarrow> (\<exists>f'. same_block f f' \<and>
         (if length (items q) < ring_room q then \<exists>g. delivers f' g \<and> items q' = items q @ [g] else q' = q)))"

text \<open>The copy of one processed frame to the output queue.\<close>

lemma write_output_spec:
  assumes q: "ring_of frame_wf IPC_QUEUE_DEPTH q" and f: "frame_bounded f"
  shows "\<exists>q'. write_output f q = Inr q' \<and> ring_of frame_wf IPC_QUEUE_DEPTH q' \<and>
    (if length (items q) < ring_room q
     then \<exists>g. items q' = items q @ [g] \<and> delivers f g
     else q' = q)"
proof (cases "reserve_write q")
  case None
  with reserve_write_iff [OF ring_ofD(1) [OF q]] have "\<not> length (items q) < ring_room q"
    by (auto split: if_splits)
  with None q show ?thesis by (simp add: write_output_def)
next
  case (Some i)
  let ?fc = "unat (frame_count f)" and ?cc = "unat (channel_count f)" and ?o = "slot_at q i"
  have room: "length (items q) < ring_room q"
    using Some reserve_write_iff [OF ring_ofD(1) [OF q]] spsc.bounded [OF ring_ofD(1) [OF q]]
    by (auto split: if_splits)
  have o: "length (samples ?o) = MAX_SAMPLES"
    using ring_of_slot [OF q reserve_write_lt [OF q Some]] by (simp add: frame_wf_def)
  have b: "?fc \<le> MAX_FRAMES" "?cc \<le> MAX_CHANNELS" "length (samples f) = MAX_SAMPLES"
    using f by (simp_all add: frame_bounded_def frame_wf_def)
  have off: "unat ((of_nat ch :: u32) * 256) = ch * MAX_FRAMES" if "ch < ?cc" for ch
    using that b(2) by (intro channel_offset_u32) simp
  let ?src = "\<lambda>ch. drop (unat ((of_nat ch :: u32) * 256)) (samples f)"
  have "?fc \<le> length (?src ch)" if "ch < ?cc" for ch
    using channel_fits [of ch ?fc] that b off [OF that] by simp
  from put_channels_ok [where src = ?src, OF o b(1,2) this] obtain d where d: "copy_channels (samples f) (frame_count f) (channel_count f) (samples ?o) = Inr d"
      "length d = MAX_SAMPLES"
    and blk: "\<forall>c < ?cc. channel_block d c ?fc = take ?fc (drop (unat ((of_nat c :: u32) * 256)) (samples f))"
    by (auto simp: copy_channels_def)
  let ?g = "?o\<lparr>frame_count := frame_count f, channel_count := channel_count f, timestamp_ns := timestamp_ns f, samples := d\<rparr>"
  let ?q' = "commit_write (store_slot q i ?g)"
  have g: "frame_wf ?g" "frame_bounded ?g" using d(2) b by (simp_all add: frame_wf_def frame_bounded_def)
  have "\<forall>c < ?cc. channel_block (samples ?g) c ?fc = channel_block (samples f) c ?fc"
    using blk off by (simp add: channel_block_def)
  moreover have "items ?q' = items q @ [?g]" using write_committed(1) [OF ring_ofD(1) [OF q] Some] .
  moreover have "ring_of frame_wf IPC_QUEUE_DEPTH ?q'" using q g(1) by (intro ring_of_commit_write ring_of_store)
  moreover have "write_output f q = Inr ?q'" using Some d(1) by (simp add: write_output_def Let_def)
  ultimately show ?thesis using room g(2) by (intro exI [of _ ?q']) (auto simp: delivers_def)
qed

text \<open>The memory bus: one response for each request, in order, as long as the response bus has room.\<close>

lemma push_take:
  assumes "ring_of P n q" "P x"
  shows "ring_of P n (snd (push q x)) \<and> items (snd (push q x)) = take (n - 1) (items q @ [x])"
proof -
  obtain ok q' where p: "push q x = (ok, q')" by fastforce
  note wf = ring_ofD [OF assms(1)]
  have "items q' = take (n - 1) (items q @ [x])"
    using spsc.enq_inv [OF wf(1) p] spsc.enq_ok_iff [OF wf(1) p] spsc.bounded [OF wf(1)] wf(3)
    by (cases ok) (simp_all add: take_all)
  with p ring_of_push [OF assms p] show ?thesis by simp
qed

context dsp_node
begin

text \<open>A waiting frame and what the graph makes of it.\<close>

lemma waiting_frame:
  assumes w: "worker_ok node_ok w" and q: "items (in_queue (shm w)) = f # fs"
  shows "\<exists>i ok g f' st. peek_read (in_queue (shm w)) = Some i \<and> slot_at (in_queue (shm w)) i = f \<and>
    items (commit_read (in_queue (shm w))) = fs \<and> frame_bounded f \<and>
    run_graph ops (wants_split (shm w) (my_block w) f) (graph w) (nodes w) f (shm_base w + of_nat (in_slot_offset i)) = Inr (ok, g, f', st) \<and>
    same_block f f' \<and> (\<forall>k. node_ok (nodes w k) \<longrightarrow> node_ok (st k)) \<and> execution_order g = execution_order (graph w) \<and>
    control_block (shm w) (worker_id w) = Inr (my_block w)"
proof -
  let ?q = "in_queue (shm w)"
  note rq = worker_okD(4) [OF w]
  obtain i where i: "peek_read ?q = Some i" using peek_read_iff [OF ring_ofD(1) [OF rq]] q by (simp split: if_splits)
  have f: "slot_at ?q i = f" "items (commit_read ?q) = fs"
    using read_committed(1) [OF ring_ofD(1) [OF rq] i] q by simp_all
  have fb: "frame_bounded f" using w q by (simp add: worker_ok_def queue_bounded_def)
  have "\<forall>k \<in> set (execution_order (graph w)). node_ok (nodes w k)" using w by (simp add: worker_ok_def)
  from run_graph_ok [OF this fb, of "wants_split (shm w) (my_block w) f" "shm_base w + of_nat (in_slot_offset i)"]
  obtain ok g f' st where
    "run_graph ops (wants_split (shm w) (my_block w) f) (graph w) (nodes w) f (shm_base w + of_nat (in_slot_offset i)) = Inr (ok, g, f', st)"
      "same_block f f'" "\<forall>k. node_ok (nodes w k) \<longrightarrow> node_ok (st k)" "execution_order g = execution_order (graph w)" by blast
  moreover have "control_block (shm w) (worker_id w) = Inr (my_block w)"
    using worker_okD(2,3) [OF w] by (simp add: control_block_def my_block_def)
  ultimately show ?thesis using i f fb by blast
qed

text \<open>A waiting block without samples ends the iteration in an undefined conversion.\<close>

lemma process_frame_empty:
  assumes w: "worker_ok node_ok w" and q: "items (in_queue (shm w)) = f # fs" and fc: "frame_count f = 0"
  shows "process_frame ops env w = Inl Undefined_Conversion"
proof -
  from waiting_frame [OF w q] obtain i ok g f' st where
    i: "peek_read (in_queue (shm w)) = Some i" "slot_at (in_queue (shm w)) i = f"
    and r: "run_graph ops (wants_split (shm w) (my_block w) f) (graph w) (nodes w) f (shm_base w + of_nat (in_slot_offset i)) = Inr (ok, g, f', st)"
      "same_block f f'" "control_block (shm w) (worker_id w) = Inr (my_block w)" by blast
  have "frame_count f' = 0" using same_block_fields [OF r(2)] fc by simp
  then show ?thesis
    unfolding process_frame_def i(1) option.case r(3) sum.case Let_def i(2) r(1) prod.case by (simp add: actual_load_empty)
qed

text \<open>
  A wake-up with a frame waiting: the frame leaves the input queue, the graph's result goes to the
  output queue if there is room, and the rest of the shared memory but the control block stays.
\<close>

lemma process_frame_ok:
  assumes w: "worker_ok node_ok w" and e: "env_ok env"
    and q: "items (in_queue (shm w)) = f # fs" and fc: "frame_count f \<noteq> 0"
  shows "\<exists>ok g f' st oq l addr iq. run_graph ops (wants_split (shm w) (my_block w) f) (graph w) (nodes w) f addr = Inr (ok, g, f', st) \<and>
    same_block f f' \<and> execution_order g = execution_order (graph w) \<and> (\<forall>k. node_ok (nodes w k) \<longrightarrow> node_ok (st k)) \<and>
    process_frame ops env w = Inr (w\<lparr>graph := g, nodes := st,
      shm := (set_my_block (\<lambda>b. b\<lparr>load_pct := clamp_load l, last_error := (if ok then last_error b else DEVICE_LOST)\<rparr>) w)
        \<lparr>in_queue := iq, out_queue := oq\<rparr>,
      signals := signals w + (if retry_write (write_interrupts env) (write_ok env) then 1 else 0)\<rparr>) \<and>
    write_output f' (out_queue (shm w)) = Inr oq \<and> ring_of frame_wf IPC_QUEUE_DEPTH oq \<and>
    actual_load (frame_count f) (elapsed_us env) = Inr l \<and> frame_bounded f' \<and>
    ring_of frame_wf IPC_QUEUE_DEPTH iq \<and> items iq = fs"
proof -
  let ?q = "in_queue (shm w)" and ?oq = "out_queue (shm w)"
  note rq = worker_okD(4) [OF w] and ro = worker_okD(5) [OF w]
  from waiting_frame [OF w q] obtain i ok g f' st where
    i: "peek_read ?q = Some i" and f: "slot_at ?q i = f" and rest: "items (commit_read ?q) = fs" and fb: "frame_bounded f"
    and r: "run_graph ops (wants_split (shm w) (my_block w) f) (graph w) (nodes w) f (shm_base w + of_nat (in_slot_offset i)) = Inr (ok, g, f', st)"
      "same_block f f'" "\<forall>k. node_ok (nodes w k) \<longrightarrow> node_ok (st k)" "execution_order g = execution_order (graph w)"
    and cb: "control_block (shm w) (worker_id w) = Inr (my_block w)" by blast
  note fb' = same_block_bounded [OF r(2) fb]
  have fc': "frame_count f' = frame_count f" using same_block_fields [OF r(2)] by simp
  obtain l where l: "actual_load (frame_count f) (elapsed_us env) = Inr l"
    using actual_load_defined [OF fc] e by (auto simp: env_ok_def)
  from write_output_spec [OF ro fb'] obtain oq where oq: "write_output f' ?oq = Inr oq" "ring_of frame_wf IPC_QUEUE_DEPTH oq" by blast
  let ?m = "set_my_block (\<lambda>b. b\<lparr>load_pct := clamp_load l, last_error := (if ok then last_error b else DEVICE_LOST)\<rparr>) w"
  have ub: "update_control_block (\<lambda>b. b\<lparr>load_pct := clamp_load l, last_error := (if ok then last_error b else DEVICE_LOST)\<rparr>)
      (worker_id w) (shm w) = Inr ?m"
    using update_control_block_ok worker_okD(2,3) [OF w] by (simp add: set_my_block_def my_block_def)
  let ?iq = "commit_read (store_slot ?q i f')"
  have riq: "ring_of frame_wf IPC_QUEUE_DEPTH ?iq"
    using rq fb' by (intro ring_of_commit_read ring_of_store) (simp_all add: frame_bounded_def)
  have it: "items ?iq = fs"
  proof -
    have peek: "peek_read (store_slot ?q i f') = Some i" using i by (simp add: peek_read_def store_slot_def)
    have wf: "ring_wf (store_slot ?q i f')" using ring_ofD(1) [OF rq] by simp
    have "items (commit_read (store_slot ?q i f')) = items (commit_read ?q)"
      using items_store_head [OF ring_ofD(1) [OF rq] i] by simp
    with rest show ?thesis by simp
  qed
  have "process_frame ops env w = Inr (w\<lparr>graph := g, nodes := st, shm := ?m\<lparr>in_queue := ?iq, out_queue := oq\<rparr>,
      signals := signals w + (if retry_write (write_interrupts env) (write_ok env) then 1 else 0)\<rparr>)"
    unfolding process_frame_def i option.case cb sum.case Let_def f r(1) prod.case fc' l ub
    using oq(1) by (simp add: set_my_block_def)
  then show ?thesis using r oq l fb' riq it by blast
qed

lemma worker_ok_after:
  assumes "worker_ok node_ok w" "node_ok n"
    and "length (workers m) = 8" "in_queue m = in_queue (shm w)" "out_queue m = out_queue (shm w)"
    and "ring_of (\<lambda>e. True) 64 (control_bus m)" "ring_of (\<lambda>r. True) 32 (memory_request_bus m)"
    and "ring_of (\<lambda>r. True) 32 (memory_response_bus m)" "log_bus m = log_bus (shm w)"
    and "data_staging m = data_staging (shm w)"
  shows "worker_ok node_ok (w\<lparr>nodes := (nodes w)(primary_node w := n), shm := m\<rparr>)"
  using assms by (simp add: worker_ok_def shm_wf_def)

text \<open>A request that is served keeps the node and the response bus, an upload included.\<close>

lemma request_inv:
  assumes "handle_request ops front m r (n, bus) = Inr (n', bus')" "node_ok n" "ring_of (\<lambda>r. True) 32 bus"
  shows "node_ok n' \<and> ring_of (\<lambda>r. True) 32 bus'"
proof -
  have push: "ring_of (\<lambda>r. True) 32 (snd (push bus x))" for x using push_take [OF assms(3) TrueI] by simp
  show ?thesis
    using assms(1,2) push node_allocate_ok [of n "req_size r"] node_free_ok [of n "req_handle r"] node_upload_ok
    by (cases "req_type r") (auto simp: handle_request_def Let_def split: prod.split_asm sum.split_asm)
qed

lemma serve_inv:
  assumes w: "worker_ok node_ok w" and s: "serve_memory_bus ops front w = Inr w'"
  shows "worker_ok node_ok w' \<and> my_block w' = my_block w \<and> control_bus (shm w') = control_bus (shm w) \<and>
    in_queue (shm w') = in_queue (shm w) \<and> out_queue (shm w') = out_queue (shm w) \<and> items (memory_request_bus (shm w')) = []"
proof -
  let ?body = "handle_request ops front (shm w)" and ?s = "(nodes w (primary_node w), memory_response_bus (shm w))"
  note d = drain_eq [OF worker_okD(7) [OF w], of ?body ?s]
  obtain n bus where f: "for_each ?body (items (memory_request_bus (shm w))) ?s = Inr (n, bus)"
    using d s by (cases "for_each ?body (items (memory_request_bus (shm w))) ?s") (auto simp: serve_memory_bus_def)
  with d obtain q where q: "drain ?body (memory_request_bus (shm w)) ?s = Inr (q, n, bus)" "items q = []" "ring_of (\<lambda>r. True) 32 q"
    by auto
  have "(\<lambda>(n, bus). node_ok n \<and> ring_of (\<lambda>r. True) 32 bus) (n, bus)"
    by (rule for_each_inv [OF f]) (use worker_okD(8,9) [OF w] request_inv in auto)
  then have k: "node_ok n" "ring_of (\<lambda>r. True) 32 bus" by simp_all
  have w': "w' = w\<lparr>nodes := (nodes w)(primary_node w := n), shm := (shm w)\<lparr>memory_request_bus := q, memory_response_bus := bus\<rparr>\<rparr>"
    using s q(1) by (simp add: serve_memory_bus_def)
  have "worker_ok node_ok w'"
    unfolding w' by (rule worker_ok_after) (use w k q in \<open>simp_all add: worker_ok_def shm_wf_def\<close>)
  then show ?thesis using q(2) by (simp add: w' my_block_def)
qed

lemma requests_ok:
  assumes "list_all (\<lambda>r. req_type r \<noteq> UPLOAD) rs" "node_ok n" "ring_of (\<lambda>r. True) 32 bus"
  shows "\<exists>n' bus'. for_each (handle_request ops front m) rs (n, bus) = Inr (n', bus') \<and> node_ok n' \<and>
    ring_of (\<lambda>r. True) 32 bus' \<and>
    map resp_request_id (items bus') = take 31 (map resp_request_id (items bus) @ map request_id rs)"
  using assms
proof (induction rs arbitrary: n bus)
  case Nil
  have "length (items bus) \<le> 31"
    using spsc.bounded [OF ring_ofD(1) [OF Nil.prems(3)]] ring_ofD(3) [OF Nil.prems(3)] by simp
  with Nil show ?case by (simp add: take_all)
next
  case (Cons r rs)
  obtain ah an where a: "allocate_buffer ops n (req_size r) = (ah, an)" by fastforce
  obtain n1 resp where h: "handle_request ops front m r (n, bus) = Inr (n1, snd (push bus resp))" "node_ok n1"
      "resp_request_id resp = request_id r"
    using Cons.prems(1,2) node_allocate_ok [of n "req_size r"] node_free_ok [of n "req_handle r"]
    by (cases "req_type r") (auto simp: handle_request_def a)
  note p = push_take [OF Cons.prems(3) TrueI, of resp]
  from Cons.IH [OF _ h(2) conjunct1 [OF p]] Cons.prems(1) obtain n' bus' where
    i: "for_each (handle_request ops front m) rs (n1, snd (push bus resp)) = Inr (n', bus')" "node_ok n'"
      "ring_of (\<lambda>r. True) 32 bus'"
      "map resp_request_id (items bus') = take 31 (map resp_request_id (items (snd (push bus resp))) @ map request_id rs)"
    by auto
  have "map resp_request_id (items (snd (push bus resp))) = take 31 (map resp_request_id (items bus) @ [request_id r])"
  proof -
    have "map resp_request_id (items (snd (push bus resp))) = take (32 - 1) (map resp_request_id (items bus @ [resp]))"
      using p by (simp only: take_map)
    then show ?thesis by (simp only: map_append list.map h(3)) simp
  qed
  then have "map resp_request_id (items bus') = take 31 ((map resp_request_id (items bus) @ [request_id r]) @ map request_id rs)"
    using i(4) by (simp only: take_take_append)
  with i(1-3) h(1) show ?case by (simp del: take_append)
qed

lemma serve_memory_bus_ok:
  assumes w: "worker_ok node_ok w" and r: "list_all (\<lambda>r. req_type r \<noteq> UPLOAD) (items (memory_request_bus (shm w)))"
  shows "\<exists>n q bus. serve_memory_bus ops front w = Inr (w\<lparr>nodes := (nodes w)(primary_node w := n),
       shm := (shm w)\<lparr>memory_request_bus := q, memory_response_bus := bus\<rparr>\<rparr>) \<and> node_ok n \<and> items q = [] \<and>
    ring_of (\<lambda>r. True) 32 q \<and> ring_of (\<lambda>r. True) 32 bus \<and>
    map resp_request_id (items bus) = take 31 (map resp_request_id (items (memory_response_bus (shm w)))
      @ map request_id (items (memory_request_bus (shm w))))"
proof -
  from requests_ok [OF r worker_okD(9) [OF w] worker_okD(8) [OF w], of front "shm w"] obtain n bus where
    b: "for_each (handle_request ops front (shm w)) (items (memory_request_bus (shm w)))
      (nodes w (primary_node w), memory_response_bus (shm w)) = Inr (n, bus)" "node_ok n" "ring_of (\<lambda>r. True) 32 bus"
      "map resp_request_id (items bus) = take 31 (map resp_request_id (items (memory_response_bus (shm w)))
        @ map request_id (items (memory_request_bus (shm w))))" by blast
  from drain_eq [OF worker_okD(7) [OF w], of "handle_request ops front (shm w)"
      "(nodes w (primary_node w), memory_response_bus (shm w))"] b(1)
  obtain q where q: "drain (handle_request ops front (shm w)) (memory_request_bus (shm w))
      (nodes w (primary_node w), memory_response_bus (shm w)) = Inr (q, n, bus)" "items q = []"
    "ring_of (\<lambda>r. True) 32 q" by auto
  have "serve_memory_bus ops front w = Inr (w\<lparr>nodes := (nodes w)(primary_node w := n),
       shm := (shm w)\<lparr>memory_request_bus := q, memory_response_bus := bus\<rparr>\<rparr>)"
    using q(1) by (simp add: serve_memory_bus_def)
  with b q show ?thesis by blast
qed

text \<open>The audio part of an iteration, whether or not a frame is waiting.\<close>

lemma audio_step_ok:
  assumes w: "worker_ok node_ok w" and e: "env_ok env" and nz: "\<not> empty_block_next w"
  shows "\<exists>w'. process_frame ops env w = Inr w' \<and> worker_ok node_ok w' \<and> worker_id w' = worker_id w \<and>
    primary_node w' = primary_node w \<and>
    heartbeat (my_block w') = heartbeat (my_block w) \<and> control_bus (shm w') = control_bus (shm w) \<and>
    memory_request_bus (shm w') = memory_request_bus (shm w) \<and> memory_response_bus (shm w') = memory_response_bus (shm w) \<and>
    items (in_queue (shm w')) = drop 1 (items (in_queue (shm w))) \<and>
    audio_result (items (in_queue (shm w))) (out_queue (shm w)) (out_queue (shm w')) \<and>
    (items (in_queue (shm w)) \<noteq> [] \<longrightarrow> load_pct (my_block w') \<le> 100)"
proof (cases "items (in_queue (shm w))")
  case Nil
  then have "process_frame ops env w = Inr w"
    using peek_read_iff [OF ring_ofD(1) [OF worker_okD(4) [OF w]]] by (simp add: process_frame_def)
  with Nil w show ?thesis by (simp add: audio_result_def)
next
  case (Cons f fs)
  have fc: "frame_count f \<noteq> 0" using nz Cons by (simp add: empty_block_next_def)
  from process_frame_ok [OF w e Cons fc] obtain ok g f' st oq l iq where
    r: "same_block f f'" "execution_order g = execution_order (graph w)" "\<forall>k. node_ok (nodes w k) \<longrightarrow> node_ok (st k)"
    and pf: "process_frame ops env w = Inr (w\<lparr>graph := g, nodes := st,
      shm := (set_my_block (\<lambda>b. b\<lparr>load_pct := clamp_load l, last_error := (if ok then last_error b else DEVICE_LOST)\<rparr>) w)
        \<lparr>in_queue := iq, out_queue := oq\<rparr>,
      signals := signals w + (if retry_write (write_interrupts env) (write_ok env) then 1 else 0)\<rparr>)" (is "_ = Inr ?w'")
    and o: "write_output f' (out_queue (shm w)) = Inr oq" "ring_of frame_wf IPC_QUEUE_DEPTH oq" "frame_bounded f'"
    and i: "ring_of frame_wf IPC_QUEUE_DEPTH iq" "items iq = fs" by blast
  have len: "length (workers (shm w)) = 8" "nat (worker_id w) < 8" using w by (auto simp: worker_ok_def shm_wf_def)
  have out: "if length (items (out_queue (shm w))) < ring_room (out_queue (shm w))
     then \<exists>g. items oq = items (out_queue (shm w)) @ [g] \<and> delivers f' g else oq = out_queue (shm w)"
    using write_output_spec [OF worker_okD(5) [OF w] o(3)] o(1) by simp
  have qb: "queue_bounded oq" "queue_bounded iq"
    using w out Cons i(2) by (auto simp: worker_ok_def queue_bounded_def delivers_def split: if_splits)
  have "worker_ok node_ok ?w'"
    using w r(2,3) o(2) i qb by (simp add: worker_ok_def shm_wf_def set_my_block_def)
  moreover have "heartbeat (my_block ?w') = heartbeat (my_block w)" "load_pct (my_block ?w') \<le> 100"
    using len clamp_load_le by (simp_all add: my_block_def set_my_block_def)
  moreover have "audio_result (f # fs) (out_queue (shm w)) oq"
    using r(1) out by (auto simp: audio_result_def split: if_splits)
  moreover have "control_bus (shm ?w') = control_bus (shm w)" "memory_request_bus (shm ?w') = memory_request_bus (shm w)"
    "memory_response_bus (shm ?w') = memory_response_bus (shm w)" "in_queue (shm ?w') = iq" "out_queue (shm ?w') = oq"
    "worker_id ?w' = worker_id w" "primary_node ?w' = primary_node w"
    by (simp_all add: set_my_block_def)
  ultimately show ?thesis
    unfolding Cons using pf i(2) by (intro exI [of _ ?w']) simp
qed

lemma after_head_ok:
  assumes "worker_ok node_ok w" "node_ok n" "ring_of (\<lambda>e. True) 64 q"
  shows "worker_ok node_ok (after_head w n q)"
  unfolding after_head_def
  by (rule worker_ok_after [OF assms(1,2)]) (use worker_okD [OF assms(1)] assms(3) in \<open>simp_all add: set_my_block_def shm_wf_def\<close>)

text \<open>The audio part of an iteration, whether or not \<open>poll\<close> reported a signal.\<close>

lemma audio_part_ok:
  assumes w: "worker_ok node_ok w" and e: "env_ok env" and nz: "\<not> empty_block_next w"
  shows "\<exists>w'. (if poll_ready env then process_frame ops env w else Inr w) = Inr w' \<and> worker_ok node_ok w' \<and>
    worker_id w' = worker_id w \<and> heartbeat (my_block w') = heartbeat (my_block w) \<and>
    control_bus (shm w') = control_bus (shm w) \<and> memory_request_bus (shm w') = memory_request_bus (shm w) \<and>
    memory_response_bus (shm w') = memory_response_bus (shm w) \<and>
    items (in_queue (shm w')) = (if poll_ready env then drop 1 (items (in_queue (shm w))) else items (in_queue (shm w))) \<and>
    audio_result (if poll_ready env then items (in_queue (shm w)) else []) (out_queue (shm w)) (out_queue (shm w')) \<and>
    (poll_ready env \<and> items (in_queue (shm w)) \<noteq> [] \<longrightarrow> load_pct (my_block w') \<le> 100)"
proof (cases "poll_ready env")
  case True
  with audio_step_ok [OF w e nz] show ?thesis by auto
next
  case False
  with w show ?thesis by (simp add: audio_result_def)
qed

text \<open>The memory bus at the end of an iteration.\<close>

lemma bus_part_ok:
  assumes w: "worker_ok node_ok w" and r: "list_all (\<lambda>r. req_type r \<noteq> UPLOAD) (items (memory_request_bus (shm w)))"
  shows "\<exists>w'. serve_memory_bus ops front w = Inr w' \<and> worker_ok node_ok w' \<and> worker_id w' = worker_id w \<and>
    my_block w' = my_block w \<and> control_bus (shm w') = control_bus (shm w) \<and> in_queue (shm w') = in_queue (shm w) \<and>
    out_queue (shm w') = out_queue (shm w) \<and> items (memory_request_bus (shm w')) = [] \<and>
    map resp_request_id (items (memory_response_bus (shm w'))) = take 31 (map resp_request_id (items (memory_response_bus (shm w)))
      @ map request_id (items (memory_request_bus (shm w))))"
proof -
  from serve_memory_bus_ok [OF w r, of front] obtain n q bus where
    s: "serve_memory_bus ops front w = Inr (w\<lparr>nodes := (nodes w)(primary_node w := n),
       shm := (shm w)\<lparr>memory_request_bus := q, memory_response_bus := bus\<rparr>\<rparr>)" (is "_ = Inr ?w'")
    and m: "node_ok n" "items q = []" "ring_of (\<lambda>r. True) 32 q" "ring_of (\<lambda>r. True) 32 bus"
      "map resp_request_id (items bus) = take 31 (map resp_request_id (items (memory_response_bus (shm w)))
        @ map request_id (items (memory_request_bus (shm w))))" by blast
  have "worker_ok node_ok ?w'"
    by (rule worker_ok_after) (use w m in \<open>simp_all add: worker_ok_def shm_wf_def\<close>)
  moreover have "my_block ?w' = my_block w" by (simp add: my_block_def)
  ultimately show ?thesis using s m by (intro exI [of _ ?w']) simp
qed

text \<open>
  An iteration from a state that can run: it ends in such a state, counts one heartbeat, takes at
  most one frame and only when \<open>poll\<close> reported one, and answers the pending requests unless the
  \<open>read\<close> failed.
\<close>

lemma worker_iteration_ok:
  assumes w: "worker_ok node_ok w" and p: "pending_ok event_ok (shm w)" and e: "env_ok env"
  shows "\<exists>w'. worker_iteration ops front env w = Inr w' \<and> worker_ok node_ok w' \<and>
    worker_id w' = worker_id w \<and> heartbeat (my_block w') = heartbeat (my_block w) + 1 \<and>
    items (control_bus (shm w')) = [] \<and>
    items (in_queue (shm w')) = (if poll_ready env \<and> read_ok env then drop 1 (items (in_queue (shm w))) else items (in_queue (shm w))) \<and>
    audio_result (if poll_ready env \<and> read_ok env then items (in_queue (shm w)) else [])
      (out_queue (shm w)) (out_queue (shm w')) \<and>
    (poll_ready env \<and> read_ok env \<and> items (in_queue (shm w)) \<noteq> [] \<longrightarrow> load_pct (my_block w') \<le> 100) \<and>
    (if poll_ready env \<and> \<not> read_ok env then memory_request_bus (shm w') = memory_request_bus (shm w) \<and>
       memory_response_bus (shm w') = memory_response_bus (shm w)
     else items (memory_request_bus (shm w')) = [] \<and>
       map resp_request_id (items (memory_response_bus (shm w'))) =
         take 31 (map resp_request_id (items (memory_response_bus (shm w))) @ map request_id (items (memory_request_bus (shm w)))))"
proof -
  let ?body = "\<lambda>e n. apply_control_event ops n (parameter_id e) (evt_value e)"
  have "\<exists>n. for_each ?body (items (control_bus (shm w))) (bypassed ops w) = Inr n \<and> node_ok n"
    using p control_ok bypass_ok [OF worker_okD(9) [OF w]]
    by (intro for_each_ok) (auto simp: pending_ok_def list_all_iff)
  then obtain n where n: "for_each ?body (items (control_bus (shm w))) (bypassed ops w) = Inr n" "node_ok n" by blast
  from iteration_head [OF w n(1), of front env] obtain q where
    q: "items q = []" "ring_of (\<lambda>e. True) 64 q" and it: "worker_iteration ops front env w =
      (if poll_ready env \<and> \<not> read_ok env then Inr (after_head w n q)
       else case (if poll_ready env then process_frame ops env (after_head w n q) else Inr (after_head w n q)) of
           Inl e \<Rightarrow> Inl e
         | Inr w3 \<Rightarrow> serve_memory_bus ops front w3)" by blast
  define w2 where "w2 = after_head w n q"
  note it = it [folded w2_def]
  have w2: "worker_ok node_ok w2" "items (control_bus (shm w2)) = []" "in_queue (shm w2) = in_queue (shm w)"
    "out_queue (shm w2) = out_queue (shm w)" "memory_request_bus (shm w2) = memory_request_bus (shm w)"
    "memory_response_bus (shm w2) = memory_response_bus (shm w)" "worker_id w2 = worker_id w"
    "heartbeat (my_block w2) = heartbeat (my_block w) + 1"
    using after_head_ok [OF w n(2) q(2)] after_head_block [OF w] q(1) by (simp_all add: w2_def)
  show ?thesis
  proof (cases "poll_ready env \<and> \<not> read_ok env")
    case True
    with it w2 show ?thesis by (auto simp: audio_result_def)
  next
    case False
    have "\<not> empty_block_next w2" using pending_not_empty [OF p] w2(3) by (simp add: empty_block_next_def)
    from audio_part_ok [OF w2(1) e this] obtain w3 where
      w3: "(if poll_ready env then process_frame ops env w2 else Inr w2) = Inr w3" "worker_ok node_ok w3" "worker_id w3 = worker_id w2"
        "heartbeat (my_block w3) = heartbeat (my_block w2)" "control_bus (shm w3) = control_bus (shm w2)"
        "memory_request_bus (shm w3) = memory_request_bus (shm w2)" "memory_response_bus (shm w3) = memory_response_bus (shm w2)"
        "items (in_queue (shm w3)) = (if poll_ready env then drop 1 (items (in_queue (shm w2))) else items (in_queue (shm w2)))"
        "audio_result (if poll_ready env then items (in_queue (shm w2)) else []) (out_queue (shm w2)) (out_queue (shm w3))"
        "poll_ready env \<and> items (in_queue (shm w2)) \<noteq> [] \<longrightarrow> load_pct (my_block w3) \<le> 100" by blast
    have "list_all (\<lambda>r. req_type r \<noteq> UPLOAD) (items (memory_request_bus (shm w3)))" using p w3(6) w2(5) by (simp add: pending_ok_def)
    from bus_part_ok [OF w3(2) this, of front] it False w2 w3 show ?thesis by auto
  qed
qed

end

end
