(* ===== verification/Worker_Spec.thy ===== *)
theory Worker_Spec
  imports Worker
begin

text \<open>
  What the worker of \<open>daemon/worker.cpp\<close> guarantees with either of its back ends and any answers of
  the Vulkan API, when what waits for it is within the back end's domain (\<open>pending_ok\<close>; the other cases are
  in \<open>Worker_Faults\<close>): audio goes through in order and at most one block per wake-up, the memory bus is
  answered in order; and what its start-up and its zero-copy path do.
\<close>

abbreviation real_ops :: "vk_api \<Rightarrow> (dsp_vulkan_context vulkan_backend + npu_backend) node_ops" where
  "real_ops api \<equiv> worker_ops (real_driver api)"

abbreviation real_node_ok :: "dsp_vulkan_context vulkan_backend + npu_backend \<Rightarrow> bool" where
  "real_node_ok \<equiv> case_sum (vb_ok pool_wf) (\<lambda>n. True)"

abbreviation real_event_ok :: "u32 \<Rightarrow> f32 \<Rightarrow> bool" where
  "real_event_ok \<equiv> \<lambda>k v. vb_event_ok k v \<and> True"

lemmas iteration_ok = real_worker.either.worker_iteration_ok [folded worker_ops_def]

section \<open>A concrete worker\<close>

definition demo_frame :: dsp_audio_frame where
  "demo_frame = frame_zero\<lparr>frame_count := 64, channel_count := 2, timestamp_ns := 9\<rparr>"

definition demo_shm :: dsp_shared_memory where
  "demo_shm = shm_zero\<lparr>in_queue := snd (push (in_queue shm_zero) demo_frame),
     memory_request_bus := snd (push (memory_request_bus shm_zero) (request_zero\<lparr>request_id := 5\<rparr>))\<rparr>"

definition demo_worker :: "(dsp_vulkan_context vulkan_backend + npu_backend) worker" where
  "demo_worker = \<lparr>worker_id = 1, shm_fd = 3, shm_base = 4096, shm = demo_shm,
     graph = add_node_to_sequence empty_graph 0, nodes = (\<lambda>k. Inr new_npu_backend), primary_node = 0, signals = 0\<rparr>"

definition demo_env :: loop_env where
  "demo_env = \<lparr>poll_ready = True, read_ok = True, elapsed_us = 100, write_interrupts = 2, write_ok = True\<rparr>"

lemma shm_zero_rings:
  "ring_of frame_wf IPC_QUEUE_DEPTH (in_queue shm_zero)" "ring_of frame_wf IPC_QUEUE_DEPTH (out_queue shm_zero)"
  "ring_of (\<lambda>e. True) 64 (control_bus shm_zero)" "ring_of (\<lambda>r. True) 32 (memory_request_bus shm_zero)"
  "ring_of (\<lambda>r. True) 32 (memory_response_bus shm_zero)" "ring_of log_entry_wf 32 (log_bus shm_zero)"
  using shm_zero_wf by (simp_all add: shm_wf_def)

lemma demo_frame_bounded: "frame_bounded demo_frame" "frame_wf demo_frame"
  by (simp_all add: demo_frame_def frame_bounded_def frame_wf_def frame_zero_def MAX_FRAMES_def MAX_CHANNELS_def)

lemma demo_shm_queues:
  "items (in_queue demo_shm) = [demo_frame]" "items (out_queue demo_shm) = []" "items (control_bus demo_shm) = []"
  "items (memory_request_bus demo_shm) = [request_zero\<lparr>request_id := 5\<rparr>]" "items (memory_response_bus demo_shm) = []"
  using push_take [OF shm_zero_rings(1) demo_frame_bounded(2)]
    push_take [OF shm_zero_rings(4), of "request_zero\<lparr>request_id := 5\<rparr>"]
  by (simp_all add: demo_shm_def IPC_QUEUE_DEPTH_def)

lemma demo_shm_wf: "shm_wf demo_shm"
  using shm_zero_wf push_take [OF shm_zero_rings(1) demo_frame_bounded(2)]
    push_take [OF shm_zero_rings(4), of "request_zero\<lparr>request_id := 5\<rparr>"]
  by (simp add: demo_shm_def shm_wf_def)

lemma demo_worker_ok: "worker_ok real_node_ok demo_worker"
  using demo_shm_wf demo_shm_queues demo_frame_bounded
  by (simp add: worker_ok_def demo_worker_def queue_bounded_def add_node_to_sequence_def empty_graph_def)

lemma demo_pending: "pending_ok real_event_ok (shm demo_worker)" "env_ok demo_env"
  by (simp_all add: demo_worker_def pending_ok_def demo_shm_queues demo_frame_def request_zero_def env_ok_def demo_env_def)

section \<open>Properties\<close>

text \<open>
  One wake-up processes at most one block: when \<open>poll\<close> and \<open>read\<close> succeed, the oldest block
  leaves the input queue and its result is appended to the output queue (or dropped when that is
  full) with the same counts and time stamp and the load stored is at most 100; every further block
  stays queued, although reading the event descriptor has reset its count. Without a wake-up
  both queues stay as they are.
\<close>

theorem one_block_per_wakeup:
  assumes "worker_ok real_node_ok w" "pending_ok real_event_ok (shm w)" "env_ok env"
  shows "\<exists>w'. worker_iteration (real_ops api) front env w = Inr w' \<and>
    items (in_queue (shm w')) = (if poll_ready env \<and> read_ok env then drop 1 (items (in_queue (shm w)))
      else items (in_queue (shm w))) \<and>
    audio_result (if poll_ready env \<and> read_ok env then items (in_queue (shm w)) else [])
      (out_queue (shm w)) (out_queue (shm w')) \<and>
    (poll_ready env \<and> read_ok env \<and> items (in_queue (shm w)) \<noteq> [] \<longrightarrow> load_pct (my_block w') \<le> 100)"
  using iteration_ok [OF assms, of api front] by blast

theorem one_block_per_wakeup_witness:
  "\<exists>w' g. worker_iteration (real_ops demo_api) [] demo_env demo_worker = Inr w' \<and>
     items (in_queue (shm w')) = [] \<and> items (out_queue (shm w')) = [g] \<and> timestamp_ns g = 9"
proof -
  have room: "ring_room (out_queue demo_shm) = 15" "items (out_queue demo_shm) = []"
    using ring_ofD(3) [OF shm_zero_rings(2)] by (simp_all add: demo_shm_def IPC_QUEUE_DEPTH_def)
  from one_block_per_wakeup [OF demo_worker_ok demo_pending, of demo_api "[]"] obtain w' where
    w: "worker_iteration (real_ops demo_api) [] demo_env demo_worker = Inr w'"
      "items (in_queue (shm w')) = []" "audio_result [demo_frame] (out_queue demo_shm) (out_queue (shm w'))"
    by (auto simp: demo_env_def demo_worker_def demo_shm_queues)
  from w(3) room obtain f' g where "same_block demo_frame f'" "delivers f' g" "items (out_queue (shm w')) = [g]"
    by (auto simp: audio_result_def)
  then have "items (out_queue (shm w')) = [g]" "timestamp_ns g = 9"
    using same_block_fields [of demo_frame f'] by (simp_all add: delivers_def demo_frame_def)
  with w show ?thesis by blast
qed

text \<open>
  The memory bus is answered in the order of the requests: after an iteration whose \<open>read\<close> did not
  fail no request is pending, and the response bus holds its earlier responses followed by one
  response for each request, with the request's number, cut off at the 31 entries the bus holds; what
  is beyond is lost. A failed \<open>read\<close> leaves both buses alone.
\<close>

theorem memory_bus_in_order:
  assumes "worker_ok real_node_ok w" "pending_ok real_event_ok (shm w)" "env_ok env"
  shows "\<exists>w'. worker_iteration (real_ops api) front env w = Inr w' \<and>
    (if poll_ready env \<and> \<not> read_ok env
     then memory_request_bus (shm w') = memory_request_bus (shm w) \<and> memory_response_bus (shm w') = memory_response_bus (shm w)
     else items (memory_request_bus (shm w')) = [] \<and>
       map resp_request_id (items (memory_response_bus (shm w'))) =
         take 31 (map resp_request_id (items (memory_response_bus (shm w))) @ map request_id (items (memory_request_bus (shm w)))))"
  using iteration_ok [OF assms, of api front] by blast

theorem memory_bus_in_order_witness:
  "\<exists>w'. worker_iteration (real_ops demo_api) [] demo_env demo_worker = Inr w' \<and>
     map resp_request_id (items (memory_response_bus (shm w'))) = [5]"
  using memory_bus_in_order [OF demo_worker_ok demo_pending, of demo_api "[]"]
  by (auto simp: demo_env_def demo_worker_def demo_shm_queues)

text \<open>Iterations in a row, with nothing new on the buses.\<close>

definition wakeups :: "loop_env list \<Rightarrow> nat" where
  "wakeups envs = length (filter (\<lambda>e. poll_ready e \<and> read_ok e) envs)"

lemma pending_after:
  assumes p: "pending_ok real_event_ok (shm w)"
    and c: "items (control_bus (shm w')) = []"
    and i: "items (in_queue (shm w')) = drop n (items (in_queue (shm w)))"
    and m: "items (memory_request_bus (shm w')) = [] \<or> memory_request_bus (shm w') = memory_request_bus (shm w)"
  shows "pending_ok real_event_ok (shm w')"
  using p c i m by (auto simp: pending_ok_def list_all_iff dest: in_set_dropD)

text \<open>
  The loop makes progress: over any number of iterations it returns, counts as many heartbeats as
  iterations (modulo 2^64), takes exactly one block per successful wake-up in the order they
  were queued, and keeps the worker able to run.
\<close>

theorem worker_loop_progress:
  assumes "worker_ok real_node_ok w" "pending_ok real_event_ok (shm w)" "list_all env_ok envs"
  shows "\<exists>w'. worker_loop (real_ops api) front envs w = Inr w' \<and> worker_ok real_node_ok w' \<and>
    heartbeat (my_block w') = heartbeat (my_block w) + of_nat (length envs) \<and>
    items (in_queue (shm w')) = drop (wakeups envs) (items (in_queue (shm w)))"
  using assms
proof (induction envs arbitrary: w)
  case Nil
  then show ?case by (simp add: worker_loop_def wakeups_def)
next
  case (Cons e envs)
  let ?n = "if poll_ready e \<and> read_ok e then 1 else 0"
  from Cons.prems(3) have e: "env_ok e" "list_all env_ok envs" by simp_all
  from iteration_ok [OF Cons.prems(1,2) e(1), of api front] obtain w1 where
    w1: "worker_iteration (real_ops api) front e w = Inr w1" "worker_ok real_node_ok w1"
      "heartbeat (my_block w1) = heartbeat (my_block w) + 1" "items (control_bus (shm w1)) = []"
      "items (in_queue (shm w1)) = drop ?n (items (in_queue (shm w)))"
      "items (memory_request_bus (shm w1)) = [] \<or> memory_request_bus (shm w1) = memory_request_bus (shm w)"
    by (auto split: if_splits)
  have p1: "pending_ok real_event_ok (shm w1)"
    by (rule pending_after [OF Cons.prems(2) w1(4,5,6)])
  from Cons.IH [OF w1(2) p1 e(2)] obtain w' where
    w': "worker_loop (real_ops api) front envs w1 = Inr w'" "worker_ok real_node_ok w'"
      "heartbeat (my_block w') = heartbeat (my_block w1) + of_nat (length envs)"
      "items (in_queue (shm w')) = drop (wakeups envs) (items (in_queue (shm w1)))" by blast
  have "wakeups (e # envs) = wakeups envs + ?n" by (simp add: wakeups_def)
  with w' w1 show ?case by (intro exI [of _ w']) (simp add: worker_loop_def)
qed

theorem worker_loop_progress_witness:
  "\<exists>w'. worker_loop (real_ops demo_api) [] [demo_env, demo_env\<lparr>poll_ready := False\<rparr>] demo_worker = Inr w' \<and>
     heartbeat (my_block w') = 2 \<and> items (in_queue (shm w')) = []"
proof -
  have "heartbeat (my_block demo_worker) = 0"
    by (simp add: my_block_def demo_worker_def demo_shm_def wcb_zero_def)
  moreover have "list_all env_ok [demo_env, demo_env\<lparr>poll_ready := False\<rparr>]"
    by (simp add: env_ok_def demo_env_def)
  ultimately show ?thesis
    using worker_loop_progress [OF demo_worker_ok demo_pending(1), of "[demo_env, demo_env\<lparr>poll_ready := False\<rparr>]" demo_api "[]"]
    by (auto simp: wakeups_def demo_env_def demo_worker_def demo_shm_queues)
qed

lemma worker_staging: "supports_staging (get_descriptor (worker_ops drv) n)"
  by (cases n) (simp_all add: worker_ops_def sum_ops_def vulkan_ops_def vb_descriptor_def npu_ops_def npu_descriptor_def)

text \<open>
  Splitting a block changes nothing: for every graph of the worker's nodes the parallel routine
  computes what the sequential one does, whatever the number of blocks, because every node
  supports staging and the number is not used.
\<close>

theorem parallel_equals_sequential:
  "process_graph_parallel (worker_ops drv) g st f addr k = process_graph (worker_ops drv) g st f addr"
  by (simp add: process_graph_parallel_def process_graph_def run_staging_eq worker_staging)

definition last_value :: "dsp_control_event list \<Rightarrow> u32 \<Rightarrow> f32 \<Rightarrow> f32" where
  "last_value es k d = (case filter (\<lambda>e. parameter_id e = k) es of [] \<Rightarrow> d | xs \<Rightarrow> evt_value (last xs))"

lemma last_value_Cons:
  "last_value (e # es) k d = last_value es k (if parameter_id e = k then evt_value e else d)"
  by (cases "filter (\<lambda>e. parameter_id e = k) es") (simp_all add: last_value_def)

abbreviation apply_event :: "dsp_control_event \<Rightarrow> 'c vulkan_backend \<Rightarrow> 'c vulkan_backend outcome" where
  "apply_event e n \<equiv> vb_apply_control_event n (parameter_id e) (evt_value e)"

text \<open>A batch of events on the back end.\<close>

lemma events_last_value:
  assumes "list_all (\<lambda>e. vb_event_ok (parameter_id e) (evt_value e)) es"
  shows "\<exists>a. for_each apply_event es n = Inr (n\<lparr>vb_params := \<lparr>
      gain = last_value es 1 (gain (vb_params n)), threshold = last_value es 2 (threshold (vb_params n)),
      param1 = last_value es 3 (param1 (vb_params n)), param2 = last_value es 4 (param2 (vb_params n)), algo_id = a\<rparr>\<rparr>) \<and>
    (if list_ex (\<lambda>e. parameter_id e = 5) es then to_u32 (last_value es 5 FNaN) = Inr a else a = algo_id (vb_params n))"
  using assms
proof (induction es arbitrary: n)
  case Nil
  then show ?case by (simp add: last_value_def)
next
  case (Cons e es)
  let ?k = "parameter_id e" and ?v = "evt_value e" and ?p = "vb_params n"
  have ok: "list_all (\<lambda>e. vb_event_ok (parameter_id e) (evt_value e)) es" using Cons.prems by simp
  have no5: "last_value es 5 d = last_value es 5 d'" if "list_ex (\<lambda>e. parameter_id e = 5) es" for d d'
    using that by (cases "filter (\<lambda>e. parameter_id e = 5) es") (auto simp: last_value_def filter_empty_conv list_ex_iff)
  have yes5: "last_value es 5 d = d" if "\<not> list_ex (\<lambda>e. parameter_id e = 5) es" for d
  proof -
    have "filter (\<lambda>e. parameter_id e = 5) es = []" using that by (auto simp: filter_empty_conv list_ex_iff)
    then show ?thesis by (simp add: last_value_def)
  qed
  obtain a0 where h: "apply_event e n = Inr (n\<lparr>vb_params := \<lparr>gain = (if ?k = 1 then ?v else gain ?p),
      threshold = (if ?k = 2 then ?v else threshold ?p), param1 = (if ?k = 3 then ?v else param1 ?p),
      param2 = (if ?k = 4 then ?v else param2 ?p), algo_id = a0\<rparr>\<rparr>)"
    "if ?k = 5 then to_u32 ?v = Inr a0 else a0 = algo_id ?p"
    using Cons.prems by (cases "?k = 5") (auto simp: vb_apply_control_event_def vb_event_ok_def Let_def succeeds_iff)
  let ?n1 = "n\<lparr>vb_params := \<lparr>gain = (if ?k = 1 then ?v else gain ?p),
      threshold = (if ?k = 2 then ?v else threshold ?p), param1 = (if ?k = 3 then ?v else param1 ?p),
      param2 = (if ?k = 4 then ?v else param2 ?p), algo_id = a0\<rparr>\<rparr>"
  from Cons.IH [OF ok, of ?n1] obtain a where
    i: "for_each apply_event es ?n1 = Inr (?n1\<lparr>vb_params := \<lparr>gain = last_value (e # es) 1 (gain ?p),
      threshold = last_value (e # es) 2 (threshold ?p), param1 = last_value (e # es) 3 (param1 ?p),
      param2 = last_value (e # es) 4 (param2 ?p), algo_id = a\<rparr>\<rparr>)"
    and a: "if list_ex (\<lambda>e. parameter_id e = 5) es then to_u32 (last_value es 5 FNaN) = Inr a else a = a0"
    by (auto simp: last_value_Cons)
  have "if list_ex (\<lambda>e. parameter_id e = 5) (e # es) then to_u32 (last_value (e # es) 5 FNaN) = Inr a else a = algo_id ?p"
  proof (cases "list_ex (\<lambda>e. parameter_id e = 5) es")
    case True
    with a no5 [OF True, of "evt_value e" FNaN] show ?thesis by (simp add: last_value_Cons)
  next
    case False
    with a h(2) yes5 [OF False, of "evt_value e"] show ?thesis by (simp add: last_value_Cons)
  qed
  moreover have "for_each apply_event (e # es) n = for_each apply_event es ?n1" using h(1) by simp
  ultimately show ?case using i by auto
qed

text \<open>
  After a batch of control events, applied in the order of the bus, each parameter of the Vulkan
  back end has the value of the last event for it, or its earlier value if there is none; the
  algorithm number is the converted value of the last event for it, and nothing else of the back end
  changes.
\<close>

theorem control_last_value_wins:
  assumes "list_all (\<lambda>e. vb_event_ok (parameter_id e) (evt_value e)) es"
  shows "\<exists>a. for_each apply_event es n = Inr (n\<lparr>vb_params := \<lparr>
      gain = last_value es 1 (gain (vb_params n)), threshold = last_value es 2 (threshold (vb_params n)),
      param1 = last_value es 3 (param1 (vb_params n)), param2 = last_value es 4 (param2 (vb_params n)), algo_id = a\<rparr>\<rparr>) \<and>
    (if list_ex (\<lambda>e. parameter_id e = 5) es then to_u32 (last_value es 5 FNaN) = Inr a else a = algo_id (vb_params n))"
  by (rule events_last_value [OF assms])

theorem control_last_value_wins_witness:
  "\<exists>a. for_each apply_event [\<lparr>parameter_id = 1, evt_value = FFin False 2\<rparr>, \<lparr>parameter_id = 5, evt_value = FFin False (7 / 2)\<rparr>,
      \<lparr>parameter_id = 1, evt_value = FFin False 3\<rparr>] (new_vulkan_backend :: nat vulkan_backend)
    = Inr (new_vulkan_backend\<lparr>vb_params := default_params\<lparr>gain := FFin False 3, algo_id := a\<rparr>\<rparr>) \<and> a = 3"
proof -
  let ?es = "[\<lparr>parameter_id = 1, evt_value = FFin False 2\<rparr>, \<lparr>parameter_id = 5, evt_value = FFin False (7 / 2)\<rparr>,
      \<lparr>parameter_id = 1, evt_value = FFin False 3\<rparr>]"
  have c: "to_u32 (FFin False (7 / 2)) = Inr 3" by code_simp
  then have "list_all (\<lambda>e. vb_event_ok (parameter_id e) (evt_value e)) ?es"
    by (simp add: vb_event_ok_def)
  from control_last_value_wins [OF this, of "new_vulkan_backend :: nat vulkan_backend"] c show ?thesis
    by (auto simp: last_value_def new_vulkan_backend_def default_params_def)
qed

section \<open>The zero-copy path\<close>

text \<open>
  C40: With the bypass on, the dispatch of the block in slot \<open>i\<close> of the input queue binds the device to
  the bytes from the beginning of the frame structure, not of its samples, which begin 24 bytes
  later: the header is taken for the first six samples and the last 24 bytes of the samples are
  not bound. The host leaves the block as it is and returns the result of the submission.
\<close>

theorem zero_copy_binds_header:
  assumes "vb_ok pool_wf n" "vk_ctx n = Some c" "shm_buffer_handle n \<noteq> 0"
    and "in_use c ! unat (shm_buffer_handle n)" "instance_states n (instance_id f) = Some sh"
    and "i < IPC_QUEUE_DEPTH" "vk_queue_submit api (vk_calls c)"
  shows "\<exists>c' d. vb_process_stage (real_driver api) n f (shm_ptr n + of_nat (in_slot_offset i)) =
      Inr (True, f, n\<lparr>vk_ctx := Some c'\<rparr>) \<and> submitted c' = submitted c @ [d] \<and>
    unat (bind_offset (hd (dispatch_bindings d))) = in_slot_offset i \<and>
    unat (bind_range (hd (dispatch_bindings d))) = 4 * unat (frame_count f * channel_count f) \<and>
    c_offset layout_DspAudioFrame ''samples'' = Some 24"
proof -
  let ?h = "shm_buffer_handle n"
  have c: "pool_wf c" "unat ?h < 256" "unat sh < 256"
    using assms(1,2,5) by (auto simp: vb_ok_def)
  then have len: "length (user_buffers c) = 256" by (simp add: pool_wf_def POOL_SIZE_def)
  have act: "active (user_buffers c ! unat ?h)" using assms(4) c(2) len by (simp add: in_use_def)
  have off: "in_slot_offset i < 2 ^ 32" using assms(6) by (simp add: in_slot_offset_eq IPC_QUEUE_DEPTH_def)
  have o: "unat (ucast (ucast (shm_ptr n + of_nat (in_slot_offset i) - shm_ptr n :: u64) :: u32) :: u64) = in_slot_offset i"
    using off by (simp add: unsigned_ucast_eq unsigned_take_bit_eq unat_of_nat take_bit_nat_eq_self)
  have r: "unat (ucast (w :: u32) * 4 :: u64) = 4 * unat w" for w
  proof -
    have "unat w < 4294967296" by simp
    then have lt: "unat w < 18446744073709551616" "unat w * 4 < 18446744073709551616" by linarith+
    then have "unat (ucast w :: u64) = unat w" by (simp add: unsigned_ucast_eq take_bit_nat_eq_self)
    moreover have "unat w * 4 < 2 ^ 64" using lt by simp
    ultimately show ?thesis by (simp add: unat_word_ariths(2))
  qed
  have "c_offset layout_DspAudioFrame ''samples'' = Some 24"
    by (simp add: layout_DspAudioFrame_def align_up_def)
  moreover define bs where "bs = [\<lparr>bind_buffer = vb_buffer (user_buffers c ! unat ?h),
      bind_offset = ucast (ucast (shm_ptr n + of_nat (in_slot_offset i) - shm_ptr n :: u64) :: u32),
      bind_range = ucast (frame_count f * channel_count f) * 4\<rparr>,
    \<lparr>bind_buffer = vb_buffer (user_buffers c ! unat sh), bind_offset = 0, bind_range = vb_size (user_buffers c ! unat sh)\<rparr>]"
  moreover define d where "d = \<lparr>push_constants = push_block (frame_count f) (vb_params n),
    group_count = work_groups (frame_count f) (channel_count f), dispatch_bindings = bs\<rparr>"
  moreover define c' where "c' = c\<lparr>vk_bindings := bs, vk_calls := Suc (vk_calls c), submitted := submitted c @ [d]\<rparr>"
  moreover have "vb_process_stage (real_driver api) n f (shm_ptr n + of_nat (in_slot_offset i)) =
      Inr (True, f, n\<lparr>vk_ctx := Some c'\<rparr>)"
    using assms(2,3,5,7) act len c
    by (simp add: vb_process_stage_def state_buffer_def Let_def real_driver_def dsp_vulkan_dispatch_zero_copy_def
        dsp_vulkan_dispatch_def bs_def d_def c'_def)
  ultimately show ?thesis
    using o r by (intro exI [of _ c'] exI [of _ d]) simp
qed

definition demo_zero_copy :: "dsp_vulkan_context vulkan_backend" where
  "demo_zero_copy = new_vulkan_backend\<lparr>vk_ctx := Some demo_uploaded, shm_buffer_handle := 1, shm_ptr := 65536,
     instance_states := [0 \<mapsto> 1]\<rparr>"

theorem zero_copy_binds_header_witness:
  "\<exists>c' d. vb_process_stage (real_driver demo_api) demo_zero_copy demo_frame (65536 + of_nat (in_slot_offset 2)) =
      Inr (True, demo_frame, demo_zero_copy\<lparr>vk_ctx := Some c'\<rparr>) \<and> submitted c' = [d] \<and>
    unat (bind_offset (hd (dispatch_bindings d))) = 17152"
proof -
  have "vb_ok pool_wf demo_zero_copy"
    by (simp add: vb_ok_def demo_zero_copy_def new_vulkan_backend_def demo_uploaded_def pool_wf_def POOL_SIZE_def no_buffer_def)
  moreover have "in_use demo_uploaded ! unat (1::u32)" "vk_queue_submit demo_api (vk_calls demo_uploaded)"
    by (simp_all add: in_use_def demo_uploaded_def no_buffer_def demo_api_def)
  moreover have "vk_ctx demo_zero_copy = Some demo_uploaded" "shm_buffer_handle demo_zero_copy = 1"
    "shm_ptr demo_zero_copy = 65536" "instance_states demo_zero_copy (instance_id demo_frame) = Some 1"
    "submitted demo_uploaded = []" "(2::nat) < IPC_QUEUE_DEPTH" "in_slot_offset 2 = 17152"
    by (simp_all add: demo_zero_copy_def new_vulkan_backend_def demo_frame_def frame_zero_def IPC_QUEUE_DEPTH_def
        in_slot_offset_eq demo_uploaded_def demo_context_def)
  ultimately show ?thesis
    using zero_copy_binds_header [of demo_zero_copy demo_uploaded demo_frame 1 2 demo_api] by fastforce
qed

section \<open>The bypass flag and the pool\<close>

text \<open>The setting of the bypass that every iteration of the loop repeats.\<close>

fun set_bypass_times :: "nat \<Rightarrow> vk_api \<Rightarrow> int \<Rightarrow> u64 \<Rightarrow> dsp_vulkan_context vulkan_backend \<Rightarrow> dsp_vulkan_context vulkan_backend" where
  "set_bypass_times 0 api fd sz n = n"
| "set_bypass_times (Suc k) api fd sz n =
     set_bypass_times k api fd sz (vb_set_zero_copy_bypass (real_driver api) n True fd sz)"

text \<open>The free handles above the lowest one that are left.\<close>

definition free_handles :: "dsp_vulkan_context \<Rightarrow> nat set" where
  "free_handles c = {k. 0 < k \<and> k < POOL_SIZE \<and> \<not> in_use c ! k}"

lemma free_handles_card: "card (free_handles c) \<le> 255" "finite (free_handles c)"
proof -
  have sub: "free_handles c \<subseteq> {1..<256}" by (auto simp: free_handles_def POOL_SIZE_def)
  then show "finite (free_handles c)" by (rule finite_subset) simp
  show "card (free_handles c) \<le> 255" using card_mono [OF _ sub] by simp
qed

lemma import_takes_one:
  assumes "pool_wf c" "0 \<le> fd"
    and "\<And>k. vk_create_buffer api k sz \<noteq> None" "\<And>k s t. vk_allocate_memory api k s t \<noteq> None"
  shows "\<exists>h c'. dsp_vulkan_import_shm api (Some c) fd sz = (h, Some c') \<and> pool_wf c' \<and>
    free_handles c' = free_handles c - {unat h} \<and> (h = 0 \<longleftrightarrow> free_handles c = {}) \<and> (h \<noteq> 0 \<longrightarrow> unat h \<in> free_handles c)"
proof -
  obtain h c' where i: "dsp_vulkan_import_shm api (Some c) fd sz = (h, Some c')" "takes_handle c h sz c'"
    using import_takes_handle [OF assms(1)] by blast
  let ?f = "first_free (user_buffers c)"
  have z: "?f = 0 \<longleftrightarrow> free_handles c = {}"
    using first_free_spec [OF assms(1)] first_free_bounds [OF assms(1)]
    by (auto simp: free_handles_def split: if_splits)
  have "h = 0 \<longleftrightarrow> ?f = 0"
  proof
    assume "h = 0"
    show "?f = 0"
    proof (rule ccontr)
      assume nz: "?f \<noteq> 0"
      note b = first_free_bounds [OF assms(1) nz]
      obtain r c1 where cb: "create_buffer api c ?f sz = (r, c1)" by fastforce
      obtain buf where r: "r = Some buf" using cb assms(3) [of "vk_calls c"]
        by (cases "vk_create_buffer api (vk_calls c) sz") (auto simp: create_buffer_def)
      obtain rs tb where rq: "vk_memory_requirements api sz = (rs, tb)" by fastforce
      obtain h2 c2 where bs: "bind_slot api c1 ?f buf sz rs (of_int (find_memory_type api tb 0)) = (h2, c2)" by fastforce
      have "h = h2" using i(1) cb r rq bs nz assms(2) by (simp add: dsp_vulkan_import_shm_def)
      moreover have "h2 = of_nat ?f" 
        using bs assms(4) [of "vk_calls c1" rs "of_int (find_memory_type api tb 0)"]
        by (cases "vk_allocate_memory api (vk_calls c1) rs (of_int (find_memory_type api tb 0))")
          (auto simp: bind_slot_def)
      moreover have "unat (of_nat ?f :: u32) = ?f" using b by (simp add: unat_of_nat take_bit_nat_eq_self)
      ultimately show False using \<open>h = 0\<close> nz by (metis unat_0)
    qed
  qed (use takes_handle_nonzero(1) [OF i(2)] in blast)
  moreover have "unat h = ?f" if "h \<noteq> 0" using i(2) that by (simp add: takes_handle_def)
  moreover have "?f < POOL_SIZE" using first_free_spec [OF assms(1)] by (auto simp: POOL_SIZE_def split: if_splits)
  then have "free_handles c' = free_handles c - {unat h}"
    using i(2) length_in_use [OF assms(1)]
    by (cases "h = 0") (auto simp: takes_handle_def free_handles_def nth_list_update)
  moreover have "unat h \<in> free_handles c" if "h \<noteq> 0"
    using that first_free_spec [OF assms(1)] takes_handle_nonzero(1) [OF i(2) that] i(2)
    by (auto simp: takes_handle_def free_handles_def)
  ultimately show ?thesis using i z takes_handle_wf(1) [OF assms(1) i(2)] by auto
qed

lemma exhaust_pool:
  assumes "vb_ok pool_wf n" "0 \<le> fd" "\<And>k. vk_create_buffer api k sz \<noteq> None" "\<And>k s t. vk_allocate_memory api k s t \<noteq> None"
    and "vk_ctx n = Some c" "card (free_handles c) < k"
  shows "\<exists>c'. vk_ctx (set_bypass_times k api fd sz n) = Some c' \<and> pool_wf c' \<and> free_handles c' = {} \<and>
    shm_buffer_handle (set_bypass_times k api fd sz n) = 0"
  using assms(1,5,6)
proof (induction k arbitrary: n c)
  case (Suc k)
  have c: "pool_wf c" using Suc.prems(1,2) by (simp add: vb_ok_def)
  from import_takes_one [OF c assms(2,3,4)] obtain h c1 where i: "dsp_vulkan_import_shm api (Some c) fd sz = (h, Some c1)"
    "pool_wf c1" "free_handles c1 = free_handles c - {unat h}" "h = 0 \<longleftrightarrow> free_handles c = {}"
    "h \<noteq> 0 \<longrightarrow> unat h \<in> free_handles c" by blast
  let ?n1 = "n\<lparr>shm_buffer_handle := h, vk_ctx := Some c1\<rparr>"
  have s: "vb_set_zero_copy_bypass (real_driver api) n True fd sz = ?n1"
    using Suc.prems(2) assms(2) i(1) by (simp add: vb_set_zero_copy_bypass_def real_driver_def)
  have n1: "vb_ok pool_wf ?n1"
  proof -
    have "unat h < 256" using i(4,5) by (cases "h = 0") (auto simp: free_handles_def POOL_SIZE_def)
    with Suc.prems(1) i(2) show ?thesis by (simp add: vb_ok_def)
  qed
  show ?case
  proof (cases "free_handles c = {}")
    case True
    then have e: "free_handles c1 = {}" "h = 0" using i(3,4) by auto
    show ?thesis
    proof (cases k)
      case 0
      with s e i(2) show ?thesis by simp
    next
      case (Suc k')
      then have "card (free_handles c1) < k" using e by simp
      from Suc.IH [OF n1 _ this] s show ?thesis by simp
    qed
  next
    case False
    then have "unat h \<in> free_handles c" "finite (free_handles c)" using i(4,5) free_handles_card by auto
    then have "card (free_handles c1) < card (free_handles c)" unfolding i(3) by (rule card_Diff1_less [rotated])
    then have "card (free_handles c1) < k" using Suc.prems(3) by linarith
    from Suc.IH [OF n1 _ this] s show ?thesis by simp
  qed
qed simp

text \<open>
  Every iteration with the bypass on imports the shared memory again into a new slot of the
  pool. If the API always succeeds, then after 256 iterations at the latest no handle is left:
  the zero-copy path is off although the flag is on, and every allocation of the plugin or for an
  instance's state returns 0.
\<close>

theorem bypass_exhausts_pool:
  assumes "vb_ok pool_wf n" "0 \<le> fd" "\<And>k. vk_create_buffer api k sz \<noteq> None" "\<And>k s t. vk_allocate_memory api k s t \<noteq> None"
    and "256 \<le> k"
  shows "shm_buffer_handle (set_bypass_times k api fd sz n) = 0 \<and>
    fst (vb_allocate_buffer (real_driver api) (set_bypass_times k api fd sz n) sz') = 0"
proof -
  obtain c where c: "vk_ctx n = Some c" using assms(1) by (elim vb_okE)
  have "card (free_handles c) < k" using free_handles_card(1) [of c] assms(5) by linarith
  from exhaust_pool [OF assms(1-4) c this] obtain c' where
    e: "vk_ctx (set_bypass_times k api fd sz n) = Some c'" "pool_wf c'" "free_handles c' = {}"
      "shm_buffer_handle (set_bypass_times k api fd sz n) = 0" by blast
  have "first_free (user_buffers c') = 0"
    using first_free_spec [OF e(2)] first_free_bounds [OF e(2)] e(3) by (auto simp: free_handles_def split: if_splits)
  with e show ?thesis by (simp add: vb_allocate_buffer_def real_driver_def dsp_vulkan_allocate_buffer_def)
qed

theorem bypass_exhausts_pool_witness:
  "shm_buffer_handle (set_bypass_times 300 demo_api 3 8 demo_zero_copy) = 0"
proof -
  have "vb_ok pool_wf demo_zero_copy"
    by (simp add: vb_ok_def demo_zero_copy_def new_vulkan_backend_def demo_uploaded_def pool_wf_def POOL_SIZE_def no_buffer_def)
  then show ?thesis
    using bypass_exhausts_pool [of demo_zero_copy 3 demo_api 8 300] by (simp add: demo_api_def)
qed

section \<open>Start-up\<close>

lemma send_worker_log_wf:
  assumes "shm_wf m"
  shows "\<exists>q. send_worker_log (Some m) t s l = Some (m\<lparr>log_bus := q\<rparr>) \<and> ring_of log_entry_wf 32 q"
proof -
  define s1 where "s1 = strncpy (tag (log_entry_zero\<lparr>level := l\<rparr>)) t 15"
  define e1 where "e1 = (log_entry_zero\<lparr>level := l\<rparr>)\<lparr>tag := s1\<rparr>"
  define s2 where "s2 = strncpy (msg e1) s 127"
  have "length s1 = TAG_SIZE" unfolding s1_def
    by (subst strncpy_length) (simp_all add: log_entry_zero_def, simp add: TAG_SIZE_def)
  moreover have "length s2 = MSG_SIZE" unfolding s2_def e1_def
    by (subst strncpy_length) (simp_all add: log_entry_zero_def, simp add: MSG_SIZE_def)
  ultimately have wf: "log_entry_wf (e1\<lparr>msg := s2\<rparr>)" by (simp add: log_entry_wf_def e1_def)
  have "ring_of log_entry_wf 32 (log_bus m)" using assms by (simp add: shm_wf_def)
  from conjunct1 [OF push_take [OF this wf]]
  have "ring_of log_entry_wf 32 (snd (push (log_bus m) (e1\<lparr>msg := s2\<rparr>)))" .
  moreover have "send_worker_log (Some m) t s l = Some (m\<lparr>log_bus := snd (push (log_bus m) (e1\<lparr>msg := s2\<rparr>))\<rparr>)"
    unfolding send_worker_log_def option.case Let_def s2_def e1_def s1_def by (rule refl)
  ultimately show ?thesis by blast
qed

text \<open>The start-up of a worker whose node initialises, and of one whose node does not.\<close>

abbreviation with_block :: "int \<Rightarrow> (worker_control_block \<Rightarrow> worker_control_block) \<Rightarrow> dsp_shared_memory \<Rightarrow> dsp_shared_memory" where
  "with_block wid f m \<equiv> m\<lparr>workers := (workers m)[nat wid := f (workers m ! nat wid)]\<rparr>"

definition initialised :: "vk_api \<Rightarrow> string \<Rightarrow> (dsp_vulkan_context vulkan_backend + npu_backend) option" where
  "initialised api ty = (case make_node ty of None \<Rightarrow> None
     | Some n \<Rightarrow> (case node_init (real_ops api) 0 n of (True, n1) \<Rightarrow> Some n1 | (False, n1) \<Rightarrow> None))"

lemma initialised_iff: "(initialised api ty \<noteq> None) = (ty = ''npu'' \<or> ty = ''vulkan'' \<and> real_init api 0 \<noteq> None)"
  by (auto simp: initialised_def make_node_def worker_ops_def sum_ops_def npu_ops_def vulkan_ops_def vb_init_def
      real_driver_def Let_def split: option.splits bool.splits)

lemma initialised_ok: "initialised api ty = Some n \<Longrightarrow> real_node_ok n"
  using real_worker.either.init_ok [folded worker_ops_def, of "Inl new_vulkan_backend" api 0 n]
    real_worker.either.init_ok [folded worker_ops_def, of "Inr new_npu_backend" api 0 n]
  by (auto simp: initialised_def make_node_def split: option.splits if_splits prod.splits bool.splits)

definition ready_worker :: "vk_api \<Rightarrow> int \<Rightarrow> int \<Rightarrow> u64 \<Rightarrow> dsp_shared_memory \<Rightarrow> dsp_vulkan_context vulkan_backend + npu_backend
    \<Rightarrow> (dsp_vulkan_context vulkan_backend + npu_backend) worker" where
  "ready_worker api wid fd base m n = \<lparr>worker_id = wid, shm_fd = fd, shm_base = base, shm = m,
     graph = add_node_to_sequence empty_graph 0, nodes = (\<lambda>k. set_shm_ptr (real_ops api) n base), primary_node = 0, signals = 0\<rparr>"

lemma start_eq:
  assumes "shm_wf m" "0 \<le> wid" "wid < 8" "0 \<le> fd" "0 \<le> e1" "0 \<le> e2"
  shows "\<exists>q. ring_of log_entry_wf 32 q \<and> worker_start (real_ops api) make_node ty wid fd e1 e2 (Some m) base = Inr (case initialised api ty of
      None \<Rightarrow> Inl (Some (with_block wid (\<lambda>b. b\<lparr>is_ready := False, last_error := INTERNAL_ERROR\<rparr>) m\<lparr>log_bus := q\<rparr>))
    | Some n \<Rightarrow> Inr (ready_worker api wid fd base (with_block wid (\<lambda>b. b\<lparr>is_ready := True\<rparr>) m\<lparr>log_bus := q\<rparr>) n))"
proof -
  have len: "length (workers m) = 8" "nat wid < 8" using assms(1-3) by (auto simp: shm_wf_def)
  have u: "update_control_block f wid m' = Inr (with_block wid f m')" if "length (workers m') = 8" for f m'
    using update_control_block_ok [of wid m' f] assms(2,3) that by simp
  have wf: "shm_wf (with_block wid f m)" for f using assms(1) by (simp add: shm_wf_def)
  note started = initialised_def [of api ty, symmetric]
  show ?thesis
  proof (cases "initialised api ty")
    case None
    from send_worker_log_wf [OF wf [of "(\<lambda>b. b\<lparr>is_ready := False, last_error := INTERNAL_ERROR\<rparr>)"], of "''CORE''" "''Hardware initialization failed''" 2] obtain q where
      q: "send_worker_log (Some (with_block wid (\<lambda>b. b\<lparr>is_ready := False, last_error := INTERNAL_ERROR\<rparr>) m)) ''CORE''
          ''Hardware initialization failed'' 2 =
        Some (with_block wid (\<lambda>b. b\<lparr>is_ready := False, last_error := INTERNAL_ERROR\<rparr>) m\<lparr>log_bus := q\<rparr>)" "ring_of log_entry_wf 32 q" by blast
    have "worker_start (real_ops api) make_node ty wid fd e1 e2 (Some m) base =
        Inr (Inl (Some (with_block wid (\<lambda>b. b\<lparr>is_ready := False, last_error := INTERNAL_ERROR\<rparr>) m\<lparr>log_bus := q\<rparr>)))"
      using assms(4-6) None len q(1) by (simp add: worker_start_def u started)
    with None q(2) show ?thesis by auto
  next
    case (Some n)
    from send_worker_log_wf [OF wf [of "(\<lambda>b. b\<lparr>is_ready := True\<rparr>)"], of "''CORE''" "''Worker graph initialized successfully''" 0] obtain q where
      q: "send_worker_log (Some (with_block wid (\<lambda>b. b\<lparr>is_ready := True\<rparr>) m)) ''CORE'' ''Worker graph initialized successfully'' 0 =
        Some (with_block wid (\<lambda>b. b\<lparr>is_ready := True\<rparr>) m\<lparr>log_bus := q\<rparr>)" "ring_of log_entry_wf 32 q" by blast
    have "worker_start (real_ops api) make_node ty wid fd e1 e2 (Some m) base =
        Inr (Inr (ready_worker api wid fd base (with_block wid (\<lambda>b. b\<lparr>is_ready := True\<rparr>) m\<lparr>log_bus := q\<rparr>) n))"
      using assms(4-6) Some len q(1) by (simp add: worker_start_def u started ready_worker_def)
    with Some q(2) show ?thesis by auto
  qed
qed

lemma ready_worker_ok:
  assumes "shm_wf m" "items (in_queue m) = []" "items (out_queue m) = []" "0 \<le> wid" "wid < 8" "real_node_ok n"
  shows "worker_ok real_node_ok (ready_worker api wid fd base m n)"
  using assms real_worker.either.shm_ptr_ok [folded worker_ops_def, OF assms(6)]
  by (simp add: worker_ok_def queue_bounded_def ready_worker_def)

text \<open>The ways the start-up ends.\<close>

lemma start_cases:
  assumes "shm_wf m" "items (in_queue m) = []" "items (out_queue m) = []" "0 \<le> wid" "wid < 8" "0 \<le> fd" "0 \<le> e1" "0 \<le> e2"
  shows "\<exists>r. worker_start (real_ops api) make_node ty wid fd e1 e2 (Some m) base = Inr r \<and>
    (if ty = ''npu'' \<or> ty = ''vulkan'' \<and> real_init api 0 \<noteq> None
     then \<exists>w. r = Inr w \<and> worker_ok real_node_ok w \<and> is_ready (my_block w) \<and> worker_id w = wid
     else \<exists>m'. r = Inl (Some m') \<and> shm_wf m' \<and> last_error (workers m' ! nat wid) = INTERNAL_ERROR \<and>
       \<not> is_ready (workers m' ! nat wid))"
proof -
  have len: "length (workers m) = 8" "nat wid < 8" using assms(1,4,5) by (auto simp: shm_wf_def)
  from start_eq [OF assms(1,4-8), of api ty base] obtain q where
    q: "ring_of log_entry_wf 32 q" and r: "worker_start (real_ops api) make_node ty wid fd e1 e2 (Some m) base = Inr (case initialised api ty of
      None \<Rightarrow> Inl (Some (with_block wid (\<lambda>b. b\<lparr>is_ready := False, last_error := INTERNAL_ERROR\<rparr>) m\<lparr>log_bus := q\<rparr>))
    | Some n \<Rightarrow> Inr (ready_worker api wid fd base (with_block wid (\<lambda>b. b\<lparr>is_ready := True\<rparr>) m\<lparr>log_bus := q\<rparr>) n))" by blast
  have wf: "shm_wf (with_block wid f m\<lparr>log_bus := q\<rparr>)" for f using assms(1) q by (simp add: shm_wf_def)
  show ?thesis
  proof (cases "initialised api ty")
    case None
    then have "\<not> (ty = ''npu'' \<or> ty = ''vulkan'' \<and> real_init api 0 \<noteq> None)" using initialised_iff [of api ty] by simp
    with r wf None len show ?thesis by simp
  next
    case (Some n)
    then have "ty = ''npu'' \<or> ty = ''vulkan'' \<and> real_init api 0 \<noteq> None" using initialised_iff [of api ty] by simp
    with r Some len ready_worker_ok [OF wf _ _ assms(4,5) initialised_ok [OF Some]] assms(2,3) show ?thesis
      by (simp add: my_block_def ready_worker_def)
  qed
qed

text \<open>
  With its descriptors and the mapping in place, the start-up of the worker of an index below 8 ends
  in one of two ways and never outside the control blocks: for \<open>npu\<close>, and for \<open>vulkan\<close> if the
  driver initialises, the worker is ready and able to run; otherwise, in particular for the type
  \<open>dsp\<close> that the supervisor starts as its third worker, it exits, not ready, with
  \<open>INTERNAL_ERROR\<close> recorded.
\<close>

theorem worker_start_outcome:
  assumes "shm_wf m" "items (in_queue m) = []" "items (out_queue m) = []" "0 \<le> wid" "wid < 8" "0 \<le> fd" "0 \<le> e1" "0 \<le> e2"
  shows "\<exists>r. worker_start (real_ops api) make_node ty wid fd e1 e2 (Some m) base = Inr r \<and>
    (if ty = ''npu'' \<or> ty = ''vulkan'' \<and> real_init api 0 \<noteq> None
     then \<exists>w. r = Inr w \<and> worker_ok real_node_ok w \<and> is_ready (my_block w) \<and> worker_id w = wid
     else \<exists>m'. r = Inl (Some m') \<and> shm_wf m' \<and> last_error (workers m' ! nat wid) = INTERNAL_ERROR \<and>
       \<not> is_ready (workers m' ! nat wid))"
  by (rule start_cases [OF assms])

theorem worker_start_outcome_witness:
  "\<exists>m'. worker_start (real_ops demo_api) make_node ''dsp'' 2 5 6 7 (Some shm_zero) 4096 = Inr (Inl (Some m')) \<and>
     last_error (workers m' ! 2) = INTERNAL_ERROR"
  using worker_start_outcome [of shm_zero 2 5 6 7 demo_api "''dsp''" 4096] by auto

end
