(* ===== verification/Worker_Faults.thy ===== *)
theory Worker_Faults
  imports Worker_Spec
begin

text \<open>
  When an iteration of the worker of \<open>daemon/worker.cpp\<close> leaves the defined behaviour of the language. The
  worker trusts what the plugin has put into the shared memory, so there are three ways: an algorithm
  number that has no integer value, a block without samples, and an upload of more bytes than there are.
  In all other cases the iteration returns, and whenever it returns the worker can go on.
\<close>

section \<open>Control events\<close>






section \<open>Uploads\<close>







section \<open>The iteration\<close>

















end
