(* ===== verification/Sdk.thy ===== *)
theory Sdk
  imports Backend
begin

text \<open>
  The plugin side, \<open>sdk/src/dsp_accel_sdk.cpp\<close>: the session with the daemon (connect, disconnect), the
  audio path (dispatch, read back), parameters, logs, statistics and the device memory. The context
  is the record \<open>sdk_ctx\<close>; the shared memory it points to is passed beside it, and \<open>cx_shm\<close> tells
  whether the pointer is set. Answers of the operating system, the clock and \<open>rand\<close> are parameters.
  \<open>DSP_PLATFORM_LINUX\<close> is the configuration macro that guards the hardware path.
\<close>

section \<open>The context\<close>

record sdk_ctx =
  cx_socket_fd :: int
  cx_shm_fd :: int
  cx_eventfd_send :: int
  cx_eventfd_recv :: int
  cx_shm :: bool
  cx_worker_id :: u32
  last_worker_heartbeat :: u64
  heartbeat_stalled_count :: u32
  workload_type :: DspWorkloadType
  cost_mflops :: f32
  dispatched_blocks :: u32
  xrun_count :: u32
  total_roundtrip_ns :: f64
  last_measured_rtt_us :: f32

section \<open>Descriptors\<close>

text \<open>What \<open>recvmsg\<close> delivers: nothing, a message without rights, or one descriptor.\<close>

datatype rights_message = No_Message | No_Rights | Rights int

fun recv_fd :: "rights_message \<Rightarrow> int" where
  "recv_fd No_Message = - 1"
| "recv_fd No_Rights = - 1"
| "recv_fd (Rights fd) = fd"

text \<open>\<open>safe_close\<close>: the descriptors it closes and the new value of the variable.\<close>

definition safe_close :: "int \<Rightarrow> int list \<times> int" where
  "safe_close fd = (if 0 \<le> fd then ([fd], - 1) else ([], fd))"

text \<open>Closing the four descriptors of a context, in the order of the code.\<close>

definition close_all :: "sdk_ctx \<Rightarrow> int list \<times> sdk_ctx" where
  "close_all ctx =
     (let (c1, a) = safe_close (cx_shm_fd ctx); (c2, b) = safe_close (cx_eventfd_send ctx);
          (c3, c) = safe_close (cx_eventfd_recv ctx); (c4, d) = safe_close (cx_socket_fd ctx)
      in (c1 @ c2 @ c3 @ c4, ctx\<lparr>cx_shm_fd := a, cx_eventfd_send := b, cx_eventfd_recv := c, cx_socket_fd := d\<rparr>))"

section \<open>Connecting\<close>

record connect_env =
  alloc_ok :: bool
  sock :: int
  connect_ok :: bool
  send_ok :: bool
  recv_worker_id :: "u32 option"
  fd_messages :: "rights_message \<times> rights_message \<times> rights_message"
  map_ok :: bool

definition new_ctx :: "DspWorkloadType \<Rightarrow> f32 \<Rightarrow> sdk_ctx" where
  "new_ctx ty cost = \<lparr>cx_socket_fd = - 1, cx_shm_fd = - 1, cx_eventfd_send = - 1, cx_eventfd_recv = - 1, cx_shm = False,
     cx_worker_id = 0, last_worker_heartbeat = 0, heartbeat_stalled_count = 0, workload_type = ty, cost_mflops = cost,
     dispatched_blocks = 0, xrun_count = 0, total_roundtrip_ns = f32_zero, last_measured_rtt_us = f32_zero\<rparr>"

text \<open>
  The result is the context (null if the allocation fails) and the descriptors closed on the way. A
  context without shared memory is the CPU fallback. \<open>m\<close> is the shared memory of the daemon.
\<close>

definition sdk_connect :: "bool \<Rightarrow> connect_env \<Rightarrow> DspWorkloadType \<Rightarrow> f32 \<Rightarrow> dsp_shared_memory
    \<Rightarrow> (sdk_ctx option \<times> int list) outcome" where
  "sdk_connect linux env ty cost m =
     (let ctx = new_ctx ty cost;
          cleanup = (\<lambda>ctx. let (closed, ctx') = close_all ctx in Inr (Some ctx', closed)) in
      if \<not> alloc_ok env then Inr (None, [])
      else if \<not> linux then Inr (Some ctx, [])
      else let ctx = ctx\<lparr>cx_socket_fd := sock env\<rparr> in
        if sock env < 0 then Inr (Some ctx, [])
        else if \<not> connect_ok env then Inr (Some ctx, [])
        else if \<not> send_ok env then cleanup ctx
        else case recv_worker_id env of
            None \<Rightarrow> cleanup ctx
          | Some wid \<Rightarrow>
             (let (m1, m2, m3) = fd_messages env;
                  ctx = ctx\<lparr>cx_worker_id := wid, cx_shm_fd := recv_fd m1, cx_eventfd_send := recv_fd m2,
                    cx_eventfd_recv := recv_fd m3\<rparr> in
              if recv_fd m1 < 0 \<or> recv_fd m2 < 0 \<or> recv_fd m3 < 0 then cleanup ctx
              else if \<not> map_ok env then cleanup ctx
              else case control_block m (uint wid) of
                  Inl e \<Rightarrow> Inl e
                | Inr b \<Rightarrow> Inr (Some (ctx\<lparr>cx_shm := True, last_worker_heartbeat := heartbeat b, heartbeat_stalled_count := 0\<rparr>), [])))"

text \<open>Disconnecting: the descriptors closed; whether the mapping is undone.\<close>

definition sdk_disconnect :: "sdk_ctx option \<Rightarrow> int list \<times> bool" where
  "sdk_disconnect ctx = (case ctx of None \<Rightarrow> ([], False) | Some ctx \<Rightarrow> (fst (close_all ctx), cx_shm ctx))"

section \<open>Dispatch\<close>

record dispatch_env =
  now_ns :: u64
  signal_interrupts :: nat
  signal_ok :: bool

text \<open>
  The copy of the caller's channels. A channel pointer that is null or missing is an array without
  samples.
\<close>

definition fill_samples :: "f32 list list \<Rightarrow> u32 \<Rightarrow> u32 \<Rightarrow> f32 list \<Rightarrow> f32 list outcome" where
  "fill_samples buffers fc cc dst =
     (if length buffers < unat cc then Inl Out_Of_Bounds
      else put_channels (\<lambda>ch. buffers ! ch) (unat fc) (unat cc) dst)"

text \<open>The watchdog: the count of blocks for which the heartbeat stood still.\<close>

definition watchdog :: "u64 \<Rightarrow> sdk_ctx \<Rightarrow> sdk_ctx" where
  "watchdog current_hb ctx =
     (if current_hb = last_worker_heartbeat ctx
      then ctx\<lparr>heartbeat_stalled_count := heartbeat_stalled_count ctx + 1\<rparr>
      else ctx\<lparr>last_worker_heartbeat := current_hb, heartbeat_stalled_count := 0\<rparr>)"

text \<open>The result, the context, the shared memory and the number of signals sent to the worker.\<close>

definition sdk_dispatch :: "bool \<Rightarrow> dispatch_env \<Rightarrow> sdk_ctx option \<Rightarrow> f32 list list \<Rightarrow> int \<Rightarrow> int \<Rightarrow> dsp_shared_memory
    \<Rightarrow> (bool \<times> sdk_ctx option \<times> dsp_shared_memory \<times> nat) outcome" where
  "sdk_dispatch linux env ctx channel_buffers frames channels m =
     (case ctx of
        None \<Rightarrow> Inr (False, None, m, 0)
      | Some c \<Rightarrow>
        (if \<not> cx_shm c \<or> \<not> linux then Inr (False, Some c, m, 0)
         else case control_block m (uint (cx_worker_id c)) of
           Inl e \<Rightarrow> Inl e
         | Inr b \<Rightarrow>
           (if last_error b \<noteq> NO_ERROR then Inr (False, Some c, m, 0)
            else let c1 = watchdog (heartbeat b) c in
              if 10 < heartbeat_stalled_count c1 then Inr (False, Some c1, m, 0)
              else let fc = of_int (if 256 < frames then 256 else frames);
                       cc = of_int (if 8 < channels then 8 else channels) in
                case reserve_write (in_queue m) of
                  None \<Rightarrow> Inr (False, Some (c1\<lparr>xrun_count := xrun_count c1 + 1\<rparr>), m, 0)
                | Some i \<Rightarrow>
                   (let slot = slot_at (in_queue m) i in
                    case fill_samples channel_buffers fc cc (samples slot) of
                      Inl e \<Rightarrow> Inl e
                    | Inr xs \<Rightarrow>
                       (let slot' = slot\<lparr>frame_count := fc, channel_count := cc, timestamp_ns := now_ns env, samples := xs\<rparr>;
                            m' = m\<lparr>in_queue := commit_write (store_slot (in_queue m) i slot')\<rparr> in
                        if \<not> retry_write (signal_interrupts env) (signal_ok env)
                        then Inr (False, Some (c1\<lparr>xrun_count := xrun_count c1 + 1\<rparr>), m', 0)
                        else Inr (True, Some (c1\<lparr>dispatched_blocks := dispatched_blocks c1 + 1\<rparr>), m', 1))))))"

section \<open>Read back\<close>

record readback_env =
  poll_result :: int
  end_ns :: u64

text \<open>One channel of the copy to the caller's buffers.\<close>

definition read_channel :: "f32 list \<Rightarrow> nat \<Rightarrow> nat \<Rightarrow> f32 list list \<Rightarrow> f32 list list outcome" where
  "read_channel src n ch buffers =
     (if length buffers \<le> ch then Inl Out_Of_Bounds
      else case memcpy_at (buffers ! ch) 0 (drop (unat ((of_nat ch :: u32) * 256)) src) n of
          Inl e \<Rightarrow> Inl e
        | Inr d \<Rightarrow> Inr (buffers[ch := d]))"

definition measure_roundtrip :: "u64 \<Rightarrow> dsp_audio_frame \<Rightarrow> sdk_ctx \<Rightarrow> sdk_ctx" where
  "measure_roundtrip now slot c =
     (if timestamp_ns slot < now then
        (let rtt = now - timestamp_ns slot in
         c\<lparr>last_measured_rtt_us := fdiv binary32 (of_integer binary32 (uint rtt)) (flit binary32 1000),
           total_roundtrip_ns := fadd binary64 (total_roundtrip_ns c) (of_integer binary64 (uint rtt))\<rparr>)
      else c)"

text \<open>The number of samples copied is the slot's; the caller's \<open>frames\<close> is not used.\<close>

definition sdk_read_output :: "bool \<Rightarrow> readback_env \<Rightarrow> sdk_ctx option \<Rightarrow> f32 list list \<Rightarrow> int \<Rightarrow> int \<Rightarrow> dsp_shared_memory
    \<Rightarrow> (bool \<times> f32 list list \<times> sdk_ctx option \<times> dsp_shared_memory) outcome" where
  "sdk_read_output linux env ctx channel_buffers frames channels m =
     (case ctx of
        None \<Rightarrow> Inr (False, channel_buffers, None, m)
      | Some c \<Rightarrow>
        (if \<not> cx_shm c \<or> \<not> linux \<or> poll_result env \<le> 0 then Inr (False, channel_buffers, Some c, m)
         else case peek_read (out_queue m) of
           None \<Rightarrow> Inr (False, channel_buffers, Some c, m)
         | Some i \<Rightarrow>
            (let slot = slot_at (out_queue m) i; c1 = measure_roundtrip (end_ns env) slot c;
                 fc = unat (frame_count slot); cc = unat (channel_count slot) in
             case for_each (read_channel (samples slot) fc) [0..<min cc (unat (of_int channels :: u32))] channel_buffers of
               Inl e \<Rightarrow> Inl e
             | Inr bufs \<Rightarrow> Inr (True, bufs, Some c1, m\<lparr>out_queue := commit_read (out_queue m)\<rparr>))))"

section \<open>Latency, statistics, parameters, logs\<close>

definition sdk_get_latency_samples :: "sdk_ctx option \<Rightarrow> int" where
  "sdk_get_latency_samples ctx = (case ctx of None \<Rightarrow> 0 | Some c \<Rightarrow> if cx_shm c then 64 else 0)"

record dsp_accel_stats =
  st_xrun_count :: u32
  st_dispatched_blocks :: u32
  hw_load_percent :: f32
  avg_roundtrip_us :: f32

text \<open>The load is read through the pointer whether or not it is set.\<close>

definition sdk_get_stats :: "sdk_ctx option \<Rightarrow> dsp_shared_memory \<Rightarrow> dsp_accel_stats option outcome" where
  "sdk_get_stats ctx m =
     (case ctx of
        None \<Rightarrow> Inr None
      | Some c \<Rightarrow>
        (if \<not> cx_shm c then Inl Null_Deref
         else case control_block m (uint (cx_worker_id c)) of
             Inl e \<Rightarrow> Inl e
           | Inr b \<Rightarrow> Inr (Some \<lparr>st_xrun_count = xrun_count c, st_dispatched_blocks = dispatched_blocks c,
               hw_load_percent = of_integer binary32 (uint (load_pct b)),
               avg_roundtrip_us = (if 0 < dispatched_blocks c
                 then to_format binary32 (fdiv binary64 (fdiv binary64 (total_roundtrip_ns c)
                   (of_integer binary64 (uint (dispatched_blocks c)))) (flit binary64 1000))
                 else f32_zero)\<rparr>)))"

definition sdk_set_param :: "sdk_ctx option \<Rightarrow> u32 \<Rightarrow> f32 \<Rightarrow> dsp_shared_memory \<Rightarrow> bool \<times> dsp_shared_memory" where
  "sdk_set_param ctx param_id v m =
     (case ctx of
        None \<Rightarrow> (False, m)
      | Some c \<Rightarrow>
        (if \<not> cx_shm c then (False, m)
         else let (ok, q) = push (control_bus m) \<lparr>parameter_id = param_id, evt_value = v\<rparr> in (ok, m\<lparr>control_bus := q\<rparr>)))"

text \<open>The caller's output arguments may be null.\<close>

definition sdk_fetch_log :: "sdk_ctx option \<Rightarrow> char list option \<Rightarrow> char list option \<Rightarrow> int option \<Rightarrow> dsp_shared_memory
    \<Rightarrow> bool \<times> char list option \<times> char list option \<times> int option \<times> dsp_shared_memory" where
  "sdk_fetch_log ctx out_tag out_msg out_level m =
     (case ctx of
        None \<Rightarrow> (False, out_tag, out_msg, out_level, m)
      | Some c \<Rightarrow>
        (if \<not> cx_shm c then (False, out_tag, out_msg, out_level, m)
         else case pop (log_bus m) of
             (None, q) \<Rightarrow> (False, out_tag, out_msg, out_level, m\<lparr>log_bus := q\<rparr>)
           | (Some entry, q) \<Rightarrow>
               (True, map_option (\<lambda>d. strncpy d (tag entry) 15) out_tag, map_option (\<lambda>d. strncpy d (msg entry) 127) out_msg,
                map_option (\<lambda>l. sint (level entry)) out_level, m\<lparr>log_bus := q\<rparr>)))"

section \<open>Device memory\<close>

text \<open>
  The wait for a response: up to \<open>k\<close> times, take a response, return it if it is accepted, and sleep.
  \<open>others i\<close> is what the other process does to the shared memory during the sleep with \<open>i\<close> left.
\<close>

fun poll_response :: "nat \<Rightarrow> (dsp_memory_response \<Rightarrow> bool) \<Rightarrow> (nat \<Rightarrow> dsp_shared_memory \<Rightarrow> dsp_shared_memory)
    \<Rightarrow> dsp_shared_memory \<Rightarrow> dsp_memory_response option \<times> dsp_shared_memory" where
  "poll_response 0 accept others m = (None, m)"
| "poll_response (Suc k) accept others m =
     (let (r, q) = pop (memory_response_bus m); m' = m\<lparr>memory_response_bus := q\<rparr> in
      case r of
        Some resp \<Rightarrow> (if accept resp then (Some resp, m') else poll_response k accept others (others k m'))
      | None \<Rightarrow> poll_response k accept others (others k m'))"

definition sdk_allocate_vram :: "u32 \<Rightarrow> (nat \<Rightarrow> dsp_shared_memory \<Rightarrow> dsp_shared_memory) \<Rightarrow> sdk_ctx option \<Rightarrow> u64
    \<Rightarrow> dsp_shared_memory \<Rightarrow> u32 \<times> dsp_shared_memory" where
  "sdk_allocate_vram req_id others ctx sz m =
     (case ctx of
        None \<Rightarrow> (0, m)
      | Some c \<Rightarrow>
        (if \<not> cx_shm c then (0, m)
         else let (ok, q) = push (memory_request_bus m) \<lparr>request_id = req_id, req_type = ALLOCATE, req_size = sz,
                req_handle = 0, shm_offset = 0\<rparr>; m1 = m\<lparr>memory_request_bus := q\<rparr> in
           if \<not> ok then (0, m1)
           else case poll_response 500 (\<lambda>r. resp_request_id r = req_id \<and> success r) others m1 of
               (Some r, m2) \<Rightarrow> (resp_handle r, m2)
             | (None, m2) \<Rightarrow> (0, m2)))"

definition sdk_upload_buffer :: "u32 \<Rightarrow> (nat \<Rightarrow> dsp_shared_memory \<Rightarrow> dsp_shared_memory) \<Rightarrow> sdk_ctx option \<Rightarrow> u32
    \<Rightarrow> u8 list \<Rightarrow> u64 \<Rightarrow> dsp_shared_memory \<Rightarrow> (bool \<times> dsp_shared_memory) outcome" where
  "sdk_upload_buffer req_id others ctx handle data sz m =
     (case ctx of
        None \<Rightarrow> Inr (False, m)
      | Some c \<Rightarrow>
        (if \<not> cx_shm c \<or> 1024 * 1024 * 4 < sz then Inr (False, m)
         else case memcpy_at (data_staging m) 0 data (unat sz) of
             Inl e \<Rightarrow> Inl e
           | Inr staging \<Rightarrow>
              (let (ok, q) = push (memory_request_bus m) \<lparr>request_id = req_id, req_type = UPLOAD, req_size = sz,
                     req_handle = handle, shm_offset = of_nat STAGING_OFFSET\<rparr>;
                   m1 = m\<lparr>data_staging := staging, memory_request_bus := q\<rparr> in
               if \<not> ok then Inr (False, m1)
               else case poll_response 500 (\<lambda>r. resp_request_id r = req_id) others m1 of
                   (Some r, m2) \<Rightarrow> Inr (success r, m2)
                 | (None, m2) \<Rightarrow> Inr (False, m2))))"

definition sdk_free_vram :: "sdk_ctx option \<Rightarrow> u32 \<Rightarrow> dsp_shared_memory \<Rightarrow> dsp_shared_memory" where
  "sdk_free_vram ctx handle m =
     (case ctx of
        None \<Rightarrow> m
      | Some c \<Rightarrow>
        (if \<not> cx_shm c \<or> handle = 0 then m
         else m\<lparr>memory_request_bus := snd (push (memory_request_bus m) \<lparr>request_id = 0, req_type = FREE, req_size = 0,
           req_handle = handle, shm_offset = 0\<rparr>)\<rparr>))"

definition sdk_set_zero_copy_bypass :: "sdk_ctx option \<Rightarrow> bool \<Rightarrow> dsp_shared_memory \<Rightarrow> dsp_shared_memory outcome" where
  "sdk_set_zero_copy_bypass ctx enabled m =
     (case ctx of
        None \<Rightarrow> Inr m
      | Some c \<Rightarrow>
        (if \<not> cx_shm c then Inr m
         else update_control_block (\<lambda>b. b\<lparr>bypass_zero_copy := enabled\<rparr>) (uint (cx_worker_id c)) m))"

end
