(* ===== verification/Sdk_Spec.thy ===== *)
theory Sdk_Spec
  imports Sdk "HOL-Library.Multiset"
begin

text \<open>
  What the library of the plugin guarantees: which block a dispatch queues, what a read-back
  delivers, what happens to the descriptors, how a dead worker is noticed, and what a context
  without shared memory does.
\<close>

section \<open>Descriptors\<close>

text \<open>The descriptors the system hands out during \<open>connect\<close>, in their order.\<close>

definition obtained :: "bool \<Rightarrow> connect_env \<Rightarrow> int list" where
  "obtained linux env =
     (if \<not> alloc_ok env \<or> \<not> linux then []
      else sock env # (if 0 \<le> sock env \<and> connect_ok env \<and> send_ok env \<and> recv_worker_id env \<noteq> None
        then (let (m1, m2, m3) = fd_messages env in [recv_fd m1, recv_fd m2, recv_fd m3]) else []))"

definition handshake_ok :: "connect_env \<Rightarrow> bool" where
  "handshake_ok env \<longleftrightarrow> connect_ok env \<and> send_ok env \<and> recv_worker_id env \<noteq> None \<and> map_ok env \<and>
     list_all (\<lambda>fd. 0 \<le> fd) (obtained True env)"

lemma close_all_eq:
  "close_all c = (filter (\<lambda>fd. 0 \<le> fd) [cx_shm_fd c, cx_eventfd_send c, cx_eventfd_recv c, cx_socket_fd c],
     c\<lparr>cx_shm_fd := min (-1) (cx_shm_fd c), cx_eventfd_send := min (-1) (cx_eventfd_send c),
       cx_eventfd_recv := min (-1) (cx_eventfd_recv c), cx_socket_fd := min (-1) (cx_socket_fd c)\<rparr>)"
  by (simp add: close_all_def safe_close_def Let_def min_def)

text \<open>
  C27: No descriptor leaks or is closed twice: whatever the system answers at each step of \<open>connect\<close>,
  the descriptors closed by \<open>connect\<close> and a later \<open>disconnect\<close> are exactly the valid ones the
  system handed out. The context has the shared memory if and only if every step succeeded, and then
  nothing has been closed yet.
\<close>

theorem connect_closes_what_it_opened:
  assumes "sdk_connect linux env ty cost m = Inr (r, cl)"
  shows "mset (cl @ fst (sdk_disconnect r)) = mset (filter (\<lambda>fd. 0 \<le> fd) (obtained linux env)) \<and>
    (case r of None \<Rightarrow> \<not> alloc_ok env
     | Some c \<Rightarrow> alloc_ok env \<and> cx_shm c = (linux \<and> handshake_ok env) \<and> snd (sdk_disconnect r) = cx_shm c \<and> (cx_shm c \<longrightarrow> cl = []))"
proof -
  obtain m1 m2 m3 where f: "fd_messages env = (m1, m2, m3)" by (cases "fd_messages env")
  consider (null) "\<not> alloc_ok env" | (other) "alloc_ok env" "\<not> linux" | (sock) "alloc_ok env" "linux" "sock env < 0"
    | (conn) "alloc_ok env" "linux" "0 \<le> sock env" "\<not> connect_ok env"
    | (send) "alloc_ok env" "linux" "0 \<le> sock env" "connect_ok env" "\<not> send_ok env"
    | (recv) "alloc_ok env" "linux" "0 \<le> sock env" "connect_ok env" "send_ok env" "recv_worker_id env = None"
    | (fds) wid where "alloc_ok env" "linux" "0 \<le> sock env" "connect_ok env" "send_ok env" "recv_worker_id env = Some wid"
    by fastforce
  then show ?thesis
  proof cases
    case fds
    then show ?thesis
      using assms f
      by (auto simp: sdk_connect_def sdk_disconnect_def obtained_def handshake_ok_def close_all_eq new_ctx_def Let_def
          split: if_splits sum.splits)
  qed (use assms f in \<open>auto simp: sdk_connect_def sdk_disconnect_def obtained_def handshake_ok_def close_all_eq new_ctx_def Let_def\<close>)
qed

definition demo_connect :: connect_env where
  "demo_connect = \<lparr>alloc_ok = True, sock = 3, connect_ok = True, send_ok = True, recv_worker_id = Some 1,
     fd_messages = (Rights 4, No_Rights, Rights 6), map_ok = True\<rparr>"

theorem connect_closes_what_it_opened_witness:
  "\<exists>c cl. sdk_connect True demo_connect DSP_ACCEL_TYPE_ARRAY_PROCESSOR (flit binary32 1) shm_zero = Inr (Some c, cl) \<and>
     mset cl = {#4, 6, 3#} \<and> \<not> cx_shm c"
proof -
  have "\<exists>c cl. sdk_connect True demo_connect DSP_ACCEL_TYPE_ARRAY_PROCESSOR (flit binary32 1) shm_zero = Inr (Some c, cl)
     \<and> fst (sdk_disconnect (Some c)) = []"
    by (simp add: sdk_connect_def demo_connect_def close_all_eq new_ctx_def sdk_disconnect_def)
  then obtain c cl where c: "sdk_connect True demo_connect DSP_ACCEL_TYPE_ARRAY_PROCESSOR (flit binary32 1) shm_zero
      = Inr (Some c, cl)" "fst (sdk_disconnect (Some c)) = []" by blast
  from connect_closes_what_it_opened [OF c(1)] c show ?thesis
    by (intro exI [of _ c] exI [of _ cl]) (simp add: obtained_def demo_connect_def handshake_ok_def)
qed

section \<open>Dispatch\<close>

text \<open>The counts a dispatch stores: clamped to the arrays of a frame.\<close>

definition clamp_frames :: "int \<Rightarrow> nat" where
  "clamp_frames n = nat (min n 256)"

definition clamp_channels :: "int \<Rightarrow> nat" where
  "clamp_channels n = nat (min n 8)"

text \<open>A call the library's documentation allows: non-negative counts, and buffers that hold that much.\<close>

definition call_ok :: "f32 list list \<Rightarrow> int \<Rightarrow> int \<Rightarrow> bool" where
  "call_ok buffers frames channels \<longleftrightarrow> 0 \<le> frames \<and> 0 \<le> channels \<and> clamp_channels channels \<le> length buffers \<and>
     list_all (\<lambda>b. clamp_frames frames \<le> length b) (take (clamp_channels channels) buffers)"

text \<open>The frame a block becomes.\<close>

definition block_of :: "u64 \<Rightarrow> f32 list list \<Rightarrow> int \<Rightarrow> int \<Rightarrow> dsp_audio_frame \<Rightarrow> bool" where
  "block_of now buffers frames channels f \<longleftrightarrow> frame_bounded f \<and> unat (frame_count f) = clamp_frames frames \<and>
     unat (channel_count f) = clamp_channels channels \<and> timestamp_ns f = now \<and>
     (\<forall>ch < clamp_channels channels. channel_block (samples f) ch (clamp_frames frames) = take (clamp_frames frames) (buffers ! ch))"

definition ctx_block :: "sdk_ctx \<Rightarrow> dsp_shared_memory \<Rightarrow> worker_control_block" where
  "ctx_block c m = workers m ! unat (cx_worker_id c)"

text \<open>A context the worker side can be reached through.\<close>

definition ctx_ok :: "sdk_ctx \<Rightarrow> dsp_shared_memory \<Rightarrow> bool" where
  "ctx_ok c m \<longleftrightarrow> shm_wf m \<and> cx_shm c \<and> unat (cx_worker_id c) < 8"

lemma ctx_control_block:
  assumes "ctx_ok c m"
  shows "control_block m (uint (cx_worker_id c)) = Inr (ctx_block c m)"
proof -
  have w: "length (workers m) = 8" "unat (cx_worker_id c) < 8" using assms by (simp_all add: ctx_ok_def shm_wf_def)
  from w(2) have "int (unat (cx_worker_id c)) < 8" by linarith
  then show ?thesis using w(1) by (simp add: control_block_def ctx_block_def)
qed

lemma watchdog_simps [simp]:
  "cx_shm (watchdog hb c) = cx_shm c" "cx_worker_id (watchdog hb c) = cx_worker_id c"
  "dispatched_blocks (watchdog hb c) = dispatched_blocks c" "xrun_count (watchdog hb c) = xrun_count c"
  "last_worker_heartbeat (watchdog hb c) = hb"
  by (simp_all add: watchdog_def)

lemma clamp_words:
  assumes "0 \<le> frames" "0 \<le> channels"
  shows "unat (of_int (if 256 < frames then 256 else frames) :: u32) = clamp_frames frames"
    "unat (of_int (if 8 < channels then 8 else channels) :: u32) = clamp_channels channels"
    "clamp_frames frames \<le> MAX_FRAMES" "clamp_channels channels \<le> MAX_CHANNELS"
proof -
  show "unat (of_int (if 256 < frames then 256 else frames) :: u32) = clamp_frames frames"
    using assms unat_of_int_u32 [of "if 256 < frames then 256 else frames"] by (auto simp: clamp_frames_def)
  show "unat (of_int (if 8 < channels then 8 else channels) :: u32) = clamp_channels channels"
    using assms unat_of_int_u32 [of "if 8 < channels then 8 else channels"] by (auto simp: clamp_channels_def)
qed (auto simp: clamp_frames_def clamp_channels_def MAX_FRAMES_def MAX_CHANNELS_def)

lemma fill_samples_ok:
  assumes "call_ok buffers frames channels" "length dst = MAX_SAMPLES"
    and fc: "unat fc = clamp_frames frames" and cc: "unat cc = clamp_channels channels"
  shows "\<exists>d. fill_samples buffers fc cc dst = Inr d \<and> length d = MAX_SAMPLES \<and>
    (\<forall>ch < clamp_channels channels. channel_block d ch (clamp_frames frames) = take (clamp_frames frames) (buffers ! ch))"
proof -
  have b: "clamp_frames frames \<le> MAX_FRAMES" "clamp_channels channels \<le> MAX_CHANNELS"
    by (auto simp: clamp_frames_def clamp_channels_def MAX_FRAMES_def MAX_CHANNELS_def)
  have "clamp_frames frames \<le> length (buffers ! ch)" if "ch < clamp_channels channels" for ch
    using assms(1) that by (auto simp: call_ok_def list_all_length)
  from put_channels_ok [where src = "\<lambda>ch. buffers ! ch", OF assms(2) b this] show ?thesis
    using assms(1) by (simp add: fill_samples_def call_ok_def fc cc)
qed

text \<open>A dispatch that gets past the health checks.\<close>

lemma dispatch_step:
  assumes "ctx_ok c m" "last_error (ctx_block c m) = NO_ERROR" "call_ok buffers frames channels"
    and "\<not> 10 < heartbeat_stalled_count (watchdog (heartbeat (ctx_block c m)) c)"
  shows "\<exists>ok c' m' sent. sdk_dispatch True env (Some c) buffers frames channels m = Inr (ok, Some c', m', sent) \<and> shm_wf m' \<and>
    m'\<lparr>in_queue := in_queue m\<rparr> = m \<and> ok = (sent = 1) \<and>
    (if length (items (in_queue m)) = 15
     then m' = m \<and> sent = 0 \<and> xrun_count c' = xrun_count c + 1
     else (\<exists>f. items (in_queue m') = items (in_queue m) @ [f] \<and> block_of (now_ns env) buffers frames channels f) \<and>
       sent = (if signal_ok env then 1 else 0) \<and>
       dispatched_blocks c' = dispatched_blocks c + (if signal_ok env then 1 else 0) \<and>
       xrun_count c' = xrun_count c + (if signal_ok env then 0 else 1))"
proof -
  let ?q = "in_queue m" and ?c1 = "watchdog (heartbeat (ctx_block c m)) c"
  have q: "ring_of frame_wf IPC_QUEUE_DEPTH ?q" and cs: "cx_shm c" using assms(1) by (simp_all add: ctx_ok_def shm_wf_def)
  note cb = ctx_control_block [OF assms(1)]
  have room: "ring_room ?q = 15" using ring_ofD(3) [OF q] by (simp add: IPC_QUEUE_DEPTH_def)
  have nn: "0 \<le> frames" "0 \<le> channels" using assms(3) by (simp_all add: call_ok_def)
  define fc :: u32 where "fc = of_int (if 256 < frames then 256 else frames)"
  define cc :: u32 where "cc = of_int (if 8 < channels then 8 else channels)"
  note cl = clamp_words [OF nn, folded fc_def cc_def]
  show ?thesis
  proof (cases "reserve_write ?q")
    case None
    then have "length (items ?q) = 15" using reserve_write_iff [OF ring_ofD(1) [OF q]] room by (simp split: if_splits)
    moreover have "sdk_dispatch True env (Some c) buffers frames channels m = Inr (False, Some (?c1\<lparr>xrun_count := xrun_count ?c1 + 1\<rparr>), m, 0)"
      using cs assms(2,4) None by (simp add: sdk_dispatch_def cb Let_def)
    ultimately show ?thesis using assms(1)
      by (intro exI [of _ False] exI [of _ "?c1\<lparr>xrun_count := xrun_count ?c1 + 1\<rparr>"] exI [of _ m] exI [of _ 0])
        (simp add: ctx_ok_def)
  next
    case (Some i)
    then have len: "length (items ?q) \<noteq> 15" using reserve_write_iff [OF ring_ofD(1) [OF q]] room by (simp split: if_splits)
    let ?s = "slot_at ?q i"
    have "length (samples ?s) = MAX_SAMPLES" using ring_of_slot [OF q reserve_write_lt [OF q Some]] by (simp add: frame_wf_def)
    from fill_samples_ok [OF assms(3) this cl(1,2)] obtain d where d: "fill_samples buffers fc cc (samples ?s) = Inr d" "length d = MAX_SAMPLES"
      "\<forall>ch < clamp_channels channels. channel_block d ch (clamp_frames frames) = take (clamp_frames frames) (buffers ! ch)" by blast
    let ?f = "?s\<lparr>frame_count := fc, channel_count := cc, timestamp_ns := now_ns env, samples := d\<rparr>"
    let ?q' = "commit_write (store_slot ?q i ?f)"
    have f: "block_of (now_ns env) buffers frames channels ?f"
      using d cl by (simp add: block_of_def frame_bounded_def frame_wf_def)
    then have "frame_wf ?f" by (simp add: block_of_def frame_bounded_def)
    then have q': "ring_of frame_wf IPC_QUEUE_DEPTH ?q'" using q by (intro ring_of_commit_write ring_of_store)
    have it: "items ?q' = items ?q @ [?f]" using write_committed(1) [OF ring_ofD(1) [OF q] Some] .
    let ?c' = "if signal_ok env then ?c1\<lparr>dispatched_blocks := dispatched_blocks ?c1 + 1\<rparr> else ?c1\<lparr>xrun_count := xrun_count ?c1 + 1\<rparr>"
    have "sdk_dispatch True env (Some c) buffers frames channels m =
      Inr (signal_ok env, Some ?c', m\<lparr>in_queue := ?q'\<rparr>, if signal_ok env then 1 else 0)"
      using cs assms(2,4) Some d(1) by (simp add: sdk_dispatch_def cb Let_def fc_def [symmetric] cc_def [symmetric])
    moreover have "shm_wf (m\<lparr>in_queue := ?q'\<rparr>)" using assms(1) q' by (simp add: ctx_ok_def shm_wf_def)
    ultimately show ?thesis
      using len it f
      by (intro exI [of _ "signal_ok env"] exI [of _ ?c'] exI [of _ "m\<lparr>in_queue := ?q'\<rparr>"]
          exI [of _ "if signal_ok env then 1 else 0"]) auto
  qed
qed

text \<open>
  C9: A dispatch to a healthy worker queues exactly the caller's block: if the input queue has room for
  it, one frame with the clamped counts, the current time and the first samples of every channel is
  appended, and nothing else in the shared memory changes; the worker is signalled once and the call
  succeeds, unless the signal cannot be written: then the call reports failure although the block
  stays queued. With 15 blocks pending nothing is written and an overrun is counted.
\<close>

theorem dispatch_queues_block:
  assumes "ctx_ok c m" "last_error (ctx_block c m) = NO_ERROR" "call_ok buffers frames channels"
    and "\<not> 10 < heartbeat_stalled_count (watchdog (heartbeat (ctx_block c m)) c)"
  shows "\<exists>ok c' m' sent. sdk_dispatch True env (Some c) buffers frames channels m = Inr (ok, Some c', m', sent) \<and> shm_wf m' \<and>
    m'\<lparr>in_queue := in_queue m\<rparr> = m \<and> ok = (sent = 1) \<and>
    (if length (items (in_queue m)) = 15
     then m' = m \<and> sent = 0 \<and> xrun_count c' = xrun_count c + 1
     else (\<exists>f. items (in_queue m') = items (in_queue m) @ [f] \<and> block_of (now_ns env) buffers frames channels f) \<and>
       sent = (if signal_ok env then 1 else 0) \<and>
       dispatched_blocks c' = dispatched_blocks c + (if signal_ok env then 1 else 0) \<and>
       xrun_count c' = xrun_count c + (if signal_ok env then 0 else 1))"
  by (rule dispatch_step [OF assms])

definition demo_ctx :: sdk_ctx where
  "demo_ctx = (new_ctx DSP_ACCEL_TYPE_ARRAY_PROCESSOR f32_zero)\<lparr>cx_shm := True, cx_worker_id := 1\<rparr>"

definition demo_buffers :: "f32 list list" where
  "demo_buffers = [replicate 64 (flit binary32 1), replicate 300 f32_zero]"

definition demo_dispatch :: dispatch_env where
  "demo_dispatch = \<lparr>now_ns = 9, signal_interrupts = 1, signal_ok = True\<rparr>"

lemma demo_ctx_ok: "ctx_ok demo_ctx shm_zero" "ctx_block demo_ctx shm_zero = wcb_zero"
  by (simp_all add: ctx_ok_def demo_ctx_def new_ctx_def ctx_block_def)

lemma demo_call_ok: "call_ok demo_buffers 64 2"
  by (simp add: call_ok_def demo_buffers_def clamp_frames_def clamp_channels_def)

theorem dispatch_queues_block_witness:
  "\<exists>c' m' f. sdk_dispatch True demo_dispatch (Some demo_ctx) demo_buffers 64 2 shm_zero = Inr (True, Some c', m', 1) \<and>
     items (in_queue m') = [f] \<and> unat (frame_count f) = 64 \<and> dispatched_blocks c' = 1"
proof -
  have "last_error (ctx_block demo_ctx shm_zero) = NO_ERROR"
    "\<not> 10 < heartbeat_stalled_count (watchdog (heartbeat (ctx_block demo_ctx shm_zero)) demo_ctx)"
    unfolding demo_ctx_ok(2) by (simp_all add: wcb_zero_def watchdog_def demo_ctx_def new_ctx_def)
  from dispatch_queues_block [OF demo_ctx_ok(1) this(1) demo_call_ok this(2), of demo_dispatch] show ?thesis
    by (auto simp: demo_dispatch_def block_of_def clamp_frames_def demo_ctx_def new_ctx_def)
qed

section \<open>The watchdog\<close>

text \<open>Calls in a row with nothing else happening to the shared memory: the worker is dead.\<close>

fun dispatch_all :: "dispatch_env list \<Rightarrow> f32 list list \<Rightarrow> int \<Rightarrow> int \<Rightarrow> sdk_ctx option \<times> dsp_shared_memory
    \<Rightarrow> (bool list \<times> sdk_ctx option \<times> dsp_shared_memory) outcome" where
  "dispatch_all [] buffers frames channels (c, m) = Inr ([], c, m)"
| "dispatch_all (env # envs) buffers frames channels (c, m) =
     (case sdk_dispatch True env c buffers frames channels m of
        Inl e \<Rightarrow> Inl e
      | Inr (ok, c', m', sent) \<Rightarrow>
         (case dispatch_all envs buffers frames channels (c', m') of
            Inl e \<Rightarrow> Inl e
          | Inr (oks, r) \<Rightarrow> Inr (ok # oks, r)))"

lemma dispatch_context:
  assumes "sdk_dispatch True env (Some c) buffers frames channels m = Inr (ok, Some c', m', sent)"
    and "ctx_ok c m" "last_error (ctx_block c m) = NO_ERROR"
  shows "heartbeat_stalled_count c' = heartbeat_stalled_count (watchdog (heartbeat (ctx_block c m)) c) \<and>
    last_worker_heartbeat c' = heartbeat (ctx_block c m) \<and> cx_shm c' \<and> cx_worker_id c' = cx_worker_id c \<and> workers m' = workers m"
  using assms ctx_control_block [OF assms(2)]
  by (auto simp: sdk_dispatch_def Let_def ctx_ok_def split: if_splits option.splits sum.splits)

lemma dispatch_refused:
  assumes "ctx_ok c m" "10 < heartbeat_stalled_count (watchdog (heartbeat (ctx_block c m)) c)"
    and "last_error (ctx_block c m) = NO_ERROR"
  shows "sdk_dispatch True env (Some c) buffers frames channels m = Inr (False, Some (watchdog (heartbeat (ctx_block c m)) c), m, 0)"
  using assms ctx_control_block [OF assms(1)] by (simp add: sdk_dispatch_def Let_def ctx_ok_def)

lemma stalled_Suc:
  assumes "last_worker_heartbeat c = hb" "heartbeat_stalled_count c = of_nat k" "Suc k < 2 ^ 32"
  shows "10 < heartbeat_stalled_count (watchdog hb c) \<longleftrightarrow> 10 < Suc k"
    "heartbeat_stalled_count (watchdog hb c) = of_nat (Suc k)"
proof -
  show e: "heartbeat_stalled_count (watchdog hb c) = of_nat (Suc k)" using assms by (simp add: watchdog_def)
  have "unat (of_nat (Suc k) :: u32) = Suc k" using assms(3) by (simp add: unat_of_nat take_bit_nat_eq_self del: of_nat_Suc)
  then show "10 < heartbeat_stalled_count (watchdog hb c) \<longleftrightarrow> 10 < Suc k"
    unfolding e word_less_nat_alt by (simp del: of_nat_Suc)
qed

lemma dead_worker_run:
  assumes "ctx_ok c m" "last_error (ctx_block c m) = NO_ERROR" "call_ok buffers frames channels"
    and "last_worker_heartbeat c = heartbeat (ctx_block c m)" "heartbeat_stalled_count c = of_nat k" "k + length envs < 2 ^ 32"
    and "length (items (in_queue m)) + (10 - k) \<le> 15" "list_all signal_ok envs"
  shows "\<exists>c' m'. dispatch_all envs buffers frames channels (Some c, m) =
      Inr (replicate (min (length envs) (10 - k)) True @ replicate (length envs - (10 - k)) False, Some c', m') \<and>
    length (items (in_queue m')) = length (items (in_queue m)) + min (length envs) (10 - k)"
  using assms
proof (induction envs arbitrary: c m k)
  case Nil
  then show ?case by simp
next
  case (Cons env envs)
  note st = stalled_Suc [OF Cons.prems(4,5)]
  have k: "Suc k < 2 ^ 32" "Suc k + length envs < 2 ^ 32" using Cons.prems(6) by simp_all
  show ?case
  proof (cases "k < 10")
    case False
    then have w: "10 < heartbeat_stalled_count (watchdog (heartbeat (ctx_block c m)) c)" using st(1) [OF k(1)] by simp
    let ?c' = "watchdog (heartbeat (ctx_block c m)) c"
    have d: "sdk_dispatch True env (Some c) buffers frames channels m = Inr (False, Some ?c', m, 0)"
      by (rule dispatch_refused [OF Cons.prems(1) w Cons.prems(2)])
    have same: "ctx_block ?c' m = ctx_block c m" by (simp add: ctx_block_def)
    have i: "\<exists>c' m'. dispatch_all envs buffers frames channels (Some ?c', m) =
        Inr (replicate (min (length envs) (10 - Suc k)) True @ replicate (length envs - (10 - Suc k)) False, Some c', m') \<and>
      length (items (in_queue m')) = length (items (in_queue m)) + min (length envs) (10 - Suc k)"
      by (rule Cons.IH) (use Cons.prems same st(2) [OF k(1)] k(2) False in \<open>simp_all add: ctx_ok_def\<close>)
    from i False d show ?thesis by auto
  next
    case True
    then have w: "\<not> 10 < heartbeat_stalled_count (watchdog (heartbeat (ctx_block c m)) c)" using st(1) [OF k(1)] by simp
    have room: "length (items (in_queue m)) \<noteq> 15" using Cons.prems(7) True by linarith
    from dispatch_step [OF Cons.prems(1-3) w, of env] room Cons.prems(8) obtain c' m' f where
      d: "sdk_dispatch True env (Some c) buffers frames channels m = Inr (True, Some c', m', 1)" "shm_wf m'"
        "items (in_queue m') = items (in_queue m) @ [f]" by auto
    from dispatch_context [OF d(1) Cons.prems(1,2)] have c': "heartbeat_stalled_count c' = of_nat (Suc k)"
      "last_worker_heartbeat c' = heartbeat (ctx_block c m)" "cx_shm c'" "cx_worker_id c' = cx_worker_id c" "workers m' = workers m"
      using st(2) [OF k(1)] by simp_all
    have same: "ctx_block c' m' = ctx_block c m" using c' by (simp add: ctx_block_def)
    have "\<exists>c'' m''. dispatch_all envs buffers frames channels (Some c', m') =
        Inr (replicate (min (length envs) (10 - Suc k)) True @ replicate (length envs - (10 - Suc k)) False, Some c'', m'') \<and>
      length (items (in_queue m'')) = length (items (in_queue m')) + min (length envs) (10 - Suc k)"
      by (rule Cons.IH) (use Cons.prems same c' d(2,3) k(2) True in \<open>simp_all add: ctx_ok_def\<close>)
    moreover have "10 - k = Suc (10 - Suc k)" using True by simp
    ultimately show ?thesis using d by auto
  qed
qed

text \<open>
  C28: A dead worker is noticed after exactly ten blocks: with a heartbeat that no longer moves, an
  empty input queue and a fresh watchdog, the first ten calls succeed and queue their blocks, every
  later one (for 2^32 calls) is refused and leaves the queue as it is.
\<close>

theorem dead_worker_detected:
  assumes "ctx_ok c m" "last_error (ctx_block c m) = NO_ERROR" "call_ok buffers frames channels"
    and "last_worker_heartbeat c = heartbeat (ctx_block c m)" "heartbeat_stalled_count c = 0"
    and "items (in_queue m) = []" "list_all signal_ok envs" "length envs < 2 ^ 32"
  shows "\<exists>c' m'. dispatch_all envs buffers frames channels (Some c, m) =
      Inr (replicate (min (length envs) 10) True @ replicate (length envs - 10) False, Some c', m') \<and>
    length (items (in_queue m')) = min (length envs) 10"
  using dead_worker_run [OF assms(1-4), of 0 envs] assms(5-) by simp

theorem dead_worker_detected_witness:
  "\<exists>r. dispatch_all (replicate 12 demo_dispatch) demo_buffers 64 2 (Some demo_ctx, shm_zero) =
     Inr (replicate 10 True @ replicate 2 False, r)"
proof -
  have "last_worker_heartbeat demo_ctx = heartbeat (ctx_block demo_ctx shm_zero)" "heartbeat_stalled_count demo_ctx = 0"
    "last_error (ctx_block demo_ctx shm_zero) = NO_ERROR"
    unfolding demo_ctx_ok(2) by (simp_all add: wcb_zero_def demo_ctx_def new_ctx_def)
  note h = this
  have "list_all signal_ok (replicate 12 demo_dispatch)" "length (replicate 12 demo_dispatch) = 12"
    by (simp_all add: list_all_iff demo_dispatch_def)
  with dead_worker_detected [OF demo_ctx_ok(1) h(3) demo_call_ok h(1,2) shm_zero_queues(1), of "replicate 12 demo_dispatch"]
  show ?thesis by fastforce
qed

section \<open>Read back\<close>

text \<open>The caller's buffers after the first \<open>k\<close> channels of a frame have been copied to them.\<close>

definition received :: "dsp_audio_frame \<Rightarrow> nat \<Rightarrow> f32 list list \<Rightarrow> f32 list list" where
  "received f k buffers =
     (let n = unat (frame_count f) in
      map (\<lambda>ch. if ch < k then channel_block (samples f) ch n @ drop n (buffers ! ch) else buffers ! ch) [0..<length buffers])"

lemma read_channels:
  assumes f: "frame_bounded f" and k: "k \<le> length buffers" "k \<le> MAX_CHANNELS"
  shows "for_each (read_channel (samples f) (unat (frame_count f))) [0..<k] buffers =
    (if \<forall>ch < k. unat (frame_count f) \<le> length (buffers ! ch) then Inr (received f k buffers) else Inl Out_Of_Bounds)"
  using k
proof (induction k)
  case 0
  then show ?case by (simp add: received_def map_nth)
next
  case (Suc k)
  let ?n = "unat (frame_count f)"
  have n: "?n \<le> MAX_FRAMES" "length (samples f) = MAX_SAMPLES" using f by (simp_all add: frame_bounded_def frame_wf_def)
  have off: "unat ((of_nat k :: u32) * 256) = k * MAX_FRAMES" using Suc.prems by (intro channel_offset_u32) simp
  have fit: "k * MAX_FRAMES + ?n \<le> MAX_SAMPLES" using channel_fits [of k ?n] Suc.prems n by simp
  then have fit2: "?n \<le> MAX_SAMPLES - k * MAX_FRAMES" by linarith
  let ?r = "received f k buffers"
  have r: "length ?r = length buffers" "?r ! k = buffers ! k" using Suc.prems by (simp_all add: received_def Let_def)
  have step: "read_channel (samples f) ?n k ?r = (if ?n \<le> length (buffers ! k)
      then Inr (?r[k := channel_block (samples f) k ?n @ drop ?n (buffers ! k)]) else Inl Out_Of_Bounds)"
    using Suc.prems r fit fit2 n by (simp add: read_channel_def off memcpy_at_def channel_block_def)
  have upd: "?r[k := channel_block (samples f) k ?n @ drop ?n (buffers ! k)] = received f (Suc k) buffers"
    using Suc.prems by (intro nth_equalityI) (auto simp: received_def Let_def nth_list_update less_Suc_eq)
  show ?case
    using Suc.IH Suc.prems step upd by (auto simp: for_each_append less_Suc_eq)
qed

text \<open>A read-back of a queued block.\<close>

lemma read_step:
  assumes "ctx_ok c m" "0 < poll_result env" "items (out_queue m) = f # fs" "frame_bounded f"
    and "0 \<le> channels" "channels < 2 ^ 31" "k = min (unat (channel_count f)) (nat channels)" "k \<le> length buffers"
  shows "if \<forall>ch < k. unat (frame_count f) \<le> length (buffers ! ch)
    then \<exists>c' q. sdk_read_output True env (Some c) buffers frames channels m =
        Inr (True, received f k buffers, Some c', m\<lparr>out_queue := q\<rparr>) \<and> items q = fs \<and> shm_wf (m\<lparr>out_queue := q\<rparr>)
    else sdk_read_output True env (Some c) buffers frames channels m = Inl Out_Of_Bounds"
proof -
  let ?q = "out_queue m"
  have q: "ring_of frame_wf IPC_QUEUE_DEPTH ?q" "cx_shm c" "shm_wf m" using assms(1) by (simp_all add: ctx_ok_def shm_wf_def)
  obtain i where i: "peek_read ?q = Some i"
    using peek_read_iff [OF ring_ofD(1) [OF q(1)]] assms(3) by (simp split: if_splits)
  have f: "slot_at ?q i = f" "items (commit_read ?q) = fs"
    using read_committed(1) [OF ring_ofD(1) [OF q(1)] i] assms(3) by simp_all
  have k: "min (unat (channel_count f)) (unat (of_int channels :: u32)) = k"
    using assms(5-7) unat_of_int_u32 [of channels] by simp
  have "k \<le> MAX_CHANNELS" using assms(4,7) by (auto simp: frame_bounded_def intro: min.coboundedI1)
  note r = read_channels [OF assms(4,8) this]
  have "shm_wf (m\<lparr>out_queue := commit_read ?q\<rparr>)"
    using q ring_of_commit_read [OF q(1)] by (simp add: shm_wf_def)
  then show ?thesis
    using q(2) assms(2) i f k r by (auto simp: sdk_read_output_def Let_def)
qed

text \<open>
  C29: A read-back delivers the oldest processed block: when the worker has signalled and a frame within
  its bounds is queued, every channel the frame and the caller share gets the frame's samples, the rest
  of each buffer and the other buffers stay, and the frame leaves the queue. The number of samples is
  the frame's, whatever \<open>frames\<close> the caller passes: exactly when one of its buffers is shorter than that
  the call writes out of bounds.
\<close>

theorem read_output_delivers:
  assumes "ctx_ok c m" "0 < poll_result env" "items (out_queue m) = f # fs" "frame_bounded f"
    and "0 \<le> channels" "channels < 2 ^ 31" "k = min (unat (channel_count f)) (nat channels)" "k \<le> length buffers"
  shows "if \<forall>ch < k. unat (frame_count f) \<le> length (buffers ! ch)
    then \<exists>c' q. sdk_read_output True env (Some c) buffers frames channels m =
        Inr (True, received f k buffers, Some c', m\<lparr>out_queue := q\<rparr>) \<and> items q = fs \<and> shm_wf (m\<lparr>out_queue := q\<rparr>)
    else sdk_read_output True env (Some c) buffers frames channels m = Inl Out_Of_Bounds"
  by (rule read_step [OF assms])

definition demo_readback :: readback_env where
  "demo_readback = \<lparr>poll_result = 1, end_ns = 1009\<rparr>"

definition demo_output :: dsp_audio_frame where
  "demo_output = frame_zero\<lparr>frame_count := 64, channel_count := 1, timestamp_ns := 9\<rparr>"

definition demo_out_shm :: dsp_shared_memory where
  "demo_out_shm = shm_zero\<lparr>out_queue := snd (push (out_queue shm_zero) demo_output)\<rparr>"

lemma demo_out_shm_facts:
  "ctx_ok demo_ctx demo_out_shm" "items (out_queue demo_out_shm) = [demo_output]" "frame_bounded demo_output"
proof -
  have f: "frame_wf demo_output" "frame_bounded demo_output"
    by (simp_all add: demo_output_def frame_wf_def frame_bounded_def frame_zero_def MAX_FRAMES_def MAX_CHANNELS_def)
  have r: "ring_of frame_wf IPC_QUEUE_DEPTH (out_queue shm_zero)" using shm_zero_wf by (simp add: shm_wf_def)
  obtain ok q where p: "push (out_queue shm_zero) demo_output = (ok, q)" by fastforce
  have q: "items q = [demo_output]"
    using spsc.enq_inv [OF ring_ofD(1) [OF r] p] spsc.enq_ok_iff [OF ring_ofD(1) [OF r] p] ring_ofD(3) [OF r]
    by (simp add: IPC_QUEUE_DEPTH_def)
  have "shm_wf demo_out_shm" using shm_zero_wf ring_of_push [OF r f(1) p] by (simp add: demo_out_shm_def shm_wf_def p)
  then show "ctx_ok demo_ctx demo_out_shm" by (simp add: ctx_ok_def demo_ctx_def)
  show "items (out_queue demo_out_shm) = [demo_output]" using q by (simp add: demo_out_shm_def p)
  show "frame_bounded demo_output" by (rule f(2))
qed

theorem read_output_delivers_witness:
  "sdk_read_output True demo_readback (Some demo_ctx) [replicate 32 f32_zero] 32 1 demo_out_shm = Inl Out_Of_Bounds"
proof -
  have "0 < poll_result demo_readback" by (simp add: demo_readback_def)
  from read_output_delivers [OF demo_out_shm_facts(1) this demo_out_shm_facts(2,3), of 1 1 "[replicate 32 f32_zero]" 32]
  show ?thesis by (simp add: demo_output_def split: if_splits)
qed

section \<open>Without shared memory\<close>

text \<open>
  A context without shared memory is inert: every call reports failure (or no latency) and leaves the
  context, the caller's buffers and any memory alone, except that asking for the statistics
  dereferences the null pointer. Such a context is what \<open>connect\<close> returns whenever the macro
  \<open>DSP_PLATFORM_LINUX\<close> is not defined, whatever the system would answer.
\<close>

theorem fallback_is_inert:
  assumes "\<not> cx_shm c \<or> (\<exists>env ty cost m cl. sdk_connect False env ty cost m = Inr (Some c, cl))"
  shows "sdk_dispatch linux denv (Some c) buffers frames channels m = Inr (False, Some c, m, 0) \<and>
    sdk_read_output linux renv (Some c) buffers frames channels m = Inr (False, buffers, Some c, m) \<and>
    sdk_get_latency_samples (Some c) = 0 \<and> sdk_get_stats (Some c) m = Inl Null_Deref \<and>
    sdk_set_param (Some c) pid v m = (False, m) \<and> sdk_fetch_log (Some c) t s l m = (False, t, s, l, m) \<and>
    sdk_allocate_vram r others (Some c) sz m = (0, m) \<and> sdk_upload_buffer r others (Some c) h data sz m = Inr (False, m) \<and>
    sdk_free_vram (Some c) h m = m \<and> sdk_set_zero_copy_bypass (Some c) b m = Inr m"
proof -
  have "\<not> cx_shm c"
  proof
    assume "cx_shm c"
    with assms obtain env ty cost m cl where s: "sdk_connect False env ty cost m = Inr (Some c, cl)" by blast
    then have "c = new_ctx ty cost" by (cases "alloc_ok env") (simp_all add: sdk_connect_def)
    with \<open>cx_shm c\<close> show False by (simp add: new_ctx_def)
  qed
  then show ?thesis
    by (simp add: sdk_dispatch_def sdk_read_output_def sdk_get_latency_samples_def sdk_get_stats_def sdk_set_param_def
        sdk_fetch_log_def sdk_allocate_vram_def sdk_upload_buffer_def sdk_free_vram_def sdk_set_zero_copy_bypass_def)
qed

theorem fallback_is_inert_witness:
  "sdk_get_stats (Some (new_ctx DSP_ACCEL_TYPE_REMOTE f32_zero)) shm_zero = Inl Null_Deref"
  using fallback_is_inert [of "new_ctx DSP_ACCEL_TYPE_REMOTE f32_zero"] by (simp add: new_ctx_def)

section \<open>Device memory\<close>

lemma poll_quiet:
  assumes "ring_of (\<lambda>r. True) 32 (memory_response_bus m)" "length (items (memory_response_bus m)) \<le> k"
  shows "\<exists>q. poll_response k accept (\<lambda>i m. m) m =
      (case dropWhile (\<lambda>r. \<not> accept r) (items (memory_response_bus m)) of
         [] \<Rightarrow> (None, m\<lparr>memory_response_bus := q\<rparr>)
       | r # rest \<Rightarrow> (Some r, m\<lparr>memory_response_bus := q\<rparr>)) \<and>
    ring_of (\<lambda>r. True) 32 q \<and> items q = tl (dropWhile (\<lambda>r. \<not> accept r) (items (memory_response_bus m)))"
  using assms
proof (induction k arbitrary: m)
  case 0
  then have "items (memory_response_bus m) = []" by (simp del: length_items)
  with 0 show ?case by (intro exI [of _ "memory_response_bus m"]) simp
next
  case (Suc k)
  let ?b = "memory_response_bus m"
  from ring_ofD(1) [OF Suc.prems(1)] show ?case
  proof (cases rule: pop_cases)
    case none
    have "\<exists>q. poll_response k accept (\<lambda>i m. m) m = (None, m\<lparr>memory_response_bus := q\<rparr>) \<and>
      ring_of (\<lambda>r. True) 32 q \<and> items q = []"
      using Suc.IH [OF Suc.prems(1)] none(1) by simp
    with none show ?thesis by (simp add: Let_def)
  next
    case (popped y q')
    have r: "ring_of (\<lambda>r. True) 32 q'" using ring_of_pop [OF Suc.prems(1) popped(2)] .
    let ?m = "m\<lparr>memory_response_bus := q'\<rparr>"
    show ?thesis
    proof (cases "accept y")
      case True
      with popped r show ?thesis by (intro exI [of _ q']) (simp add: Let_def)
    next
      case False
      have "length (items (memory_response_bus ?m)) \<le> k" using Suc.prems(2) popped(1) by (simp del: length_items)
      moreover have "ring_of (\<lambda>r. True) 32 (memory_response_bus ?m)" using r by simp
      ultimately obtain q where q: "poll_response k accept (\<lambda>i m. m) ?m =
          (case dropWhile (\<lambda>r. \<not> accept r) (items q') of
             [] \<Rightarrow> (None, ?m\<lparr>memory_response_bus := q\<rparr>)
           | r # rest \<Rightarrow> (Some r, ?m\<lparr>memory_response_bus := q\<rparr>))"
        "ring_of (\<lambda>r. True) 32 q" "items q = tl (dropWhile (\<lambda>r. \<not> accept r) (items q'))"
        using Suc.IH [of ?m] by auto
      then show ?thesis using popped False by (intro exI [of _ q]) (cases "dropWhile (\<lambda>r. \<not> accept r) (items q')", simp_all add: Let_def del: dropWhile_eq_Nil_conv)
    qed
  qed
qed

text \<open>
  An allocation takes its own answer and throws away what is in front of it: with room on the request
  bus it queues exactly one \<open>ALLOCATE\<close> request of the given size, then drops every queued response
  that is not a success for its request, among them answers to other requests and the failure of its
  own, and returns the handle of the first one that is, or 0 when there is none.
\<close>

theorem allocate_vram_takes_own_response:
  assumes "ctx_ok c m" "length (items (memory_request_bus m)) < 31"
  shows "\<exists>m'. sdk_allocate_vram req_id (\<lambda>i m. m) (Some c) sz m =
      (case dropWhile (\<lambda>r. \<not> (resp_request_id r = req_id \<and> success r)) (items (memory_response_bus m)) of
         [] \<Rightarrow> 0 | r # rest \<Rightarrow> resp_handle r, m') \<and>
    items (memory_response_bus m') =
      tl (dropWhile (\<lambda>r. \<not> (resp_request_id r = req_id \<and> success r)) (items (memory_response_bus m))) \<and>
    items (memory_request_bus m') = items (memory_request_bus m) @
      [\<lparr>request_id = req_id, req_type = ALLOCATE, req_size = sz, req_handle = 0, shm_offset = 0\<rparr>] \<and> shm_wf m'"
proof -
  let ?r = "\<lparr>request_id = req_id, req_type = ALLOCATE, req_size = sz, req_handle = 0, shm_offset = 0\<rparr>"
  define rest where "rest = dropWhile (\<lambda>r. \<not> (resp_request_id r = req_id \<and> success r)) (items (memory_response_bus m))"
  have wf: "shm_wf m" "cx_shm c" "ring_of (\<lambda>r. True) 32 (memory_request_bus m)" "ring_of (\<lambda>r. True) 32 (memory_response_bus m)"
    using assms(1) by (simp_all add: ctx_ok_def shm_wf_def)
  have "length (items (memory_request_bus m)) \<noteq> ring_room (memory_request_bus m)" using assms(2) ring_ofD(3) [OF wf(3)] by simp
  with push_cases [OF ring_ofD(1) [OF wf(3)], of ?r] obtain q where
    p: "push (memory_request_bus m) ?r = (True, q)" "items q = items (memory_request_bus m) @ [?r]" by metis
  have q: "ring_of (\<lambda>r. True) 32 q" using ring_of_push [OF wf(3) TrueI p(1)] .
  let ?m = "m\<lparr>memory_request_bus := q\<rparr>"
  have "ring_of (\<lambda>r. True) 32 (memory_response_bus ?m)" using wf(4) by simp
  moreover have "length (items (memory_response_bus ?m)) \<le> 500"
    using ring_count_lt [OF ring_ofD(1) [OF wf(4)]] ring_ofD(2) [OF wf(4)] by simp
  ultimately obtain b where b: "poll_response 500 (\<lambda>r. resp_request_id r = req_id \<and> success r) (\<lambda>i m. m) ?m =
      (case rest of [] \<Rightarrow> (None, ?m\<lparr>memory_response_bus := b\<rparr>) | r # rest \<Rightarrow> (Some r, ?m\<lparr>memory_response_bus := b\<rparr>))"
    "ring_of (\<lambda>r. True) 32 b" "items b = tl rest"
    using poll_quiet [of ?m 500 "\<lambda>r. resp_request_id r = req_id \<and> success r"] by (auto simp: rest_def)
  have "sdk_allocate_vram req_id (\<lambda>i m. m) (Some c) sz m =
      (case rest of [] \<Rightarrow> 0 | r # rest \<Rightarrow> resp_handle r, ?m\<lparr>memory_response_bus := b\<rparr>)"
    using wf(2) p(1) b(1) by (cases rest) (simp_all add: sdk_allocate_vram_def)
  moreover have "shm_wf (?m\<lparr>memory_response_bus := b\<rparr>)" using wf(1) q b(2) by (simp add: shm_wf_def)
  ultimately show ?thesis
    unfolding rest_def [symmetric] using b(3) p(2) by (intro exI [of _ "?m\<lparr>memory_response_bus := b\<rparr>"]) simp
qed

theorem allocate_vram_takes_own_response_witness:
  "\<exists>m'. sdk_allocate_vram 7 (\<lambda>i m. m) (Some demo_ctx) 1024 shm_zero = (0, m') \<and>
     map request_id (items (memory_request_bus m')) = [7]"
  using allocate_vram_takes_own_response [OF demo_ctx_ok(1), of 7 1024] by auto

end
