(* ===== verification/System.thy ===== *)
theory System
  imports Worker_Spec Sdk_Spec
begin

text \<open>
  The plugin library and the worker together, over the same shared memory: what a call of the
  library on one side becomes after an iteration of the worker on the other.
\<close>

section \<open>An iteration with nothing on the control bus\<close>

context dsp_node
begin

lemma quiet_head:
  assumes w: "worker_ok node_ok w" and c: "items (control_bus (shm w)) = []"
  shows "\<exists>q. items q = [] \<and> worker_ok node_ok (after_head w (bypassed ops w) q) \<and> worker_iteration ops front env w =
    (if poll_ready env \<and> \<not> read_ok env then Inr (after_head w (bypassed ops w) q)
     else case (if poll_ready env then process_frame ops env (after_head w (bypassed ops w) q)
                else Inr (after_head w (bypassed ops w) q)) of
         Inl e \<Rightarrow> Inl e
       | Inr w3 \<Rightarrow> serve_memory_bus ops front w3)"
  using iteration_head [OF w, of ops "bypassed ops w" front env] after_head_ok [OF w bypass_ok [OF worker_okD(9) [OF w]]] c
  by auto

text \<open>
  A wake-up with a block waiting and room for its result: what the graph makes of it is delivered, and
  what the iteration does to the rest of the worker.
\<close>

lemma iteration_wakeup:
  assumes w: "worker_ok node_ok w" and c: "items (control_bus (shm w)) = []" and r: "items (memory_request_bus (shm w)) = []"
    and e: "env_ok env" "poll_ready env" "read_ok env"
    and q: "items (in_queue (shm w)) = f # fs" "frame_count f \<noteq> 0"
    and nz: "list_all (\<lambda>f. frame_count f \<noteq> 0) fs"
    and o: "length (items (out_queue (shm w))) < ring_room (out_queue (shm w))"
  shows "\<exists>split addr ok g f' st w' d. run_graph ops split (graph w)
      ((nodes w)(primary_node w := bypassed ops w)) f addr = Inr (ok, g, f', st) \<and>
    worker_iteration ops front env w = Inr w' \<and> delivers f' d \<and> items (out_queue (shm w')) = items (out_queue (shm w)) @ [d] \<and>
    items (in_queue (shm w')) = fs \<and> worker_ok node_ok w' \<and>
    items (control_bus (shm w')) = [] \<and> items (memory_request_bus (shm w')) = [] \<and>
    graph w' = g \<and> nodes w' = st \<and> worker_id w' = worker_id w \<and> primary_node w' = primary_node w \<and>
    signals w' = signals w + (if retry_write (write_interrupts env) (write_ok env) then 1 else 0) \<and>
    heartbeat (my_block w') = heartbeat (my_block w) + 1 \<and> bypass_zero_copy (my_block w') = bypass_zero_copy (my_block w) \<and>
    last_error (my_block w') = (if ok then last_error (my_block w) else DEVICE_LOST)"
proof -
  from quiet_head [OF w c, of front env] e(2,3) obtain cq where
    w2: "items cq = []" "worker_ok node_ok (after_head w (bypassed ops w) cq)"
    and it: "worker_iteration ops front env w =
      (case process_frame ops env (after_head w (bypassed ops w) cq) of Inl e \<Rightarrow> Inl e | Inr w3 \<Rightarrow> serve_memory_bus ops front w3)"
    by auto
  define w2 where "w2 = after_head w (bypassed ops w) cq"
  note w2 = w2(1) w2(2) [folded w2_def] and it = it [folded w2_def]
  have same: "in_queue (shm w2) = in_queue (shm w)" "out_queue (shm w2) = out_queue (shm w)" "graph w2 = graph w"
    "memory_request_bus (shm w2) = memory_request_bus (shm w)" "primary_node w2 = primary_node w" "worker_id w2 = worker_id w"
    "signals w2 = signals w" "control_bus (shm w2) = cq" "nodes w2 = (nodes w)(primary_node w := bypassed ops w)"
    "my_block w2 = (my_block w)\<lparr>heartbeat := heartbeat (my_block w) + 1\<rparr>"
    using after_head_block [OF w] by (simp_all add: w2_def)
  have i: "nat (worker_id w2) < length (workers (shm w2))" using worker_okD(2,3) [OF w2(2)] by linarith
  have q2: "items (in_queue (shm w2)) = f # fs" using q(1) same by simp
  from process_frame_ok [OF w2(2) e(1) q2 q(2)] obtain ok g f' st oq l addr iq where
    rg: "run_graph ops (wants_split (shm w2) (my_block w2) f) (graph w2) (nodes w2) f addr = Inr (ok, g, f', st)"
    and pf: "process_frame ops env w2 = Inr (w2\<lparr>graph := g, nodes := st,
      shm := (set_my_block (\<lambda>b. b\<lparr>load_pct := clamp_load l, last_error := (if ok then last_error b else DEVICE_LOST)\<rparr>) w2)
        \<lparr>in_queue := iq, out_queue := oq\<rparr>,
      signals := signals w2 + (if retry_write (write_interrupts env) (write_ok env) then 1 else 0)\<rparr>)" (is "_ = Inr ?w3")
    and wo: "write_output f' (out_queue (shm w2)) = Inr oq" "frame_bounded f'" "items iq = fs" by blast
  from write_output_spec [OF worker_okD(5) [OF w2(2)] wo(2)] wo(1) o same obtain d where
    d: "items oq = items (out_queue (shm w)) @ [d]" "delivers f' d" by auto
  have "\<not> empty_block_next w2" using q2 q(2) by (simp add: empty_block_next_def)
  from audio_step_ok [OF w2(2) e(1) this] pf have w3: "worker_ok node_ok ?w3" by auto
  have b3: "my_block ?w3 = (my_block w2)\<lparr>load_pct := clamp_load l, last_error := (if ok then last_error (my_block w2) else DEVICE_LOST)\<rparr>"
    using i by (simp add: my_block_def set_my_block_def)
  have "items (memory_request_bus (shm ?w3)) = []" using same r by (simp add: set_my_block_def)
  from serve_idle [OF w3 this, of ops front] obtain mq where
    sv: "serve_memory_bus ops front ?w3 = Inr (?w3\<lparr>shm := (shm ?w3)\<lparr>memory_request_bus := mq\<rparr>\<rparr>)" (is "_ = Inr ?w4")
    and mq: "items mq = []" "ring_of (\<lambda>r. True) 32 mq" by blast
  have "worker_ok node_ok ?w4" using w3 mq(2) by (simp add: worker_ok_def shm_wf_def)
  moreover have "worker_iteration ops front env w = Inr ?w4" unfolding it pf sum.case by (rule sv)
  moreover have "my_block ?w4 = my_block ?w3" by (simp add: my_block_def)
  moreover note rg [unfolded same(3,9)] d wo(3) b3 same w2(1) mq(1)
  ultimately show ?thesis
    by (intro exI [of _ "wants_split (shm w2) (my_block w2) f"] exI [of _ addr] exI [of _ ok] exI [of _ g] exI [of _ f']
        exI [of _ st] exI [of _ ?w4] exI [of _ d] conjI) (simp_all add: set_my_block_def)
qed

text \<open>Without a signal nothing of the audio path changes; the heartbeat goes on.\<close>

lemma iteration_quiet:
  assumes w: "worker_ok node_ok w" and c: "items (control_bus (shm w)) = []" and r: "items (memory_request_bus (shm w)) = []"
    and e: "\<not> poll_ready env"
  shows "\<exists>w'. worker_iteration ops front env w = Inr w' \<and> worker_ok node_ok w' \<and>
    in_queue (shm w') = in_queue (shm w) \<and> out_queue (shm w') = out_queue (shm w) \<and>
    items (control_bus (shm w')) = [] \<and> items (memory_request_bus (shm w')) = [] \<and> worker_id w' = worker_id w \<and>
    signals w' = signals w \<and> my_block w' = (my_block w)\<lparr>heartbeat := heartbeat (my_block w) + 1\<rparr>"
proof -
  from quiet_head [OF w c, of front env] e obtain cq where
    q: "items cq = []" and w2: "worker_ok node_ok (after_head w (bypassed ops w) cq)"
    and it: "worker_iteration ops front env w = serve_memory_bus ops front (after_head w (bypassed ops w) cq)" by auto
  let ?w2 = "after_head w (bypassed ops w) cq"
  have "items (memory_request_bus (shm ?w2)) = []" using r by simp
  from serve_idle [OF w2 this, of ops front] obtain mq where
    mq: "serve_memory_bus ops front ?w2 = Inr (?w2\<lparr>shm := (shm ?w2)\<lparr>memory_request_bus := mq\<rparr>\<rparr>)" (is "_ = Inr ?w3")
      "items mq = []" "ring_of (\<lambda>r. True) 32 mq" by blast
  have "worker_ok node_ok ?w3" using w2 mq(3) by (simp add: worker_ok_def shm_wf_def)
  moreover have "my_block ?w3 = (my_block w)\<lparr>heartbeat := heartbeat (my_block w) + 1\<rparr>"
    using after_head_block [OF w, of "bypassed ops w" cq] by (simp add: my_block_def)
  ultimately show ?thesis using it mq(1,2) q by (intro exI [of _ ?w3]) simp
qed

end

lemmas quiet_iteration = real_worker.either.iteration_quiet [folded worker_ops_def]
lemmas wakeup_iteration = real_worker.either.iteration_wakeup [folded worker_ops_def]

section \<open>A block through the accelerator and back\<close>

text \<open>The buffers of a caller after the samples of other buffers have been copied over.\<close>

definition echoed :: "nat \<Rightarrow> nat \<Rightarrow> f32 list list \<Rightarrow> f32 list list \<Rightarrow> f32 list list" where
  "echoed n k buffers out = map (\<lambda>ch. if ch < k then take n (buffers ! ch) @ drop n (out ! ch) else out ! ch) [0..<length out]"

text \<open>Nothing is queued in either direction.\<close>

definition idle :: "dsp_shared_memory \<Rightarrow> bool" where
  "idle m \<longleftrightarrow> items (in_queue m) = [] \<and> items (out_queue m) = [] \<and> items (control_bus m) = [] \<and>
     items (memory_request_bus m) = [] \<and> items (memory_response_bus m) = []"

text \<open>
  The worker as \<open>worker_start\<close> leaves it, with a device of either kind and without the zero-copy mode, and
  whether the device takes every submission.
\<close>

definition plain_node :: "dsp_vulkan_context vulkan_backend + npu_backend \<Rightarrow> bool" where
  "plain_node n = (case n of Inl v \<Rightarrow> vk_ctx v \<noteq> None | Inr v \<Rightarrow> True)"

definition passes_audio :: "(dsp_vulkan_context vulkan_backend + npu_backend) worker \<Rightarrow> bool" where
  "passes_audio w \<longleftrightarrow> execution_order (graph w) = [0] \<and> primary_node w = 0 \<and> \<not> bypass_zero_copy (my_block w) \<and> plain_node (nodes w 0)"

definition submits :: "vk_api \<Rightarrow> 'a + 'b \<Rightarrow> bool" where
  "submits api n = (case n of Inl v \<Rightarrow> \<forall>i. vk_queue_submit api i | Inr v \<Rightarrow> True)"

lemma in_queue_update_eq:
  assumes "m'\<lparr>in_queue := in_queue m\<rparr> = m"
  shows "m' = m\<lparr>in_queue := in_queue m'\<rparr>"
proof -
  have "m\<lparr>in_queue := in_queue m'\<rparr> = (m'\<lparr>in_queue := in_queue m\<rparr>)\<lparr>in_queue := in_queue m'\<rparr>"
    unfolding assms by (rule refl)
  then show ?thesis by simp
qed

lemma read_context:
  assumes "sdk_read_output linux env (Some c) buffers frames channels m = Inr (ok, bufs, Some c', m')"
  shows "cx_shm c' = cx_shm c" "cx_worker_id c' = cx_worker_id c" "last_worker_heartbeat c' = last_worker_heartbeat c"
    "heartbeat_stalled_count c' = heartbeat_stalled_count c"
  using assms
  by (auto simp: sdk_read_output_def measure_roundtrip_def Let_def split: option.splits sum.splits if_splits)

lemma clamp_frames_of_nat: "n \<le> 256 \<Longrightarrow> clamp_frames (int n) = n"
  by (simp add: clamp_frames_def)

lemma read_something:
  assumes "ctx_ok c m" "0 < poll_result env" "items (out_queue m) = f # fs" "frame_bounded f"
    and "call_ok buffers (int (unat (frame_count f))) channels" "channels < 2 ^ 31"
  shows "\<exists>c' q. sdk_read_output True env (Some c) buffers frames channels m =
      Inr (True, received f (min (unat (channel_count f)) (nat channels)) buffers, Some c', m\<lparr>out_queue := q\<rparr>) \<and>
    items q = fs \<and> ctx_ok c' (m\<lparr>out_queue := q\<rparr>)"
proof -
  let ?k = "min (unat (channel_count f)) (nat channels)"
  have fb: "unat (frame_count f) \<le> 256" "unat (channel_count f) \<le> 8"
    using assms(4) by (simp_all add: frame_bounded_def MAX_FRAMES_def MAX_CHANNELS_def)
  have ch: "0 \<le> channels" "?k \<le> clamp_channels channels" using assms(5) fb(2) by (auto simp: call_ok_def clamp_channels_def)
  then have k: "?k \<le> length buffers" using assms(5) by (simp add: call_ok_def)
  have "\<forall>ch < clamp_channels channels. unat (frame_count f) \<le> length (buffers ! ch)"
    using assms(5) clamp_frames_of_nat [OF fb(1)] by (simp add: call_ok_def list_all_length)
  then have len: "\<forall>ch < ?k. unat (frame_count f) \<le> length (buffers ! ch)" using ch(2) less_le_trans by blast
  from read_step [OF assms(1-4) ch(1) assms(6) refl k, of frames] len obtain c' q where
    r: "sdk_read_output True env (Some c) buffers frames channels m = Inr (True, received f ?k buffers, Some c', m\<lparr>out_queue := q\<rparr>)"
      "items q = fs" "shm_wf (m\<lparr>out_queue := q\<rparr>)" by auto
  with read_context(1,2) [OF r(1)] assms(1) show ?thesis by (auto simp: ctx_ok_def)
qed

lemma block_of_nonempty: "block_of now buffers frames channels f \<Longrightarrow> 0 < frames \<Longrightarrow> frame_count f \<noteq> 0"
  by (auto simp: block_of_def clamp_frames_def)

text \<open>A queued block holds a caller's samples.\<close>

definition holds :: "nat \<Rightarrow> nat \<Rightarrow> f32 list list \<Rightarrow> dsp_audio_frame \<Rightarrow> bool" where
  "holds n k buffers f \<longleftrightarrow> frame_bounded f \<and> unat (frame_count f) = n \<and> unat (channel_count f) = k \<and>
     (\<forall>ch < k. channel_block (samples f) ch n = take n (buffers ! ch))"

lemma block_of_holds: "block_of now buffers frames channels f \<Longrightarrow> holds (clamp_frames frames) (clamp_channels channels) buffers f"
  by (simp add: block_of_def holds_def)

lemma holds_delivers: "holds n k buffers f \<Longrightarrow> delivers f d \<Longrightarrow> holds n k buffers d"
  by (simp add: holds_def delivers_def)

lemma holds_received: "holds n k buffers f \<Longrightarrow> received f k out = echoed n k buffers out"
  by (simp add: holds_def received_def echoed_def Let_def)

lemma read_holds:
  assumes "ctx_ok c m" "0 < poll_result env" "items (out_queue m) = f # fs"
    and "holds (clamp_frames frames) (clamp_channels channels) buffers f" "call_ok out frames channels" "channels < 2 ^ 31"
  shows "\<exists>c' q. sdk_read_output True env (Some c) out frames channels m =
      Inr (True, echoed (clamp_frames frames) (clamp_channels channels) buffers out, Some c', m\<lparr>out_queue := q\<rparr>) \<and>
    items q = fs \<and> ctx_ok c' (m\<lparr>out_queue := q\<rparr>)"
proof -
  let ?n = "clamp_frames frames" and ?k = "clamp_channels channels"
  have f: "frame_bounded f" "unat (frame_count f) = ?n" "unat (channel_count f) = ?k" using assms(4) by (simp_all add: holds_def)
  have "?n \<le> 256" by (simp add: clamp_frames_def)
  then have call: "call_ok out (int (unat (frame_count f))) channels"
    using assms(5) unfolding f(2) by (simp add: call_ok_def clamp_frames_of_nat)
  have k: "min ?k (nat channels) = ?k" by (simp add: clamp_channels_def)
  from read_something [OF assms(1-3) f(1) call assms(6), of frames] show ?thesis
    unfolding f(3) k holds_received [OF assms(4)] .
qed

text \<open>
  A stage of such a node leaves the samples as they are: the processor array does nothing yet, and the
  driver never reads or writes the samples it is given.
\<close>

lemma plain_bypassed:
  "passes_audio w \<Longrightarrow> plain_node (bypassed (real_ops api) w) \<and> submits api (bypassed (real_ops api) w) = submits api (nodes w 0) \<and>
     (case bypassed (real_ops api) w of Inl v \<Rightarrow> shm_buffer_handle v = 0 | Inr v \<Rightarrow> True)"
  by (auto simp: passes_audio_def plain_node_def submits_def worker_ops_def sum_ops_def vulkan_ops_def vb_set_zero_copy_bypass_def
      split: sum.splits)

lemma plain_stage:
  assumes "plain_node n" "case n of Inl v \<Rightarrow> shm_buffer_handle v = 0 | Inr v \<Rightarrow> True"
    and "process_stage (real_ops api) n f addr = Inr (ok, f', n')"
  shows "f' = f \<and> plain_node n' \<and> submits api n' = submits api n \<and> (submits api n \<longrightarrow> ok)"
proof (cases n)
  case (Inl v)
  obtain h v1 where s: "state_buffer (real_driver api) (instance_id f) v = (h, v1)" by fastforce
  have a: "dsp_vulkan_allocate_buffer api (Some c) sz = (h, x) \<Longrightarrow> \<exists>c'. x = Some c'" for c sz h x
    by (auto simp: dsp_vulkan_allocate_buffer_def Let_def split: option.splits prod.splits if_splits)
  have "\<exists>c. vk_ctx v1 = Some c" "shm_buffer_handle v1 = 0"
    using s assms(1,2) Inl by (auto simp: state_buffer_def plain_node_def real_driver_def split: option.splits prod.splits dest: a)
  then obtain c where c: "vk_ctx v1 = Some c" "shm_buffer_handle v1 = 0" by blast
  show ?thesis
    using assms Inl s c
    by (auto simp: worker_ops_def sum_ops_def vulkan_ops_def vb_process_stage_def real_driver_def dsp_vulkan_dispatch_def plain_node_def
        submits_def Let_def split: if_splits)
next
  case (Inr v)
  with assms show ?thesis by (auto simp: worker_ops_def sum_ops_def npu_ops_def plain_node_def submits_def)
qed

lemma plain_graph_runs:
  assumes "run_graph (real_ops api) split g st f addr = Inr (ok, g', f', st')" "execution_order g = [0]" "plain_node (st 0)"
    and "case st 0 of Inl v \<Rightarrow> shm_buffer_handle v = 0 | Inr v \<Rightarrow> True"
  shows "f' = f \<and> execution_order g' = [0] \<and> plain_node (st' 0) \<and> submits api (st' 0) = submits api (st 0) \<and> (submits api (st 0) \<longrightarrow> ok)"
proof -
  have d: "supports_staging (get_descriptor (real_ops api) n)" for n
    by (cases n) (simp_all add: worker_ops_def sum_ops_def vulkan_ops_def npu_ops_def vb_descriptor_def npu_descriptor_def)
  from assms(1,2) obtain b n' where p: "process_stage (real_ops api) (st 0) f addr = Inr (b, f', n')" "st' = st(0 := n')" "ok = b"
    "execution_order g' = execution_order g"
    by (auto simp: run_graph_def process_graph_def process_graph_parallel_def graph_result_def d split: sum.splits if_splits)
  from plain_stage [OF assms(3,4) p(1)] p(2-4) assms(2) show ?thesis by simp
qed

text \<open>A wake-up of such a worker delivers the block as it is.\<close>

lemma plain_wakeup:
  assumes w: "worker_ok real_node_ok w" "passes_audio w" "items (control_bus (shm w)) = []" "items (memory_request_bus (shm w)) = []"
    and e: "env_ok env" "poll_ready env" "read_ok env"
    and q: "items (in_queue (shm w)) = f # fs" "frame_count f \<noteq> 0" "list_all (\<lambda>f. frame_count f \<noteq> 0) fs"
    and o: "length (items (out_queue (shm w))) < ring_room (out_queue (shm w))"
  shows "\<exists>w' d. worker_iteration (real_ops api) front env w = Inr w' \<and> delivers f d \<and> worker_ok real_node_ok w' \<and>
    items (out_queue (shm w')) = items (out_queue (shm w)) @ [d] \<and> items (in_queue (shm w')) = fs \<and>
    items (control_bus (shm w')) = [] \<and> items (memory_request_bus (shm w')) = [] \<and>
    passes_audio w' \<and> submits api (nodes w' 0) = submits api (nodes w 0) \<and> worker_id w' = worker_id w \<and>
    signals w' = signals w + (if retry_write (write_interrupts env) (write_ok env) then 1 else 0) \<and>
    heartbeat (my_block w') = heartbeat (my_block w) + 1 \<and>
    (submits api (nodes w 0) \<longrightarrow> last_error (my_block w') = last_error (my_block w))"
proof -
  have g: "execution_order (graph w) = [0]" "primary_node w = 0" "\<not> bypass_zero_copy (my_block w)"
    using w(2) by (simp_all add: passes_audio_def)
  from wakeup_iteration [OF w(1,3,4) e q o, of api front] obtain split addr ok g f' st w' d where
    r: "run_graph (real_ops api) split (graph w) ((nodes w)(primary_node w := bypassed (real_ops api) w)) f addr = Inr (ok, g, f', st)"
    and w': "worker_iteration (real_ops api) front env w = Inr w'" "delivers f' d"
      "items (out_queue (shm w')) = items (out_queue (shm w)) @ [d]" "items (in_queue (shm w')) = fs" "worker_ok real_node_ok w'"
      "items (control_bus (shm w')) = []" "items (memory_request_bus (shm w')) = []" "graph w' = g" "nodes w' = st"
      "worker_id w' = worker_id w" "primary_node w' = primary_node w"
      "signals w' = signals w + (if retry_write (write_interrupts env) (write_ok env) then 1 else 0)"
      "heartbeat (my_block w') = heartbeat (my_block w) + 1" "bypass_zero_copy (my_block w') = bypass_zero_copy (my_block w)"
      "last_error (my_block w') = (if ok then last_error (my_block w) else DEVICE_LOST)" by blast
  note b = plain_bypassed [OF w(2), of api]
  from plain_graph_runs [OF r g(1)] b g(2)
  have "f' = f \<and> execution_order g = [0] \<and> plain_node (st 0) \<and> submits api (st 0) = submits api (nodes w 0) \<and> (submits api (nodes w 0) \<longrightarrow> ok)"
    by simp
  with w' g show ?thesis by (intro exI [of _ w'] exI [of _ d]) (simp add: passes_audio_def)
qed

text \<open>A block that is dispatched with idle queues has been processed after one iteration of a worker.\<close>

lemma audio_exchange:
  assumes w: "worker_ok real_node_ok w" "passes_audio w" "idle (shm w)"
    and c: "ctx_ok c (shm w)" "last_error (ctx_block c (shm w)) = NO_ERROR"
      "\<not> 10 < heartbeat_stalled_count (watchdog (heartbeat (ctx_block c (shm w))) c)"
    and call: "call_ok buffers frames channels" "0 < frames"
    and env: "signal_ok denv" "env_ok env" "poll_ready env" "read_ok env"
  shows "\<exists>c1 m1 w' g. sdk_dispatch True denv (Some c) buffers frames channels (shm w) = Inr (True, Some c1, m1, 1) \<and>
    worker_iteration (real_ops api) front env (w\<lparr>shm := m1\<rparr>) = Inr w' \<and> ctx_ok c1 (shm w') \<and>
    items (in_queue (shm w')) = [] \<and> items (out_queue (shm w')) = [g] \<and>
    holds (clamp_frames frames) (clamp_channels channels) buffers g"
proof -
  have i: "items (in_queue (shm w)) = []" "items (out_queue (shm w)) = []" "items (control_bus (shm w)) = []"
    "items (memory_request_bus (shm w)) = []" using w(3) by (simp_all add: idle_def)
  from dispatch_step [OF c(1,2) call(1) c(3), of denv] i(1) env(1) obtain c1 m1 f where
    d: "sdk_dispatch True denv (Some c) buffers frames channels (shm w) = Inr (True, Some c1, m1, 1)" "shm_wf m1"
      "m1\<lparr>in_queue := in_queue (shm w)\<rparr> = shm w" "items (in_queue m1) = [f]" "block_of (now_ns denv) buffers frames channels f"
    by auto
  note m1 = in_queue_update_eq [OF d(3)] and h = block_of_holds [OF d(5)]
  have same: "out_queue m1 = out_queue (shm w)" "control_bus m1 = control_bus (shm w)" "memory_request_bus m1 = memory_request_bus (shm w)"
    "workers m1 = workers (shm w)" by (subst m1, simp)+
  have w1: "worker_ok real_node_ok (w\<lparr>shm := m1\<rparr>)" "passes_audio (w\<lparr>shm := m1\<rparr>)"
    using w(1,2) d(2,4) h same(1,4) by (simp_all add: worker_ok_def queue_bounded_def holds_def passes_audio_def plain_node_def my_block_def)
  have room: "length (items (out_queue m1)) < ring_room (out_queue m1)"
    using i(2) same(1) ring_ofD(3) [OF worker_okD(5) [OF w(1)]] by (simp add: IPC_QUEUE_DEPTH_def)
  from plain_wakeup [OF w1 _ _ env(2-4) _ block_of_nonempty [OF d(5) call(2)], of "[]" api front] room i same d(4) obtain w' g where
    r: "worker_iteration (real_ops api) front env (w\<lparr>shm := m1\<rparr>) = Inr w'" "delivers f g" "worker_ok real_node_ok w'"
      "items (out_queue (shm w')) = [g]" "items (in_queue (shm w')) = []" by auto
  have "ctx_ok c1 (shm w')"
    using dispatch_context [OF d(1) c(1,2)] c(1) worker_okD(1) [OF r(3)] by (simp add: ctx_ok_def)
  with d(1) r holds_delivers [OF h r(2)] show ?thesis by blast
qed

text \<open>
  Audio through a worker comes back unchanged, in one exchange: with idle queues, a
  dispatch, one iteration of the worker and a read-back all succeed, every channel of the caller's
  output buffers has the first \<open>min frames 256\<close> samples of its input channel followed by what it had,
  channels from 8 on are left alone, and both queues are empty again.
\<close>

theorem audio_roundtrip:
  assumes w: "worker_ok real_node_ok w" "passes_audio w" "idle (shm w)"
    and c: "ctx_ok c (shm w)" "last_error (ctx_block c (shm w)) = NO_ERROR"
      "\<not> 10 < heartbeat_stalled_count (watchdog (heartbeat (ctx_block c (shm w))) c)"
    and call: "call_ok buffers frames channels" "0 < frames" "channels < 2 ^ 31" "call_ok out frames channels"
    and env: "signal_ok denv" "env_ok env" "poll_ready env" "read_ok env" "0 < poll_result renv"
  shows "\<exists>c1 m1 w' c2 m2. sdk_dispatch True denv (Some c) buffers frames channels (shm w) = Inr (True, Some c1, m1, 1) \<and>
    worker_iteration (real_ops api) front env (w\<lparr>shm := m1\<rparr>) = Inr w' \<and>
    sdk_read_output True renv (Some c1) out frames channels (shm w') =
      Inr (True, echoed (clamp_frames frames) (clamp_channels channels) buffers out, Some c2, m2) \<and>
    items (in_queue m2) = [] \<and> items (out_queue m2) = []"
proof -
  from audio_exchange [OF w c call(1,2) env(1-4), of api front] obtain c1 m1 w' g where
    e: "sdk_dispatch True denv (Some c) buffers frames channels (shm w) = Inr (True, Some c1, m1, 1)"
      "worker_iteration (real_ops api) front env (w\<lparr>shm := m1\<rparr>) = Inr w'" "ctx_ok c1 (shm w')"
      "items (in_queue (shm w')) = []" "items (out_queue (shm w')) = [g]"
      "holds (clamp_frames frames) (clamp_channels channels) buffers g" by blast
  from read_holds [OF e(3) env(5) e(5,6) call(4,3)] obtain c2 oq where
    "sdk_read_output True renv (Some c1) out frames channels (shm w') =
       Inr (True, echoed (clamp_frames frames) (clamp_channels channels) buffers out, Some c2, (shm w')\<lparr>out_queue := oq\<rparr>)"
    "items oq = []" by blast
  with e(1,2,4) show ?thesis
    by (intro exI [of _ c1] exI [of _ m1] exI [of _ w'] exI [of _ c2] exI [of _ "(shm w')\<lparr>out_queue := oq\<rparr>"]) simp
qed

definition idle_worker :: "(dsp_vulkan_context vulkan_backend + npu_backend) worker" where
  "idle_worker = demo_worker\<lparr>shm := shm_zero\<rparr>"

lemma idle_worker_facts:
  "worker_ok real_node_ok idle_worker" "passes_audio idle_worker" "idle (shm idle_worker)" "shm idle_worker = shm_zero"
  by (simp_all add: worker_ok_def idle_worker_def demo_worker_def queue_bounded_def add_node_to_sequence_def empty_graph_def
      passes_audio_def plain_node_def my_block_def wcb_zero_def idle_def)

theorem audio_roundtrip_witness:
  "\<exists>c1 m1 w' c2 m2. sdk_dispatch True demo_dispatch (Some demo_ctx) demo_buffers 64 2 shm_zero = Inr (True, Some c1, m1, 1) \<and>
     worker_iteration (real_ops demo_api) [] demo_env (idle_worker\<lparr>shm := m1\<rparr>) = Inr w' \<and>
     sdk_read_output True demo_readback (Some c1) [replicate 64 f32_zero, replicate 64 f32_zero] 64 2 (shm w') =
       Inr (True, [replicate 64 (flit binary32 1), replicate 64 f32_zero], Some c2, m2)"
proof -
  have h: "last_error (ctx_block demo_ctx (shm idle_worker)) = NO_ERROR"
    "\<not> 10 < heartbeat_stalled_count (watchdog (heartbeat (ctx_block demo_ctx (shm idle_worker))) demo_ctx)"
    unfolding idle_worker_facts(4) demo_ctx_ok(2) by (simp_all add: wcb_zero_def watchdog_def demo_ctx_def new_ctx_def)
  have c: "ctx_ok demo_ctx (shm idle_worker)" using demo_ctx_ok(1) by (simp add: idle_worker_facts(4))
  have o: "call_ok [replicate 64 f32_zero, replicate 64 f32_zero] 64 2"
    by (simp add: call_ok_def clamp_frames_def clamp_channels_def)
  have e: "signal_ok demo_dispatch" "poll_ready demo_env" "read_ok demo_env" "0 < poll_result demo_readback"
    by (simp_all add: demo_dispatch_def demo_env_def demo_readback_def)
  have "echoed (clamp_frames 64) (clamp_channels 2) demo_buffers [replicate 64 f32_zero, replicate 64 f32_zero] =
      [replicate 64 (flit binary32 1), replicate 64 f32_zero]"
    by (simp add: echoed_def clamp_frames_def clamp_channels_def demo_buffers_def)
  with audio_roundtrip [OF idle_worker_facts(1-3) c h demo_call_ok _ _ o e(1) demo_pending(2) e(2-4), of demo_api "[]"]
  show ?thesis unfolding idle_worker_facts(4) by auto
qed

section \<open>A memory request and its answer\<close>

lemma handle_request_staging:
  "data_staging m = data_staging m' \<Longrightarrow> handle_request ops front m = handle_request ops front m'"
proof -
  assume "data_staging m = data_staging m'"
  then have "shm_bytes_from front m = shm_bytes_from front m'" by (intro ext) (simp add: shm_bytes_from_def)
  then show ?thesis by (intro ext) (simp only: handle_request_def)
qed

context dsp_node
begin

text \<open>An iteration without audio, with one request waiting.\<close>

lemma iteration_request:
  assumes w: "worker_ok node_ok w" and c: "items (control_bus (shm w)) = []" and r: "items (memory_request_bus (shm w)) = [r]"
    and e: "\<not> poll_ready env"
    and h: "handle_request ops front (shm w) r (bypassed ops w, memory_response_bus (shm w)) = Inr (n, bus)"
  shows "\<exists>w'. worker_iteration ops front env w = Inr w' \<and> nodes w' (primary_node w) = n \<and>
    memory_response_bus (shm w') = bus \<and> items (memory_request_bus (shm w')) = []"
proof -
  from quiet_head [OF w c, of front env] e obtain cq where
    w2: "worker_ok node_ok (after_head w (bypassed ops w) cq)"
    and it: "worker_iteration ops front env w = serve_memory_bus ops front (after_head w (bypassed ops w) cq)" by auto
  let ?w2 = "after_head w (bypassed ops w) cq"
  have "handle_request ops front (shm ?w2) = handle_request ops front (shm w)" by (rule handle_request_staging) simp
  with h r have "for_each (handle_request ops front (shm ?w2)) (items (memory_request_bus (shm ?w2)))
      (nodes ?w2 (primary_node ?w2), memory_response_bus (shm ?w2)) = Inr (n, bus)" by simp
  with drain_eq [OF worker_okD(7) [OF w2], of "handle_request ops front (shm ?w2)"
      "(nodes ?w2 (primary_node ?w2), memory_response_bus (shm ?w2))"]
  obtain q where "drain (handle_request ops front (shm ?w2)) (memory_request_bus (shm ?w2))
      (nodes ?w2 (primary_node ?w2), memory_response_bus (shm ?w2)) = Inr (q, n, bus)" "items q = []" by auto
  then show ?thesis unfolding it by (simp add: serve_memory_bus_def)
qed

end

lemmas request_iteration = real_worker.either.iteration_request [folded worker_ops_def]

text \<open>
  The other process while the caller sleeps: the worker runs one iteration during the first
  sleep of the 500, and nothing after that.
\<close>

definition worker_answers :: "'n node_ops \<Rightarrow> u8 list \<Rightarrow> loop_env \<Rightarrow> 'n worker \<Rightarrow> nat \<Rightarrow> dsp_shared_memory \<Rightarrow> dsp_shared_memory" where
  "worker_answers ops front env w k m =
     (if k = 499 then (case worker_iteration ops front env (w\<lparr>shm := m\<rparr>) of Inl e \<Rightarrow> m | Inr w' \<Rightarrow> shm w') else m)"

lemma poll_response_cong:
  "(\<And>i m. i < k \<Longrightarrow> others i m = m) \<Longrightarrow> poll_response k accept others m = poll_response k accept (\<lambda>i m. m) m"
proof (induction k arbitrary: m)
  case (Suc k)
  then have "others k m = m" for m by simp
  with Suc show ?case by (simp add: Let_def split: option.splits prod.splits)
qed simp

lemma poll_sleep:
  "pop (memory_response_bus m) = (None, memory_response_bus m) \<Longrightarrow>
     poll_response (Suc k) accept others m = poll_response k accept others (others k m)"
  by simp

text \<open>One response arrives during the first sleep.\<close>

lemma poll_answered:
  assumes b: "ring_of (\<lambda>r. True) 32 (memory_response_bus m)" "items (memory_response_bus m) = []"
    and w: "worker_iteration ops front env (w\<lparr>shm := m\<rparr>) = Inr w'"
    and r: "ring_of (\<lambda>r. True) 32 (memory_response_bus (shm w'))" "items (memory_response_bus (shm w')) = [resp]"
  shows "\<exists>q. poll_response 500 accept (worker_answers ops front env w) m =
    (if accept resp then Some resp else None, (shm w')\<lparr>memory_response_bus := q\<rparr>) \<and> items q = []"
proof -
  have n: "(500::nat) = Suc 499" by simp
  have e: "pop (memory_response_bus m) = (None, memory_response_bus m)"
    using ring_ofD(1) [OF b(1)] b(2) by (cases rule: pop_cases) simp_all
  have a: "worker_answers ops front env w 499 m = shm w'" using w by (simp add: worker_answers_def)
  have p: "poll_response 500 accept (worker_answers ops front env w) m = poll_response 499 accept (\<lambda>i m. m) (shm w')"
    unfolding n poll_sleep [OF e] a by (rule poll_response_cong) (simp add: worker_answers_def)
  have "length (items (memory_response_bus (shm w'))) \<le> 499" unfolding r(2) by simp
  from poll_quiet [OF r(1) this, of accept] show ?thesis unfolding p r(2) by auto
qed

text \<open>The worker as it runs on the Vulkan back end, not in the zero-copy mode.\<close>

definition runs_vulkan :: "dsp_vulkan_context \<Rightarrow> (dsp_vulkan_context vulkan_backend + npu_backend) worker \<Rightarrow> bool" where
  "runs_vulkan cx w \<longleftrightarrow> primary_node w = 0 \<and> \<not> bypass_zero_copy (my_block w) \<and>
     (case nodes w 0 of Inl n \<Rightarrow> vk_ctx n = Some cx | Inr n \<Rightarrow> False)"

lemma runs_vulkanE:
  assumes "runs_vulkan cx w"
  obtains n where "nodes w 0 = Inl n" "vk_ctx n = Some cx" "primary_node w = 0" "\<not> bypass_zero_copy (my_block w)"
  using assms by (auto simp: runs_vulkan_def split: sum.splits)

text \<open>
  A call that has put one request on an empty bus, and perhaps written the staging area, is answered by
  the response the worker's node gives.
\<close>

lemma request_answered:
  assumes w: "worker_ok real_node_ok w" "idle (shm w)" "runs_vulkan cx w" "\<not> poll_ready env" and n: "nodes w 0 = Inl n"
    and m1: "m1 = (shm w)\<lparr>data_staging := st, memory_request_bus := q\<rparr>" "length st = STAGING_SIZE"
      "ring_of (\<lambda>r. True) 32 q" "items q = [r]"
    and h: "handle_request (real_ops api) front m1 r (Inl (n\<lparr>shm_buffer_handle := 0\<rparr>), memory_response_bus m1) =
      Inr (n', snd (push (memory_response_bus m1) resp))"
  shows "\<exists>w' b. worker_iteration (real_ops api) front env (w\<lparr>shm := m1\<rparr>) = Inr w' \<and> nodes w' 0 = n' \<and>
    poll_response 500 accept (worker_answers (real_ops api) front env w) m1 =
      (if accept resp then Some resp else None, (shm w')\<lparr>memory_response_bus := b\<rparr>) \<and>
    items b = [] \<and> items (memory_request_bus (shm w')) = []"
proof -
  from w(3) n obtain p where pr: "primary_node w = 0" "\<not> bypass_zero_copy (my_block w)" by (auto elim: runs_vulkanE)
  note wd = worker_okD [OF w(1)]
  let ?w = "w\<lparr>shm := m1\<rparr>"
  have w1: "worker_ok real_node_ok ?w" using w(1) m1 by (simp add: worker_ok_def shm_wf_def)
  have i: "items (control_bus (shm ?w)) = []" "items (memory_request_bus (shm ?w)) = [r]"
    using w(2) m1 by (simp_all add: idle_def)
  have b: "my_block ?w = my_block w" using m1(1) by (simp add: my_block_def)
  have "set_zero_copy_bypass (real_ops api) (nodes ?w (primary_node ?w)) (bypass_zero_copy (my_block ?w)) (shm_fd ?w)
      (of_nat (c_size layout_DspSharedMemory)) = Inl (n\<lparr>shm_buffer_handle := 0\<rparr>)"
    using pr n b by (simp add: worker_ops_def sum_ops_def vulkan_ops_def vb_set_zero_copy_bypass_def)
  with h have "handle_request (real_ops api) front (shm ?w) r (set_zero_copy_bypass (real_ops api) (nodes ?w (primary_node ?w))
      (bypass_zero_copy (my_block ?w)) (shm_fd ?w) (of_nat (c_size layout_DspSharedMemory)), memory_response_bus (shm ?w)) =
      Inr (n', snd (push (memory_response_bus m1) resp))" by simp
  from request_iteration [OF w1 i w(4) this] obtain w' where
    it: "worker_iteration (real_ops api) front env ?w = Inr w'" "nodes w' 0 = n'"
      "memory_response_bus (shm w') = snd (push (memory_response_bus m1) resp)" "items (memory_request_bus (shm w')) = []"
    using pr by auto
  have rb: "ring_of (\<lambda>r. True) 32 (memory_response_bus m1)" "items (memory_response_bus m1) = []"
    using wd(8) w(2) m1(1) by (simp_all add: idle_def)
  have "ring_of (\<lambda>r. True) 32 (memory_response_bus (shm w'))" "items (memory_response_bus (shm w')) = [resp]"
    unfolding it(3) using push_take [OF rb(1) TrueI, of resp] rb(2) by simp_all
  from poll_answered [OF rb it(1) this, of accept] it show ?thesis by blast
qed

text \<open>
  C30: An allocation call is answered with the driver's handle: with idle buses, the library's call and one
  iteration of a Vulkan worker during its first sleep return exactly what the driver's allocation
  returns on the worker's context, 0 included when it fails, and leave both memory buses empty.
\<close>

theorem vram_allocation_answered:
  assumes "worker_ok real_node_ok w" "idle (shm w)" "runs_vulkan cx w" "\<not> poll_ready env" "ctx_ok c (shm w)"
  shows "\<exists>m'. sdk_allocate_vram req_id (worker_answers (real_ops api) front env w) (Some c) sz (shm w) =
      (fst (dsp_vulkan_allocate_buffer api (Some cx) sz), m') \<and>
    items (memory_request_bus m') = [] \<and> items (memory_response_bus m') = []"
proof -
  let ?r = "\<lparr>request_id = req_id, req_type = ALLOCATE, req_size = sz, req_handle = 0, shm_offset = 0\<rparr>"
  from assms(3) obtain n where n: "nodes w 0 = Inl n" "vk_ctx n = Some cx" by (rule runs_vulkanE)
  note wd = worker_okD [OF assms(1)]
  obtain ok q where p: "push (memory_request_bus (shm w)) ?r = (ok, q)" by fastforce
  have rq: "items (memory_request_bus (shm w)) = []" using assms(2) by (simp add: idle_def)
  have q: "ok" "items q = [?r]" "ring_of (\<lambda>r. True) 32 q"
    using spsc.enq_inv [OF ring_ofD(1) [OF wd(7)] p] spsc.enq_ok_iff [OF ring_ofD(1) [OF wd(7)] p] ring_ofD(3) [OF wd(7)] rq
      ring_of_push [OF wd(7) TrueI p] by simp_all
  let ?m1 = "(shm w)\<lparr>data_staging := data_staging (shm w), memory_request_bus := q\<rparr>"
  obtain h ctx' where a: "dsp_vulkan_allocate_buffer api (Some cx) sz = (h, ctx')" by fastforce
  let ?resp = "\<lparr>resp_request_id = req_id, resp_handle = h, success = (h \<noteq> 0)\<rparr>"
  have hr: "handle_request (real_ops api) front ?m1 ?r (Inl (n\<lparr>shm_buffer_handle := 0\<rparr>), memory_response_bus ?m1) =
      Inr (Inl (n\<lparr>shm_buffer_handle := 0, vk_ctx := ctx'\<rparr>), snd (push (memory_response_bus ?m1) ?resp))"
    using n(2) a by (simp add: handle_request_def worker_ops_def sum_ops_def vulkan_ops_def vb_allocate_buffer_def real_driver_def)
  have "length (data_staging (shm w)) = STAGING_SIZE" using wd(1) by (simp add: shm_wf_def)
  from request_answered [OF assms(1-4) n(1) refl this q(3,2) hr, of "\<lambda>r. resp_request_id r = req_id \<and> success r"] obtain w' b where
    s: "poll_response 500 (\<lambda>r. resp_request_id r = req_id \<and> success r) (worker_answers (real_ops api) front env w) ?m1 =
      (if resp_request_id ?resp = req_id \<and> success ?resp then Some ?resp else None, (shm w')\<lparr>memory_response_bus := b\<rparr>)"
      "items b = []" "items (memory_request_bus (shm w')) = []" "worker_iteration (real_ops api) front env (w\<lparr>shm := ?m1\<rparr>) = Inr w'"
    by blast
  have "cx_shm c" using assms(5) by (simp add: ctx_ok_def)
  then have "sdk_allocate_vram req_id (worker_answers (real_ops api) front env w) (Some c) sz (shm w) =
      (h, (shm w')\<lparr>memory_response_bus := b\<rparr>)"
    using p q(1) s(1) by (simp add: sdk_allocate_vram_def)
  with a s show ?thesis by simp
qed

definition vulkan_worker :: "dsp_vulkan_context \<Rightarrow> (dsp_vulkan_context vulkan_backend + npu_backend) worker" where
  "vulkan_worker cx = idle_worker\<lparr>nodes := (\<lambda>k. Inl (new_vulkan_backend\<lparr>vk_ctx := Some cx\<rparr>))\<rparr>"

lemma vulkan_worker_facts:
  assumes "pool_wf cx"
  shows "worker_ok real_node_ok (vulkan_worker cx)" "idle (shm (vulkan_worker cx))" "runs_vulkan cx (vulkan_worker cx)"
    "ctx_ok demo_ctx (shm (vulkan_worker cx))" "shm (vulkan_worker cx) = shm_zero"
  using assms demo_ctx_ok(1)
  by (simp_all add: vulkan_worker_def worker_ok_def idle_worker_def demo_worker_def queue_bounded_def idle_def runs_vulkan_def
      add_node_to_sequence_def empty_graph_def vb_ok_def new_vulkan_backend_def my_block_def wcb_zero_def)

theorem vram_allocation_answered_witness:
  "\<exists>m'. sdk_allocate_vram 5 (worker_answers (real_ops demo_api) [] (demo_env\<lparr>poll_ready := False\<rparr>) (vulkan_worker demo_context))
     (Some demo_ctx) 8 shm_zero = (1, m')"
  using vram_allocation_answered [OF vulkan_worker_facts(1-3) [OF pool_wf_demo] _ vulkan_worker_facts(4) [OF pool_wf_demo],
      of "demo_env\<lparr>poll_ready := False\<rparr>" 5 demo_api "[]" 8]
  by (auto simp: demo_allocate vulkan_worker_facts(5) [OF pool_wf_demo])

lemma staging_bytes:
  "length front = STAGING_OFFSET \<Longrightarrow> shm_bytes_from front m (of_nat STAGING_OFFSET) = data_staging m"
  by (simp add: shm_bytes_from_def STAGING_OFFSET_def)

lemma real_upload:
  assumes "pool_wf cx" "unat h < POOL_SIZE" "in_use cx ! unat h" "vk_map_memory api (vk_calls cx)"
    and "device_memory cx (vb_memory (user_buffers cx ! unat h)) = Some bytes" "unat sz \<le> length bytes" "unat sz \<le> length data"
  shows "\<exists>cx'. dsp_vulkan_upload_buffer api (Some cx) h data sz = Inr (True, Some cx') \<and>
    device_memory cx' = (device_memory cx)(vb_memory (user_buffers cx ! unat h) \<mapsto> take (unat sz) data @ drop (unat sz) bytes)"
proof -
  have "h \<noteq> 0" using assms(1,3) by (auto simp: pool_wf_in_use)
  moreover have "\<not> 256 \<le> h" using assms(2) by (simp add: POOL_SIZE_def word_le_nat_alt)
  moreover have "active (user_buffers cx ! unat h)" using assms(1-3) by (simp add: in_use_def pool_wf_def)
  ultimately show ?thesis using assms(4-7) by (simp add: dsp_vulkan_upload_buffer_def memcpy_at_def)
qed

text \<open>
  C31: Uploaded data reaches the device: with idle buses, a buffer in use that is large enough and a
  mapping that succeeds, the library's call and one iteration of a Vulkan worker during its first
  sleep report success, and the memory of the handle holds the caller's bytes, for which they
  pass the staging area at the offset the layout gives it. No other device memory changes.
\<close>

theorem upload_reaches_device:
  assumes w: "worker_ok real_node_ok w" "idle (shm w)" "runs_vulkan cx w" "\<not> poll_ready env" "ctx_ok c (shm w)" "pool_wf cx"
    and f: "length front = STAGING_OFFSET"
    and h: "unat h < POOL_SIZE" "in_use cx ! unat h" "vk_map_memory api (vk_calls cx)"
      "device_memory cx (vb_memory (user_buffers cx ! unat h)) = Some bytes" "unat sz \<le> length bytes"
    and d: "unat sz \<le> length data" "unat sz \<le> STAGING_SIZE"
  shows "\<exists>m' w' n' cx'. sdk_upload_buffer req_id (worker_answers (real_ops api) front env w) (Some c) h data sz (shm w) = Inr (True, m') \<and>
    worker_iteration (real_ops api) front env (w\<lparr>shm := (shm w)\<lparr>data_staging := take (unat sz) data @ drop (unat sz) (data_staging (shm w)),
      memory_request_bus := snd (push (memory_request_bus (shm w)) \<lparr>request_id = req_id, req_type = UPLOAD, req_size = sz, req_handle = h,
        shm_offset = of_nat STAGING_OFFSET\<rparr>)\<rparr>\<rparr>) = Inr w' \<and>
    nodes w' 0 = Inl n' \<and> vk_ctx n' = Some cx' \<and>
    device_memory cx' = (device_memory cx)(vb_memory (user_buffers cx ! unat h) \<mapsto> take (unat sz) data @ drop (unat sz) bytes)"
proof -
  let ?r = "\<lparr>request_id = req_id, req_type = UPLOAD, req_size = sz, req_handle = h, shm_offset = of_nat STAGING_OFFSET\<rparr>"
  let ?st = "take (unat sz) data @ drop (unat sz) (data_staging (shm w))"
  from w(3) obtain n where n: "nodes w 0 = Inl n" "vk_ctx n = Some cx" by (rule runs_vulkanE)
  note wd = worker_okD [OF w(1)]
  obtain ok q where p: "push (memory_request_bus (shm w)) ?r = (ok, q)" by fastforce
  have rq: "items (memory_request_bus (shm w)) = []" using w(2) by (simp add: idle_def)
  have q: "ok" "items q = [?r]" "ring_of (\<lambda>r. True) 32 q"
    using spsc.enq_inv [OF ring_ofD(1) [OF wd(7)] p] spsc.enq_ok_iff [OF ring_ofD(1) [OF wd(7)] p] ring_ofD(3) [OF wd(7)] rq
      ring_of_push [OF wd(7) TrueI p] by simp_all
  have st: "length (data_staging (shm w)) = STAGING_SIZE" "length ?st = STAGING_SIZE"
    using wd(1) d by (simp_all add: shm_wf_def)
  let ?m1 = "(shm w)\<lparr>data_staging := ?st, memory_request_bus := q\<rparr>"
  have "unat sz \<le> length ?st" using st d(2) by simp
  from real_upload [OF w(6) h this] obtain cx' where
    u: "dsp_vulkan_upload_buffer api (Some cx) h ?st sz = Inr (True, Some cx')"
      "device_memory cx' = (device_memory cx)(vb_memory (user_buffers cx ! unat h) \<mapsto> take (unat sz) ?st @ drop (unat sz) bytes)" by blast
  have tk: "take (unat sz) ?st = take (unat sz) data" using d(1) by simp
  let ?resp = "\<lparr>resp_request_id = req_id, resp_handle = 0, success = True\<rparr>"
  have sb: "shm_bytes_from front ?m1 (of_nat STAGING_OFFSET) = ?st" using staging_bytes [OF f, of ?m1] by simp
  have hr: "handle_request (real_ops api) front ?m1 ?r (Inl (n\<lparr>shm_buffer_handle := 0\<rparr>), memory_response_bus ?m1) =
      Inr (Inl (n\<lparr>shm_buffer_handle := 0, vk_ctx := Some cx'\<rparr>), snd (push (memory_response_bus ?m1) ?resp))"
    using n(2) u(1) by (simp add: handle_request_def sb worker_ops_def sum_ops_def vulkan_ops_def vb_upload_buffer_def real_driver_def)
  from request_answered [OF w(1-4) n(1) refl st(2) q(3,2) hr, of "\<lambda>r. resp_request_id r = req_id"] obtain w' b where
    s: "worker_iteration (real_ops api) front env (w\<lparr>shm := ?m1\<rparr>) = Inr w'" "nodes w' 0 = Inl (n\<lparr>shm_buffer_handle := 0, vk_ctx := Some cx'\<rparr>)"
      "poll_response 500 (\<lambda>r. resp_request_id r = req_id) (worker_answers (real_ops api) front env w) ?m1 =
      (if resp_request_id ?resp = req_id then Some ?resp else None, (shm w')\<lparr>memory_response_bus := b\<rparr>)"
    by blast
  have "cx_shm c" using w(5) by (simp add: ctx_ok_def)
  moreover have "\<not> 1024 * 1024 * 4 < sz" using d(2) by (simp add: STAGING_SIZE_def word_less_nat_alt)
  moreover have "memcpy_at (data_staging (shm w)) 0 data (unat sz) = Inr ?st" using d st(1) by (simp add: memcpy_at_def)
  ultimately have "sdk_upload_buffer req_id (worker_answers (real_ops api) front env w) (Some c) h data sz (shm w) =
      Inr (True, (shm w')\<lparr>memory_response_bus := b\<rparr>)"
    using p q(1) s(3) by (simp add: sdk_upload_buffer_def)
  then show ?thesis using s(1,2) u(2) [unfolded tk] p
    by (intro exI [of _ "(shm w')\<lparr>memory_response_bus := b\<rparr>"] exI [of _ w'] exI [of _ "n\<lparr>shm_buffer_handle := 0, vk_ctx := Some cx'\<rparr>"]
        exI [of _ cx']) simp
qed

theorem upload_reaches_device_witness:
  "\<exists>m'. sdk_upload_buffer 6 (worker_answers (real_ops demo_api) (replicate STAGING_OFFSET 0) (demo_env\<lparr>poll_ready := False\<rparr>)
     (vulkan_worker demo_uploaded)) (Some demo_ctx) 1 [5, 6, 7] 2 shm_zero = Inr (True, m')"
proof -
  have u: "pool_wf demo_uploaded" "unat (1::u32) < POOL_SIZE" "in_use demo_uploaded ! unat (1::u32)"
    "vk_map_memory demo_api (vk_calls demo_uploaded)"
    "device_memory demo_uploaded (vb_memory (user_buffers demo_uploaded ! unat (1::u32))) = Some [1, 2]"
    by (simp_all add: demo_uploaded_def pool_wf_def in_use_def POOL_SIZE_def no_buffer_def demo_api_def)
  have s: "unat (2::u64) \<le> length [1, 2 :: u8]" "unat (2::u64) \<le> length [5, 6, 7 :: u8]" "unat (2::u64) \<le> STAGING_SIZE"
    "\<not> poll_ready (demo_env\<lparr>poll_ready := False\<rparr>)" "length (replicate STAGING_OFFSET (0::u8)) = STAGING_OFFSET"
    by (simp_all add: STAGING_SIZE_def)
  note v = vulkan_worker_facts [OF u(1)]
  from upload_reaches_device [OF v(1-3) s(4) v(4) u(1) s(5) u(2-5) s(1-3), of 6] show ?thesis unfolding v(5) by blast
qed

section \<open>Log messages\<close>

text \<open>
  A log message reaches the plugin: with an empty log bus, what the worker logs is what the library's
  next call fetches, cut off at 15 characters of the tag and 127 of the message, with the level, and
  the bus is empty again. The caller's buffers must hold a terminator at those positions, because
  the copy writes none when it is cut off.
\<close>

theorem log_roundtrip:
  assumes "ctx_ok c m" "items (log_bus m) = []"
    and "15 < length dt" "dt ! 15 = CHR 0x00" "127 < length dm" "dm ! 127 = CHR 0x00"
  shows "\<exists>m1 t' s' m2. send_worker_log (Some m) t s lvl = Some m1 \<and>
    sdk_fetch_log (Some c) (Some dt) (Some dm) (Some old) m1 = (True, Some t', Some s', Some (sint lvl), m2) \<and>
    c_str t' = take 15 (c_str t) \<and> c_str s' = take 127 (c_str s) \<and> items (log_bus m2) = [] \<and> m2\<lparr>log_bus := log_bus m\<rparr> = m"
proof -
  have wf: "ring_of log_entry_wf 32 (log_bus m)" "cx_shm c" using assms(1) by (simp_all add: ctx_ok_def shm_wf_def)
  define e where "e = log_entry_zero\<lparr>level := lvl, tag := strncpy (tag log_entry_zero) t 15, msg := strncpy (msg log_entry_zero) s 127\<rparr>"
  have z: "15 < length (tag log_entry_zero)" "tag log_entry_zero ! 15 = CHR 0x00"
    "127 < length (msg log_entry_zero)" "msg log_entry_zero ! 127 = CHR 0x00"
    by (simp_all add: log_entry_zero_def TAG_SIZE_def MSG_SIZE_def)
  have e: "c_str (tag e) = take 15 (c_str t)" "c_str (msg e) = take 127 (c_str s)" "level e = lvl"
    using c_str_strncpy [OF z(1,2), of t] c_str_strncpy [OF z(3,4), of s] by (simp_all add: e_def)
  have "log_entry_wf e" using z by (simp add: e_def log_entry_wf_def strncpy_length) (simp add: log_entry_zero_def)
  from push_take [OF wf(1) this] assms(2) obtain q where
    q: "q = snd (push (log_bus m) e)" "ring_of log_entry_wf 32 q" "items q = [e]" by simp
  have send: "send_worker_log (Some m) t s lvl = Some (m\<lparr>log_bus := q\<rparr>)"
    by (simp add: send_worker_log_def e_def q(1))
  from ring_ofD(1) [OF q(2)] obtain q' where p: "pop q = (Some e, q')" "items q' = []"
  proof (cases rule: pop_cases)
    case (popped y q')
    with q(3) that show ?thesis by simp
  qed (use q(3) in simp)
  have "sdk_fetch_log (Some c) (Some dt) (Some dm) (Some old) (m\<lparr>log_bus := q\<rparr>) =
      (True, Some (strncpy dt (tag e) 15), Some (strncpy dm (msg e) 127), Some (sint lvl), m\<lparr>log_bus := q'\<rparr>)"
    using wf(2) p(1) e(3) by (simp add: sdk_fetch_log_def)
  moreover have "c_str (strncpy dt (tag e) 15) = take 15 (c_str t)" "c_str (strncpy dm (msg e) 127) = take 127 (c_str s)"
    using c_str_strncpy [OF assms(3,4), of "tag e"] c_str_strncpy [OF assms(5,6), of "msg e"] e by simp_all
  ultimately show ?thesis using send p(2)
    by (intro exI [of _ "m\<lparr>log_bus := q\<rparr>"] exI [of _ "strncpy dt (tag e) 15"] exI [of _ "strncpy dm (msg e) 127"]
        exI [of _ "m\<lparr>log_bus := q'\<rparr>"]) simp
qed

theorem log_roundtrip_witness:
  "\<exists>m1 t' s' m2. send_worker_log (Some shm_zero) ''CORE'' ''ready'' 2 = Some m1 \<and>
     sdk_fetch_log (Some demo_ctx) (Some (replicate 16 (CHR 0x00))) (Some (replicate 128 (CHR 0x00))) (Some 0) m1 =
       (True, Some t', Some s', Some 2, m2) \<and> c_str t' = ''CORE'' \<and> c_str s' = ''ready''"
proof -
  have "c_str ''CORE'' = ''CORE''" "c_str ''ready'' = ''ready''" by (simp_all add: c_str_def)
  moreover have "sint (2 :: u32) = 2" by simp
  ultimately show ?thesis
    using log_roundtrip [OF demo_ctx_ok(1) shm_zero_queues(6), of "replicate 16 (CHR 0x00)" "replicate 128 (CHR 0x00)" "''CORE''" "''ready''" 2 0]
    by (simp del: shm_zero_queues) blast
qed

section \<open>Parameters\<close>

text \<open>Parameter changes in a row; the list of results.\<close>

fun set_params :: "sdk_ctx option \<Rightarrow> dsp_control_event list \<Rightarrow> dsp_shared_memory \<Rightarrow> bool list \<times> dsp_shared_memory" where
  "set_params c [] m = ([], m)"
| "set_params c (e # es) m =
     (let (ok, m1) = sdk_set_param c (parameter_id e) (evt_value e) m; (oks, m2) = set_params c es m1 in (ok # oks, m2))"

lemma set_params_queue:
  assumes "ring_of (\<lambda>e. True) 64 (control_bus m)" "cx_shm c" "length (items (control_bus m)) + length es \<le> 63"
  shows "\<exists>q. set_params (Some c) es m = (replicate (length es) True, m\<lparr>control_bus := q\<rparr>) \<and>
    ring_of (\<lambda>e. True) 64 q \<and> items q = items (control_bus m) @ es"
  using assms
proof (induction es arbitrary: m)
  case Nil
  then show ?case by (intro exI [of _ "control_bus m"]) simp
next
  case (Cons e es)
  let ?e = "\<lparr>parameter_id = parameter_id e, evt_value = evt_value e\<rparr>"
  have room: "ring_room (control_bus m) = 63" using ring_ofD(3) [OF Cons.prems(1)] by simp
  have "length (items (control_bus m)) < 63" using Cons.prems(3) by simp
  with room obtain q where p: "push (control_bus m) ?e = (True, q)" "items q = items (control_bus m) @ [?e]"
    using push_cases [OF ring_ofD(1) [OF Cons.prems(1)], of ?e] by (metis less_irrefl)
  have q: "ring_of (\<lambda>e. True) 64 q" using ring_of_push [OF Cons.prems(1) TrueI p(1)] .
  have e: "?e = e" by simp
  let ?m = "m\<lparr>control_bus := q\<rparr>"
  have "length (items (control_bus ?m)) + length es \<le> 63" using Cons.prems(3) p(2) by (simp del: length_items)
  from Cons.IH [OF _ Cons.prems(2) this] q obtain q' where
    "set_params (Some c) es ?m = (replicate (length es) True, ?m\<lparr>control_bus := q'\<rparr>)" "ring_of (\<lambda>e. True) 64 q'"
    "items q' = items q @ es" by auto
  moreover have "sdk_set_param (Some c) (parameter_id e) (evt_value e) m = (True, ?m)"
    unfolding sdk_set_param_def by (simp only: option.case p(1) Cons.prems(2) prod.case not_True_eq_False if_False Let_def)
  ultimately show ?case using p(2) e by (intro exI [of _ q']) simp
qed

context dsp_node
begin

text \<open>An iteration without audio and requests: the events on the bus are applied in their order.\<close>

lemma iteration_events:
  assumes w: "worker_ok node_ok w" and r: "items (memory_request_bus (shm w)) = []" and e: "\<not> poll_ready env"
    and es: "list_all (\<lambda>e. event_ok (parameter_id e) (evt_value e)) (items (control_bus (shm w)))"
    and f: "for_each (\<lambda>e n. apply_control_event ops n (parameter_id e) (evt_value e)) (items (control_bus (shm w)))
      (bypassed ops w) = Inr n"
  shows "\<exists>w'. worker_iteration ops front env w = Inr w' \<and> nodes w' (primary_node w) = n \<and> items (control_bus (shm w')) = []"
proof -
  have "node_ok (bypassed ops w)" using bypass_ok [OF worker_okD(9) [OF w]] .
  with es control_ok f have n: "node_ok n"
    using for_each_inv [where P = node_ok, OF f] by (fastforce simp: list_all_iff)
  from iteration_head [OF w f, of front env] e obtain q where
    q: "items q = []" "ring_of (\<lambda>e. True) 64 q" and it: "worker_iteration ops front env w = serve_memory_bus ops front (after_head w n q)"
    by auto
  from serve_idle [OF after_head_ok [OF w n q(2)], of ops front] r q(1) show ?thesis unfolding it by auto
qed

end

lemmas events_iteration = real_worker.either.iteration_events [folded worker_ops_def]

lemma for_each_left:
  "for_each f es n = Inr n' \<Longrightarrow> for_each (\<lambda>e s. case s of Inl a \<Rightarrow> map_sum id Inl (f e a) | Inr b \<Rightarrow> g e b) es (Inl n) = Inr (Inl n')"
proof (induction es arbitrary: n)
  case (Cons e es)
  then obtain n1 where "f e n = Inr n1" "for_each f es n1 = Inr n'" by (auto split: sum.splits)
  with Cons.IH show ?case by simp
qed simp

text \<open>
  C32: Parameters reach the back end: with idle buses, up to 63 parameter changes are all accepted, and after
  one iteration of a Vulkan worker its gain, threshold and two free parameters have the value
  set last, or their earlier value if they were not set; the bus is empty again.
\<close>

theorem params_reach_backend:
  assumes "worker_ok real_node_ok w" "idle (shm w)" "runs_vulkan cx w" "\<not> poll_ready env" "ctx_ok c (shm w)" "nodes w 0 = Inl n"
    and "length es \<le> 63" "list_all (\<lambda>e. vb_event_ok (parameter_id e) (evt_value e)) es"
  shows "\<exists>m' w' n'. set_params (Some c) es (shm w) = (replicate (length es) True, m') \<and>
    worker_iteration (real_ops api) front env (w\<lparr>shm := m'\<rparr>) = Inr w' \<and> nodes w' 0 = Inl n' \<and>
    gain (vb_params n') = last_value es 1 (gain (vb_params n)) \<and> threshold (vb_params n') = last_value es 2 (threshold (vb_params n)) \<and>
    param1 (vb_params n') = last_value es 3 (param1 (vb_params n)) \<and> param2 (vb_params n') = last_value es 4 (param2 (vb_params n)) \<and>
    items (control_bus (shm w')) = []"
proof -
  note wd = worker_okD [OF assms(1)]
  have pr: "primary_node w = 0" "\<not> bypass_zero_copy (my_block w)" using assms(3) by (auto elim: runs_vulkanE)
  have i: "items (control_bus (shm w)) = []" "items (memory_request_bus (shm w)) = []" using assms(2) by (simp_all add: idle_def)
  have "cx_shm c" "length (items (control_bus (shm w))) + length es \<le> 63" using assms(5,7) i(1) by (simp_all add: ctx_ok_def del: length_items)
  from set_params_queue [OF wd(6) this] i(1) obtain q where
    s: "set_params (Some c) es (shm w) = (replicate (length es) True, (shm w)\<lparr>control_bus := q\<rparr>)" "ring_of (\<lambda>e. True) 64 q" "items q = es" by auto
  let ?w = "w\<lparr>shm := (shm w)\<lparr>control_bus := q\<rparr>\<rparr>" and ?n = "n\<lparr>shm_buffer_handle := 0\<rparr>"
  have w1: "worker_ok real_node_ok ?w" using assms(1) s(2) by (simp add: worker_ok_def shm_wf_def)
  have b: "my_block ?w = my_block w" by (simp add: my_block_def)
  from events_last_value [OF assms(8), of ?n] obtain a where
    e: "for_each apply_event es ?n = Inr (?n\<lparr>vb_params := \<lparr>
      gain = last_value es 1 (gain (vb_params n)), threshold = last_value es 2 (threshold (vb_params n)),
      param1 = last_value es 3 (param1 (vb_params n)), param2 = last_value es 4 (param2 (vb_params n)), algo_id = a\<rparr>\<rparr>)" (is "_ = Inr ?n'")
    by auto
  have z: "set_zero_copy_bypass (real_ops api) (nodes ?w (primary_node ?w)) (bypass_zero_copy (my_block ?w)) (shm_fd ?w)
      (of_nat (c_size layout_DspSharedMemory)) = Inl ?n"
    using pr assms(6) b by (simp add: worker_ops_def sum_ops_def vulkan_ops_def vb_set_zero_copy_bypass_def)
  have o: "(\<lambda>e n. apply_control_event (real_ops api) n (parameter_id e) (evt_value e)) =
      (\<lambda>e s. case s of Inl a \<Rightarrow> map_sum id Inl (apply_event e a) | Inr b \<Rightarrow> map_sum id Inr (apply_control_event npu_ops b (parameter_id e) (evt_value e)))"
    by (intro ext) (simp add: worker_ops_def sum_ops_def vulkan_ops_def split: sum.split)
  have f: "for_each (\<lambda>e n. apply_control_event (real_ops api) n (parameter_id e) (evt_value e)) (items (control_bus (shm ?w)))
      (set_zero_copy_bypass (real_ops api) (nodes ?w (primary_node ?w)) (bypass_zero_copy (my_block ?w)) (shm_fd ?w)
      (of_nat (c_size layout_DspSharedMemory))) = Inr (Inl ?n')"
    unfolding z o using for_each_left [OF e] s(3) by simp
  have "list_all (\<lambda>e. real_event_ok (parameter_id e) (evt_value e)) (items (control_bus (shm ?w)))"
    using assms(8) s(3) by simp
  from events_iteration [OF w1 _ assms(4) this f, of front] i(2) obtain w' where
    "worker_iteration (real_ops api) front env ?w = Inr w'" "nodes w' 0 = Inl ?n'" "items (control_bus (shm w')) = []"
    using pr(1) by auto
  with s(1) show ?thesis by (intro exI [of _ "(shm w)\<lparr>control_bus := q\<rparr>"] exI [of _ w'] exI [of _ ?n']) simp
qed

theorem params_reach_backend_witness:
  "\<exists>m' w' n'. set_params (Some demo_ctx) [\<lparr>parameter_id = 1, evt_value = f32_zero\<rparr>] shm_zero = ([True], m') \<and>
     worker_iteration (real_ops demo_api) [] (demo_env\<lparr>poll_ready := False\<rparr>) ((vulkan_worker demo_context)\<lparr>shm := m'\<rparr>) = Inr w' \<and>
     nodes w' 0 = Inl n' \<and> gain (vb_params n') = f32_zero"
proof -
  note v = vulkan_worker_facts [OF pool_wf_demo]
  have "nodes (vulkan_worker demo_context) 0 = Inl (new_vulkan_backend\<lparr>vk_ctx := Some demo_context\<rparr>)"
    "\<not> poll_ready (demo_env\<lparr>poll_ready := False\<rparr>)" by (simp_all add: vulkan_worker_def)
  from params_reach_backend [OF v(1-3) this(2) v(4) this(1), of "[\<lparr>parameter_id = 1, evt_value = f32_zero\<rparr>]" demo_api "[]"]
  show ?thesis unfolding v(5) by (auto simp: vb_event_ok_def last_value_def)
qed

end
