(* ===== verification/Pipeline.thy ===== *)
theory Pipeline
  imports Prelude "HOL-Library.Sublist"
begin

text \<open>
  What a session promises, without rings, frames and contexts: blocks wait for the worker, are processed
  one per wake-up, and wait for the plugin; each direction has a counter of signals that one read takes
  whole. \<open>Session\<close> refines it.
\<close>

section \<open>The pipeline\<close>

record 'b pipeline =
  pl_waiting :: "'b list"
  pl_ready :: "'b list"
  pl_rung :: nat
  pl_answered :: nat
  pl_got :: "'b list"
  pl_sent :: "'b list"

definition stage_room :: nat where
  "stage_room = 15"

text \<open>
  A signal may fail (\<open>k = 0\<close>). A block that finds the way back full is dropped, and the plugin is
  signalled all the same.
\<close>

inductive pipe_step :: "'b pipeline \<Rightarrow> 'b pipeline \<Rightarrow> bool" where
  Refuse: "pipe_step p p"
| Send: "length (pl_waiting p) < stage_room \<Longrightarrow> k \<le> 1 \<Longrightarrow>
    pipe_step p (p\<lparr>pl_waiting := pl_waiting p @ [b], pl_rung := pl_rung p + k, pl_sent := pl_sent p @ [b]\<rparr>)"
| Idle: "pl_rung p = 0 \<or> pl_waiting p = [] \<Longrightarrow> pipe_step p (p\<lparr>pl_rung := 0\<rparr>)"
| Deliver: "0 < pl_rung p \<Longrightarrow> pl_waiting p = b # bs \<Longrightarrow> length (pl_ready p) < stage_room \<Longrightarrow> k \<le> 1 \<Longrightarrow>
    pipe_step p (p\<lparr>pl_waiting := bs, pl_ready := pl_ready p @ [b], pl_rung := 0, pl_answered := pl_answered p + k\<rparr>)"
| Drop: "0 < pl_rung p \<Longrightarrow> pl_waiting p = b # bs \<Longrightarrow> length (pl_ready p) = stage_room \<Longrightarrow> k \<le> 1 \<Longrightarrow>
    pipe_step p (p\<lparr>pl_waiting := bs, pl_rung := 0, pl_answered := pl_answered p + k\<rparr>)"
| Silence: "pl_answered p = 0 \<or> pl_ready p = [] \<Longrightarrow> pipe_step p (p\<lparr>pl_answered := 0\<rparr>)"
| Hear: "0 < pl_answered p \<Longrightarrow> pl_ready p = b # bs \<Longrightarrow>
    pipe_step p (p\<lparr>pl_ready := bs, pl_answered := 0, pl_got := pl_got p @ [b]\<rparr>)"

inductive_cases pipe_stepE: "pipe_step p p'"

section \<open>Its invariants\<close>

text \<open>The blocks on their way and those read back, the oldest first, are blocks that were sent, in their order.\<close>

abbreviation transit :: "'b pipeline \<Rightarrow> 'b list" where
  "transit p \<equiv> pl_got p @ pl_ready p @ pl_waiting p"

definition ordered :: "'b pipeline \<Rightarrow> bool" where
  "ordered p \<longleftrightarrow> subseq (transit p) (pl_sent p) \<and> (length (pl_sent p) \<le> stage_room \<longrightarrow> transit p = pl_sent p)"

lemma ordered_step: "pipe_step p p' \<Longrightarrow> ordered p \<Longrightarrow> ordered p'"
proof (induction rule: pipe_step.induct)
  case (Send p k b)
  then have "subseq (transit p @ [b]) (pl_sent p @ [b])" unfolding ordered_def by (intro list_emb_append_mono) simp_all
  with Send show ?case by (auto simp: ordered_def)
next
  case (Drop p b bs k)
  then have s: "subseq (pl_got p @ pl_ready p @ b # bs) (pl_sent p)" by (simp add: ordered_def)
  then have "\<not> length (pl_sent p) \<le> stage_room" using list_emb_length [OF s] Drop by simp
  moreover have "subseq (pl_got p @ pl_ready p @ bs) (pl_got p @ pl_ready p @ b # bs)"
    by (intro list_emb_append_mono list_emb_Cons subseq_order.order_refl)
  ultimately show ?case using s by (auto simp: ordered_def intro: subseq_order.trans)
qed (auto simp: ordered_def)

text \<open>A pending signal has a block to wake the worker for, and at most \<open>stage_room\<close> blocks wait.\<close>

definition awaited :: "'b pipeline \<Rightarrow> bool" where
  "awaited p \<longleftrightarrow> (0 < pl_rung p \<longrightarrow> pl_waiting p \<noteq> []) \<and> length (pl_waiting p) \<le> stage_room"

text \<open>The blocks that no pending signal will move: a wake-up moves one block.\<close>

definition backlog :: "'b pipeline \<Rightarrow> nat" where
  "backlog p = length (pl_waiting p) - (if 0 < pl_rung p then 1 else 0)"

lemma backlog_step: "pipe_step p p' \<Longrightarrow> awaited p \<Longrightarrow> awaited p' \<and> backlog p \<le> backlog p'"
  by (induction rule: pipe_step.induct) (auto simp: awaited_def backlog_def)

lemma backlog_run: "pipe_step\<^sup>*\<^sup>* p p' \<Longrightarrow> awaited p \<Longrightarrow> awaited p' \<and> backlog p \<le> backlog p'"
  by (induction rule: rtranclp_induct) (auto dest: backlog_step)

text \<open>When it is as large as the room for waiting blocks, nothing is accepted and nothing is processed any more.\<close>

lemma backlog_full:
  assumes "pipe_step\<^sup>*\<^sup>* p p'" "awaited p" "backlog p = stage_room"
  shows "pl_waiting p' = pl_waiting p \<and> pl_rung p' = 0 \<and> pl_sent p' = pl_sent p \<and> pl_got p' @ pl_ready p' = pl_got p @ pl_ready p"
  using assms
proof (induction rule: rtranclp_induct)
  case base
  then show ?case by (auto simp: awaited_def backlog_def stage_room_def split: if_splits)
next
  case (step p' p'')
  from backlog_run [OF step.hyps(1) step.prems(1)] step.prems(2) have "awaited p'" "stage_room \<le> backlog p'" by auto
  then have "length (pl_waiting p') = stage_room" "pl_rung p' = 0"
    by (auto simp: awaited_def backlog_def stage_room_def split: if_splits)
  with step.hyps(2) step.IH [OF step.prems] show ?case by (cases rule: pipe_step.cases) auto
qed

end
