(* ===== verification/Session.thy ===== *)
theory Session
  imports System Pipeline
begin

text \<open>
  A plugin's session with a worker, closed: the library on one side, the worker's loop on the other, the
  shared memory between them and the two event counters with which they wake each other. The
  operations of the two sides follow each other in any order; each one is taken to be atomic, as the
  two sides use different ends of the rings (\<open>Ring_Concurrent\<close>).
\<close>

section \<open>The state and its steps\<close>

text \<open>
  The counters are those of \<open>eventfd\<close>: a write adds one, a read takes all and resets to zero. \<open>se_sent\<close> and
  \<open>se_got\<close> record the blocks the library has queued and those it has read back, \<open>se_heard\<close> the
  buffers of the caller after each successful read-back.
\<close>

record session =
  se_ctx :: sdk_ctx
  se_worker :: "(dsp_vulkan_context vulkan_backend + npu_backend) worker"
  ev_send :: nat
  ev_recv :: nat
  se_sent :: "dsp_audio_frame list"
  se_got :: "dsp_audio_frame list"
  se_heard :: "f32 list list list"

abbreviation in_items :: "session \<Rightarrow> dsp_audio_frame list" where
  "in_items s \<equiv> items (in_queue (shm (se_worker s)))"

abbreviation out_items :: "session \<Rightarrow> dsp_audio_frame list" where
  "out_items s \<equiv> items (out_queue (shm (se_worker s)))"

definition do_dispatch :: "dispatch_env \<Rightarrow> f32 list list \<Rightarrow> int \<Rightarrow> int \<Rightarrow> session \<Rightarrow> session outcome" where
  "do_dispatch env buffers frames channels s =
     (case sdk_dispatch True env (Some (se_ctx s)) buffers frames channels (shm (se_worker s)) of
        Inr (ok, Some c, m, sent) \<Rightarrow> Inr (s\<lparr>se_ctx := c, se_worker := (se_worker s)\<lparr>shm := m\<rparr>, ev_send := ev_send s + sent,
           se_sent := se_sent s @ drop (length (in_items s)) (items (in_queue m))\<rparr>)
      | Inr (ok, None, m, sent) \<Rightarrow> Inl Null_Deref
      | Inl e \<Rightarrow> Inl e)"

definition do_read :: "u64 \<Rightarrow> f32 list list \<Rightarrow> int \<Rightarrow> int \<Rightarrow> session \<Rightarrow> session outcome" where
  "do_read now buffers frames channels s =
     (case sdk_read_output True \<lparr>poll_result = (if 0 < ev_recv s then 1 else 0), end_ns = now\<rparr>
         (Some (se_ctx s)) buffers frames channels (shm (se_worker s)) of
        Inr (ok, bufs, Some c, m) \<Rightarrow> Inr (s\<lparr>se_ctx := c, se_worker := (se_worker s)\<lparr>shm := m\<rparr>, ev_recv := 0,
           se_got := se_got s @ (if ok then [hd (out_items s)] else []), se_heard := se_heard s @ (if ok then [bufs] else [])\<rparr>)
      | Inr (ok, bufs, None, m) \<Rightarrow> Inl Null_Deref
      | Inl e \<Rightarrow> Inl e)"

definition do_work :: "vk_api \<Rightarrow> u8 list \<Rightarrow> loop_env \<Rightarrow> session \<Rightarrow> session outcome" where
  "do_work api front env s =
     (case worker_iteration (real_ops api) front (env\<lparr>poll_ready := (0 < ev_send s), read_ok := True\<rparr>) (se_worker s) of
        Inr w \<Rightarrow> Inr (s\<lparr>se_worker := w, ev_send := 0, ev_recv := ev_recv s + (signals w - signals (se_worker s))\<rparr>)
      | Inl e \<Rightarrow> Inl e)"

text \<open>
  The calls beside the audio path that wait for no answer: a parameter, a log message, a buffer to free, the
  zero-copy mode.
\<close>

definition set_shm :: "dsp_shared_memory \<Rightarrow> session \<Rightarrow> session" where
  "set_shm m s = s\<lparr>se_worker := (se_worker s)\<lparr>shm := m\<rparr>\<rparr>"

definition do_param :: "u32 \<Rightarrow> f32 \<Rightarrow> session \<Rightarrow> session" where
  "do_param k v s = set_shm (snd (sdk_set_param (Some (se_ctx s)) k v (shm (se_worker s)))) s"

definition do_fetch_log :: "char list option \<Rightarrow> char list option \<Rightarrow> int option \<Rightarrow> session \<Rightarrow> session" where
  "do_fetch_log t g l s = (case sdk_fetch_log (Some (se_ctx s)) t g l (shm (se_worker s)) of (ok, t', g', l', m) \<Rightarrow> set_shm m s)"

definition do_free :: "u32 \<Rightarrow> session \<Rightarrow> session" where
  "do_free h s = set_shm (sdk_free_vram (Some (se_ctx s)) h (shm (se_worker s))) s"

definition do_bypass :: "bool \<Rightarrow> session \<Rightarrow> session outcome" where
  "do_bypass b s = (case sdk_set_zero_copy_bypass (Some (se_ctx s)) b (shm (se_worker s)) of Inl e \<Rightarrow> Inl e | Inr m \<Rightarrow> Inr (set_shm m s))"

text \<open>
  The host calls with blocks that are not empty and with buffers that hold any processed block. An
  algorithm number it sets is one that the worker can convert.
\<close>

inductive session_step :: "vk_api \<Rightarrow> session \<Rightarrow> session \<Rightarrow> bool" for api where
  Dispatch: "call_ok buffers frames channels \<Longrightarrow> 0 < frames \<Longrightarrow> do_dispatch env buffers frames channels s = Inr s' \<Longrightarrow>
    session_step api s s'"
| Read: "call_ok buffers 256 channels \<Longrightarrow> channels < 2 ^ 31 \<Longrightarrow> do_read now buffers frames channels s = Inr s' \<Longrightarrow>
    session_step api s s'"
| Work: "env_ok env \<Longrightarrow> do_work api front env s = Inr s' \<Longrightarrow> session_step api s s'"
| Param: "real_event_ok k v \<Longrightarrow> session_step api s (do_param k v s)"
| Log: "session_step api s (do_fetch_log t g l s)"
| Free: "session_step api s (do_free h s)"
| Bypass: "do_bypass b s = Inr s' \<Longrightarrow> session_step api s s'"

inductive_cases session_stepE: "session_step api s s'"

section \<open>The invariant\<close>

text \<open>What no stage of a worker changes of a block.\<close>

definition tag_of :: "dsp_audio_frame \<Rightarrow> u32 \<times> u32 \<times> u64" where
  "tag_of f = (frame_count f, channel_count f, timestamp_ns f)"

text \<open>The two sides can run, with parameters and requests on their way that the worker can serve.\<close>

definition session_live :: "session \<Rightarrow> bool" where
  "session_live s \<longleftrightarrow> worker_ok real_node_ok (se_worker s) \<and> ctx_ok (se_ctx s) (shm (se_worker s)) \<and>
     pending_ok real_event_ok (shm (se_worker s))"

text \<open>No call but those of the audio path is under way.\<close>

definition session_wf :: "session \<Rightarrow> bool" where
  "session_wf s \<longleftrightarrow> worker_ok real_node_ok (se_worker s) \<and> ctx_ok (se_ctx s) (shm (se_worker s)) \<and>
     items (control_bus (shm (se_worker s))) = [] \<and> items (memory_request_bus (shm (se_worker s))) = [] \<and>
     list_all (\<lambda>f. frame_count f \<noteq> 0) (in_items s)"

text \<open>All blocks on their way and read back, the oldest first.\<close>

definition blocks :: "session \<Rightarrow> dsp_audio_frame list" where
  "blocks s = se_got s @ out_items s @ in_items s"

text \<open>What the session is as a pipeline of tags.\<close>

definition pipeline_of :: "session \<Rightarrow> (u32 \<times> u32 \<times> u64) pipeline" where
  "pipeline_of s = \<lparr>pl_waiting = map tag_of (in_items s), pl_ready = map tag_of (out_items s), pl_rung = ev_send s,
     pl_answered = ev_recv s, pl_got = map tag_of (se_got s), pl_sent = map tag_of (se_sent s)\<rparr>"

lemma pipeline_of_simps [simp]:
  "pl_waiting (pipeline_of s) = map tag_of (in_items s)" "pl_ready (pipeline_of s) = map tag_of (out_items s)"
  "pl_rung (pipeline_of s) = ev_send s" "pl_answered (pipeline_of s) = ev_recv s"
  "pl_got (pipeline_of s) = map tag_of (se_got s)" "pl_sent (pipeline_of s) = map tag_of (se_sent s)"
  by (simp_all add: pipeline_of_def)

lemma wf_live: "session_wf s \<Longrightarrow> session_live s"
  by (simp add: session_wf_def session_live_def pending_ok_def)

lemma session_liveD:
  assumes "session_live s"
  shows "worker_ok real_node_ok (se_worker s)" "ctx_ok (se_ctx s) (shm (se_worker s))"
    "pending_ok real_event_ok (shm (se_worker s))" "list_all (\<lambda>f. frame_count f \<noteq> 0) (in_items s)"
    "ring_room (in_queue (shm (se_worker s))) = 15" "ring_room (out_queue (shm (se_worker s))) = 15"
    "length (in_items s) \<le> 15" "length (out_items s) \<le> 15"
    "queue_bounded (out_queue (shm (se_worker s)))"
proof -
  note w = worker_okD [of real_node_ok "se_worker s"]
  show wk: "worker_ok real_node_ok (se_worker s)" "ctx_ok (se_ctx s) (shm (se_worker s))"
    "pending_ok real_event_ok (shm (se_worker s))" "list_all (\<lambda>f. frame_count f \<noteq> 0) (in_items s)"
    using assms by (simp_all add: session_live_def pending_ok_def)
  show r: "ring_room (in_queue (shm (se_worker s))) = 15" "ring_room (out_queue (shm (se_worker s))) = 15"
    using ring_ofD(3) [OF w(4) [OF wk(1)]] ring_ofD(3) [OF w(5) [OF wk(1)]] by (simp_all add: IPC_QUEUE_DEPTH_def)
  show "length (in_items s) \<le> 15" "length (out_items s) \<le> 15"
    using spsc.bounded [OF ring_ofD(1) [OF w(4) [OF wk(1)]]] spsc.bounded [OF ring_ofD(1) [OF w(5) [OF wk(1)]]] r by simp_all
  show "queue_bounded (out_queue (shm (se_worker s)))" using wk(1) by (simp add: worker_ok_def)
qed

lemmas session_wfD = session_liveD [OF wf_live]

section \<open>Each operation by itself\<close>

lemma dispatch_any:
  assumes "ctx_ok c m" "call_ok buffers frames channels"
  shows "\<exists>ok c' m' sent. sdk_dispatch True env (Some c) buffers frames channels m = Inr (ok, Some c', m', sent) \<and> ctx_ok c' m' \<and>
    m' = m\<lparr>in_queue := in_queue m'\<rparr> \<and>
    (if in_queue m' = in_queue m then sent = 0
     else sent \<le> 1 \<and> (\<exists>f. items (in_queue m') = items (in_queue m) @ [f] \<and> block_of (now_ns env) buffers frames channels f))"
proof -
  note cb = ctx_control_block [OF assms(1)]
  have cs: "cx_shm c" using assms(1) by (simp add: ctx_ok_def)
  consider (err) "last_error (ctx_block c m) \<noteq> NO_ERROR"
    | (dead) "last_error (ctx_block c m) = NO_ERROR" "10 < heartbeat_stalled_count (watchdog (heartbeat (ctx_block c m)) c)"
    | (alive) "last_error (ctx_block c m) = NO_ERROR" "\<not> 10 < heartbeat_stalled_count (watchdog (heartbeat (ctx_block c m)) c)"
    by blast
  then show ?thesis
  proof cases
    case err
    then have "sdk_dispatch True env (Some c) buffers frames channels m = Inr (False, Some c, m, 0)"
      using cs cb by (simp add: sdk_dispatch_def)
    with assms(1) show ?thesis by auto
  next
    case dead
    from dispatch_refused [OF assms(1) dead(2,1)] assms(1) show ?thesis
      by (intro exI [of _ False] exI [of _ "watchdog (heartbeat (ctx_block c m)) c"] exI [of _ m] exI [of _ 0]) (simp add: ctx_ok_def)
  next
    case alive
    from dispatch_step [OF assms(1) alive(1) assms(2) alive(2), of env] obtain ok c' m' sent where
      d: "sdk_dispatch True env (Some c) buffers frames channels m = Inr (ok, Some c', m', sent)" "shm_wf m'" "m'\<lparr>in_queue := in_queue m\<rparr> = m"
      and q: "m' = m \<and> sent = 0 \<or> sent \<le> 1 \<and>
        (\<exists>f. items (in_queue m') = items (in_queue m) @ [f] \<and> block_of (now_ns env) buffers frames channels f)"
      by (metis le_numeral_extra(4) zero_le_one)
    from dispatch_context [OF d(1) assms(1) alive(1)] d(2) assms(1) have "ctx_ok c' m'" by (simp add: ctx_ok_def)
    with d(1) q in_queue_update_eq [OF d(3)] show ?thesis by (metis append_self_conv not_Cons_self2)
  qed
qed

text \<open>Nothing is delivered without a signal or without a block; otherwise the oldest block is.\<close>

lemma read_nothing:
  assumes "ctx_ok c m" "poll_result env \<le> 0 \<or> items (out_queue m) = []"
  shows "sdk_read_output True env (Some c) buffers frames channels m = Inr (False, buffers, Some c, m)"
proof -
  have "ring_wf (out_queue m)" using assms(1) by (simp add: ctx_ok_def shm_wf_def ring_of_def)
  from peek_read_iff [OF this] have "peek_read (out_queue m) = None" if "items (out_queue m) = []" using that by simp
  with assms show ?thesis by (auto simp: sdk_read_output_def ctx_ok_def)
qed

lemma do_read_nothing:
  assumes "session_live s" "ev_recv s = 0 \<or> out_items s = []"
  shows "do_read now buffers frames channels s = Inr (s\<lparr>ev_recv := 0\<rparr>)"
  using read_nothing [OF session_liveD(2) [OF assms(1)], of "\<lparr>poll_result = if 0 < ev_recv s then 1 else 0, end_ns = now\<rparr>"] assms(2)
  by (auto simp: do_read_def)

section \<open>The refinement, operation by operation\<close>

lemma do_dispatch_ok:
  assumes "session_live s" "call_ok buffers frames channels" "0 < frames"
  shows "\<exists>s'. do_dispatch env buffers frames channels s = Inr s' \<and> session_live s' \<and> pipe_step (pipeline_of s) (pipeline_of s')"
proof -
  note wf = session_liveD [OF assms(1)]
  let ?w = "se_worker s"
  from dispatch_any [OF wf(2) assms(2), of env] obtain ok c' m' sent where
    d: "sdk_dispatch True env (Some (se_ctx s)) buffers frames channels (shm ?w) = Inr (ok, Some c', m', sent)" "ctx_ok c' m'"
      "m' = (shm ?w)\<lparr>in_queue := in_queue m'\<rparr>"
    and q: "if in_queue m' = in_queue (shm ?w) then sent = 0
      else sent \<le> 1 \<and> (\<exists>f. items (in_queue m') = in_items s @ [f] \<and> block_of (now_ns env) buffers frames channels f)" by blast
  let ?s = "s\<lparr>se_ctx := c', se_worker := ?w\<lparr>shm := m'\<rparr>, ev_send := ev_send s + sent,
    se_sent := se_sent s @ drop (length (in_items s)) (items (in_queue m'))\<rparr>"
  have same: "out_queue m' = out_queue (shm ?w)" "control_bus m' = control_bus (shm ?w)"
    "memory_request_bus m' = memory_request_bus (shm ?w)" by (subst d(3), simp)+
  have eq: "do_dispatch env buffers frames channels s = Inr ?s" using d(1) by (simp add: do_dispatch_def)
  show ?thesis
  proof (cases "in_queue m' = in_queue (shm ?w)")
    case True
    then have "session_live ?s" using assms(1) d(2) same by (simp add: session_live_def pending_ok_def worker_ok_def ctx_ok_def)
    moreover have "pipeline_of ?s = pipeline_of s" using True q same(1) by (simp add: pipeline_of_def)
    ultimately show ?thesis using eq pipe_step.Refuse by metis
  next
    case False
    with q obtain f where f: "items (in_queue m') = in_items s @ [f]" "block_of (now_ns env) buffers frames channels f" "sent \<le> 1" by auto
    have w: "session_live ?s"
      using assms(1) d(2) same f(1,2) block_of_nonempty [OF f(2) assms(3)]
      by (simp add: session_live_def pending_ok_def worker_ok_def ctx_ok_def queue_bounded_def block_of_def)
    from session_liveD(7) [OF this] f(1) have "length (in_items s) < 15" by simp
    then have "pipe_step (pipeline_of s) ((pipeline_of s)\<lparr>pl_waiting := pl_waiting (pipeline_of s) @ [tag_of f],
        pl_rung := pl_rung (pipeline_of s) + sent, pl_sent := pl_sent (pipeline_of s) @ [tag_of f]\<rparr>)"
      using f(3) by (intro pipe_step.Send) (simp_all add: stage_room_def)
    moreover have "pipeline_of ?s = (pipeline_of s)\<lparr>pl_waiting := pl_waiting (pipeline_of s) @ [tag_of f],
        pl_rung := pl_rung (pipeline_of s) + sent, pl_sent := pl_sent (pipeline_of s) @ [tag_of f]\<rparr>"
      using f(1) same(1) by (simp add: pipeline_of_def)
    ultimately show ?thesis using eq w by metis
  qed
qed

lemma do_read_ok:
  assumes "session_live s" "call_ok buffers 256 channels" "channels < 2 ^ 31"
  shows "\<exists>s'. do_read now buffers frames channels s = Inr s' \<and> session_live s' \<and> pipe_step (pipeline_of s) (pipeline_of s')"
proof (cases "0 < ev_recv s \<and> out_items s \<noteq> []")
  case False
  then have "do_read now buffers frames channels s = Inr (s\<lparr>ev_recv := 0\<rparr>)"
    using do_read_nothing [OF assms(1)] by auto
  moreover have "pipe_step (pipeline_of s) (pipeline_of (s\<lparr>ev_recv := 0\<rparr>))"
    using pipe_step.Silence [of "pipeline_of s"] False by (simp add: pipeline_of_def)
  moreover have "session_live (s\<lparr>ev_recv := 0\<rparr>)" using assms(1) by (simp add: session_live_def pending_ok_def)
  ultimately show ?thesis by blast
next
  case True
  let ?w = "se_worker s"
  note wf = session_liveD [OF assms(1)]
  obtain f fs where f: "out_items s = f # fs" using True by (cases "out_items s") auto
  have fb: "frame_bounded f" using wf(9) f by (simp add: queue_bounded_def)
  then have n: "unat (frame_count f) \<le> 256" by (simp add: frame_bounded_def MAX_FRAMES_def)
  have "call_ok buffers (int (unat (frame_count f))) channels"
    using assms(2) clamp_frames_of_nat [OF n] n clamp_frames_of_nat [of 256]
    by (auto simp: call_ok_def list_all_iff)
  from read_something [OF wf(2) _ f fb this assms(3), of "\<lparr>poll_result = 1, end_ns = now\<rparr>" frames] obtain c' q bufs where
    r: "sdk_read_output True \<lparr>poll_result = 1, end_ns = now\<rparr> (Some (se_ctx s)) buffers frames channels (shm ?w) =
      Inr (True, bufs, Some c', (shm ?w)\<lparr>out_queue := q\<rparr>)" "items q = fs" "ctx_ok c' ((shm ?w)\<lparr>out_queue := q\<rparr>)" by auto
  let ?s = "s\<lparr>se_ctx := c', se_worker := ?w\<lparr>shm := (shm ?w)\<lparr>out_queue := q\<rparr>\<rparr>, ev_recv := 0, se_got := se_got s @ [f],
    se_heard := se_heard s @ [bufs]\<rparr>"
  have "session_live ?s"
    using assms(1) r(2,3) f by (simp add: session_live_def pending_ok_def worker_ok_def ctx_ok_def queue_bounded_def)
  moreover have "pipe_step (pipeline_of s) (pipeline_of ?s)"
    using pipe_step.Hear [of "pipeline_of s" "tag_of f" "map tag_of fs"] True f r(2) by (simp add: pipeline_of_def)
  moreover have "do_read now buffers frames channels s = Inr ?s" using True r(1) f by (simp add: do_read_def)
  ultimately show ?thesis by blast
qed

text \<open>What an iteration does with the waiting block is a step of the pipeline.\<close>

lemma audio_result_step:
  fixes s w
  defines "fs \<equiv> if 0 < ev_send s then in_items s else []"
  assumes live: "session_live s"
    and out: "audio_result fs (out_queue (shm (se_worker s))) (out_queue (shm w))"
    and queue: "items (in_queue (shm w)) = (if 0 < ev_send s then drop 1 (in_items s) else in_items s)"
    and k: "k \<le> 1" "fs = [] \<Longrightarrow> k = 0"
  shows "pipe_step (pipeline_of s) (pipeline_of (s\<lparr>se_worker := w, ev_send := 0, ev_recv := ev_recv s + k\<rparr>))"
proof (cases fs)
  case Nil
  then have "items (in_queue (shm w)) = in_items s" using queue by (auto simp: fs_def split: if_splits)
  moreover have "out_queue (shm w) = out_queue (shm (se_worker s))" using out Nil by (simp add: audio_result_def)
  ultimately show ?thesis
    using pipe_step.Idle [of "pipeline_of s"] Nil k(2) by (auto simp: fs_def pipeline_of_def split: if_splits)
next
  case (Cons f fs')
  then have i: "0 < ev_send s" "in_items s = f # fs'" "items (in_queue (shm w)) = fs'"
    using queue by (auto simp: fs_def split: if_splits)
  note wf = session_liveD [OF live]
  from out Cons obtain f' where f': "same_block f f'"
    "if length (out_items s) < 15 then \<exists>g. delivers f' g \<and> items (out_queue (shm w)) = out_items s @ [g]
     else out_queue (shm w) = out_queue (shm (se_worker s))" by (auto simp: audio_result_def wf(6))
  show ?thesis
  proof (cases "length (out_items s) < 15")
    case True
    then obtain g where g: "delivers f' g" "items (out_queue (shm w)) = out_items s @ [g]" using f'(2) by auto
    have "tag_of g = tag_of f" using g(1) same_block_fields [OF f'(1)] by (simp add: tag_of_def delivers_def)
    then show ?thesis
      using pipe_step.Deliver [of "pipeline_of s" "tag_of f" "map tag_of fs'" k] i g(2) True k(1)
      by (simp add: pipeline_of_def stage_room_def)
  next
    case False
    then have "length (out_items s) = 15" using wf(8) by simp
    then show ?thesis
      using pipe_step.Drop [of "pipeline_of s" "tag_of f" "map tag_of fs'" k] i f'(2) k(1)
      by (simp add: pipeline_of_def stage_room_def)
  qed
qed

lemma do_work_ok:
  assumes "session_live s" "env_ok env"
  shows "\<exists>s'. do_work api front env s = Inr s' \<and> session_live s' \<and> pipe_step (pipeline_of s) (pipeline_of s')"
proof -
  note wf = session_liveD [OF assms(1)]
  let ?w = "se_worker s" and ?env = "env\<lparr>poll_ready := (0 < ev_send s), read_ok := True\<rparr>"
  have e: "env_ok ?env" using assms(2) by (simp add: env_ok_def)
  let ?fs = "if 0 < ev_send s then in_items s else []"
  from iteration_ok [OF wf(1,3) e, of api front] obtain w where
    w: "worker_iteration (real_ops api) front ?env ?w = Inr w" "worker_ok real_node_ok w" "items (control_bus (shm w)) = []"
      "items (in_queue (shm w)) = (if 0 < ev_send s then drop 1 (in_items s) else in_items s)"
      "audio_result ?fs (out_queue (shm ?w)) (out_queue (shm w))" "items (memory_request_bus (shm w)) = []"
    by auto
  define k where "k = signals w - signals ?w"
  have "ring_wf (in_queue (shm ?w))" using ring_ofD(1) [OF worker_okD(4) [OF wf(1)]] .
  from iteration_rings [OF w(1)] peek_read_iff [OF this] have k: "k \<le> 1" "?fs = [] \<Longrightarrow> k = 0"
    by (auto simp: k_def split: if_splits)
  have nz: "list_all (\<lambda>f. frame_count f \<noteq> 0) (items (in_queue (shm w)))"
    using w(4) wf(4) by (auto simp: list_all_iff dest: in_set_dropD split: if_splits)
  then have "session_live (s\<lparr>se_worker := w, ev_send := 0, ev_recv := ev_recv s + k\<rparr>)"
    using assms(1) w(2,3,6) worker_okD(1) [OF w(2)] by (simp add: session_live_def pending_ok_def ctx_ok_def)
  with audio_result_step [OF assms(1) w(5,4) k] w(1) show ?thesis by (simp add: do_work_def k_def)
qed

text \<open>The other calls do not touch the audio path.\<close>

lemma set_shm_live:
  assumes "session_live s" "shm_wf m" "in_queue m = in_queue (shm (se_worker s))" "out_queue m = out_queue (shm (se_worker s))"
    and "list_all (\<lambda>e. real_event_ok (parameter_id e) (evt_value e)) (items (control_bus m))"
    and "list_all (\<lambda>r. req_type r \<noteq> UPLOAD) (items (memory_request_bus m))"
  shows "session_live (set_shm m s) \<and> pipeline_of (set_shm m s) = pipeline_of s"
  using assms by (simp add: session_live_def set_shm_def worker_ok_def ctx_ok_def pending_ok_def pipeline_of_def)

text \<open>What is pushed is on the bus afterwards, or the bus is full and stays.\<close>

lemma push_list_all:
  assumes "ring_of P n q" "P x" "list_all Q (items q)" "Q x"
  shows "list_all Q (items (snd (push q x)))"
  using ring_ofD(1) [OF assms(1)] assms(3,4) by (cases rule: push_cases [where x = x]) simp_all

lemma live_buses:
  assumes "session_live s"
  shows "cx_shm (se_ctx s)" "shm_wf (shm (se_worker s))" "ring_of (\<lambda>e. True) 64 (control_bus (shm (se_worker s)))"
    "ring_of (\<lambda>r. True) 32 (memory_request_bus (shm (se_worker s)))" "ring_of log_entry_wf 32 (log_bus (shm (se_worker s)))"
    "list_all (\<lambda>e. real_event_ok (parameter_id e) (evt_value e)) (items (control_bus (shm (se_worker s))))"
    "list_all (\<lambda>r. req_type r \<noteq> UPLOAD) (items (memory_request_bus (shm (se_worker s))))"
  using assms by (simp_all add: session_live_def ctx_ok_def shm_wf_def pending_ok_def)

lemma do_param_ok:
  assumes "session_live s" "real_event_ok k v"
  shows "session_live (do_param k v s) \<and> pipeline_of (do_param k v s) = pipeline_of s"
proof -
  note b = live_buses [OF assms(1)]
  let ?e = "\<lparr>parameter_id = k, evt_value = v\<rparr>"
  obtain ok q where p: "push (control_bus (shm (se_worker s))) ?e = (ok, q)" by fastforce
  have "list_all (\<lambda>e. real_event_ok (parameter_id e) (evt_value e)) (items (snd (push (control_bus (shm (se_worker s))) ?e)))"
    using assms(2) by (intro push_list_all [OF b(3) TrueI b(6)]) simp
  moreover have "snd (sdk_set_param (Some (se_ctx s)) k v (shm (se_worker s))) = (shm (se_worker s))\<lparr>control_bus := q\<rparr>"
    using b(1) p by (simp add: sdk_set_param_def)
  ultimately show ?thesis
    unfolding do_param_def using b ring_of_push [OF b(3) TrueI p] p
    by (intro set_shm_live [OF assms(1)]) (simp_all add: shm_wf_def)
qed

lemma do_free_ok:
  assumes "session_live s"
  shows "session_live (do_free h s) \<and> pipeline_of (do_free h s) = pipeline_of s"
proof -
  note b = live_buses [OF assms]
  let ?r = "\<lparr>request_id = 0, req_type = FREE, req_size = 0, req_handle = h, shm_offset = 0\<rparr>"
  obtain ok q where p: "push (memory_request_bus (shm (se_worker s))) ?r = (ok, q)" by fastforce
  have "list_all (\<lambda>r. req_type r \<noteq> UPLOAD) (items (snd (push (memory_request_bus (shm (se_worker s))) ?r)))"
    by (intro push_list_all [OF b(4) TrueI b(7)]) simp
  with b ring_of_push [OF b(4) TrueI p] p have "session_live (set_shm ((shm (se_worker s))\<lparr>memory_request_bus := q\<rparr>) s) \<and>
      pipeline_of (set_shm ((shm (se_worker s))\<lparr>memory_request_bus := q\<rparr>) s) = pipeline_of s"
    by (intro set_shm_live [OF assms]) (simp_all add: shm_wf_def)
  moreover have "session_live (set_shm (shm (se_worker s)) s) \<and> pipeline_of (set_shm (shm (se_worker s)) s) = pipeline_of s"
    using b by (intro set_shm_live [OF assms]) simp_all
  ultimately show ?thesis using p by (simp add: do_free_def sdk_free_vram_def)
qed

lemma do_fetch_log_ok:
  assumes "session_live s"
  shows "session_live (do_fetch_log t g l s) \<and> pipeline_of (do_fetch_log t g l s) = pipeline_of s"
proof -
  note b = live_buses [OF assms]
  obtain r q where p: "pop (log_bus (shm (se_worker s))) = (r, q)" by fastforce
  have "do_fetch_log t g l s = set_shm ((shm (se_worker s))\<lparr>log_bus := q\<rparr>) s"
    using b(1) p by (simp add: do_fetch_log_def sdk_fetch_log_def split: option.split)
  moreover have "session_live (set_shm ((shm (se_worker s))\<lparr>log_bus := q\<rparr>) s) \<and>
      pipeline_of (set_shm ((shm (se_worker s))\<lparr>log_bus := q\<rparr>) s) = pipeline_of s"
    using b ring_of_pop [OF b(5) p] by (intro set_shm_live [OF assms]) (simp_all add: shm_wf_def)
  ultimately show ?thesis by simp
qed

lemma do_bypass_ok:
  assumes "session_live s"
  shows "\<exists>s'. do_bypass b s = Inr s' \<and> session_live s' \<and> pipeline_of s' = pipeline_of s"
proof -
  note l = live_buses [OF assms]
  have "\<exists>ws. sdk_set_zero_copy_bypass (Some (se_ctx s)) b (shm (se_worker s)) = Inr ((shm (se_worker s))\<lparr>workers := ws\<rparr>) \<and> length ws = 8"
    using ctx_control_block [OF session_liveD(2) [OF assms]] l(1,2)
    by (auto simp: sdk_set_zero_copy_bypass_def update_control_block_def shm_wf_def)
  then obtain ws where w: "sdk_set_zero_copy_bypass (Some (se_ctx s)) b (shm (se_worker s)) = Inr ((shm (se_worker s))\<lparr>workers := ws\<rparr>)"
    "length ws = 8" by blast
  have "session_live (set_shm ((shm (se_worker s))\<lparr>workers := ws\<rparr>) s) \<and>
      pipeline_of (set_shm ((shm (se_worker s))\<lparr>workers := ws\<rparr>) s) = pipeline_of s"
    using l w(2) by (intro set_shm_live [OF assms]) (simp_all add: shm_wf_def)
  with w(1) show ?thesis by (simp add: do_bypass_def)
qed

lemma step_refines:
  "session_step api s s' \<Longrightarrow> session_live s \<Longrightarrow> session_live s' \<and> pipe_step (pipeline_of s) (pipeline_of s')"
proof (induction rule: session_step.induct)
  case (Dispatch buffers frames channels env s s')
  then show ?case using do_dispatch_ok by (metis sum.inject(2))
next
  case (Read buffers channels now frames s s')
  then show ?case using do_read_ok by (metis sum.inject(2))
next
  case (Work env front s s')
  then show ?case using do_work_ok by (metis sum.inject(2))
next
  case (Param k v s)
  then show ?case using do_param_ok [of s k v] pipe_step.Refuse by simp
next
  case (Log s t g l)
  then show ?case using do_fetch_log_ok [of s t g l] pipe_step.Refuse by simp
next
  case (Free s h)
  then show ?case using do_free_ok [of s h] pipe_step.Refuse by simp
next
  case (Bypass b s s')
  then show ?case using do_bypass_ok [of s b] pipe_step.Refuse by (metis sum.inject(2))
qed

lemma run_refines:
  "(session_step api)\<^sup>*\<^sup>* s s' \<Longrightarrow> session_live s \<Longrightarrow> session_live s' \<and> pipe_step\<^sup>*\<^sup>* (pipeline_of s) (pipeline_of s')"
  by (induction rule: rtranclp_induct) (auto dest: step_refines intro: rtranclp.rtrancl_into_rtrancl)

lemma run_ordered:
  assumes "(session_step api)\<^sup>*\<^sup>* s s'" "session_live s" "ordered (pipeline_of s)"
  shows "ordered (pipeline_of s')"
proof -
  have "pipe_step\<^sup>*\<^sup>* p p' \<Longrightarrow> ordered p \<Longrightarrow> ordered p'" for p p' :: "(u32 \<times> u32 \<times> u64) pipeline"
    by (induction rule: rtranclp_induct) (auto dest: ordered_step)
  with run_refines [OF assms(1,2)] assms(3) show ?thesis by blast
qed

section \<open>Each operation when it succeeds\<close>

text \<open>The worker is heard of: its last error is none and the watchdog would not give up on it.\<close>

definition healthy_link :: "session \<Rightarrow> bool" where
  "healthy_link s \<longleftrightarrow> uint (cx_worker_id (se_ctx s)) = worker_id (se_worker s) \<and>
     last_error (my_block (se_worker s)) = NO_ERROR \<and>
     \<not> 10 < heartbeat_stalled_count (watchdog (heartbeat (my_block (se_worker s))) (se_ctx s))"

lemma link_block:
  assumes "healthy_link s"
  shows "ctx_block (se_ctx s) (shm (se_worker s)) = my_block (se_worker s)"
proof -
  have "nat (uint (cx_worker_id (se_ctx s))) = nat (worker_id (se_worker s))" using assms by (simp only: healthy_link_def)
  then have "unat (cx_worker_id (se_ctx s)) = nat (worker_id (se_worker s))" by (simp only: nat_uint_eq)
  then show ?thesis by (simp only: ctx_block_def my_block_def)
qed

lemma send_any:
  assumes "session_wf s" "healthy_link s" "call_ok buffers frames channels" "0 < frames" "length (in_items s) < 15"
  shows "\<exists>s' f c m. do_dispatch env buffers frames channels s = Inr s' \<and> session_wf s' \<and> in_items s' = in_items s @ [f] \<and>
    block_of (now_ns env) buffers frames channels f \<and> out_items s' = out_items s \<and>
    s' = s\<lparr>se_ctx := c, se_worker := (se_worker s)\<lparr>shm := m\<rparr>, ev_send := ev_send s + (if signal_ok env then 1 else 0), se_sent := se_sent s @ [f]\<rparr> \<and>
    my_block (se_worker s') = my_block (se_worker s) \<and> cx_worker_id c = cx_worker_id (se_ctx s) \<and>
    last_worker_heartbeat c = heartbeat (my_block (se_worker s)) \<and>
    heartbeat_stalled_count c = heartbeat_stalled_count (watchdog (heartbeat (my_block (se_worker s))) (se_ctx s))"
proof -
  note wf = session_wfD [OF assms(1)]
  let ?c = "se_ctx s" and ?m = "shm (se_worker s)"
  note lb = link_block [OF assms(2)]
  have h: "last_error (ctx_block ?c ?m) = NO_ERROR" "\<not> 10 < heartbeat_stalled_count (watchdog (heartbeat (ctx_block ?c ?m)) ?c)"
    using assms(2) unfolding lb by (simp_all add: healthy_link_def)
  have room: "length (in_items s) \<noteq> 15" using assms(5) by simp
  from dispatch_step [OF wf(2) h(1) assms(3) h(2), of env] room obtain ok c m f where
    d: "sdk_dispatch True env (Some ?c) buffers frames channels ?m = Inr (ok, Some c, m, if signal_ok env then 1 else 0)" "shm_wf m" "m\<lparr>in_queue := in_queue ?m\<rparr> = ?m"
      "items (in_queue m) = in_items s @ [f]" "block_of (now_ns env) buffers frames channels f" by (auto split: if_split_asm)
  note m = in_queue_update_eq [OF d(3)]
  note cx = dispatch_context [OF d(1) wf(2) h(1), unfolded lb]
  let ?s = "s\<lparr>se_ctx := c, se_worker := (se_worker s)\<lparr>shm := m\<rparr>, ev_send := ev_send s + (if signal_ok env then 1 else 0), se_sent := se_sent s @ [f]\<rparr>"
  have same: "out_queue m = out_queue ?m" "control_bus m = control_bus ?m" "memory_request_bus m = memory_request_bus ?m" by (subst m, simp)+
  have "session_wf ?s"
    using assms(1) d(2,4,5) same cx block_of_nonempty [OF d(5) assms(4)]
    by (auto simp: session_wf_def worker_ok_def ctx_ok_def queue_bounded_def block_of_def)
  moreover have "do_dispatch env buffers frames channels s = Inr ?s" using d(1,4) by (simp add: do_dispatch_def)
  ultimately show ?thesis using d(4,5) same(1) cx
    by (intro exI [of _ ?s] exI [of _ f] exI [of _ c] exI [of _ m]) (simp add: my_block_def)
qed

lemma send_one:
  assumes "session_wf s" "healthy_link s" "call_ok buffers frames channels" "0 < frames" "signal_ok env" "length (in_items s) < 15"
  shows "\<exists>s' f c m. do_dispatch env buffers frames channels s = Inr s' \<and> session_wf s' \<and> in_items s' = in_items s @ [f] \<and>
    block_of (now_ns env) buffers frames channels f \<and> out_items s' = out_items s \<and>
    s' = s\<lparr>se_ctx := c, se_worker := (se_worker s)\<lparr>shm := m\<rparr>, ev_send := Suc (ev_send s), se_sent := se_sent s @ [f]\<rparr> \<and>
    my_block (se_worker s') = my_block (se_worker s) \<and> cx_worker_id c = cx_worker_id (se_ctx s) \<and>
    last_worker_heartbeat c = heartbeat (my_block (se_worker s)) \<and>
    heartbeat_stalled_count c = heartbeat_stalled_count (watchdog (heartbeat (my_block (se_worker s))) (se_ctx s))"
  using send_any [OF assms(1-4,6), of env] assms(5) by simp

lemma work_one:
  assumes "session_wf s" "0 < ev_send s" "in_items s = f # fs" "length (out_items s) < 15" "env_ok env" "write_ok env"
  shows "\<exists>s' w d. do_work api front env s = Inr s' \<and> session_wf s' \<and> in_items s' = fs \<and> out_items s' = out_items s @ [d] \<and>
    s' = s\<lparr>se_worker := w, ev_send := 0, ev_recv := Suc (ev_recv s)\<rparr> \<and> worker_id w = worker_id (se_worker s) \<and>
    heartbeat (my_block w) = heartbeat (my_block (se_worker s)) + 1 \<and>
    (passes_audio (se_worker s) \<longrightarrow> passes_audio w \<and> delivers f d \<and> submits api (nodes w 0) = submits api (nodes (se_worker s) 0) \<and>
      (submits api (nodes (se_worker s) 0) \<longrightarrow> last_error (my_block w) = last_error (my_block (se_worker s))))"
proof -
  note wf = session_wfD [OF assms(1)]
  let ?w = "se_worker s" and ?env = "env\<lparr>poll_ready := (0 < ev_send s), read_ok := True\<rparr>"
  have e: "env_ok ?env" "poll_ready ?env" "read_ok ?env" using assms(2,5) by (simp_all add: env_ok_def)
  have q: "items (control_bus (shm ?w)) = []" "items (memory_request_bus (shm ?w)) = []" using assms(1) by (simp_all add: session_wf_def)
  have nz: "frame_count f \<noteq> 0" "list_all (\<lambda>f. frame_count f \<noteq> 0) fs" using wf(4) by (simp_all add: assms(3))
  have o: "length (items (out_queue (shm ?w))) < ring_room (out_queue (shm ?w))" using assms(4) by (simp only: wf(6))
  from wakeup_iteration [OF wf(1) q e assms(3) nz o, of api front] obtain split addr ok g f' st w d where
    r: "run_graph (real_ops api) split (graph ?w) ((nodes ?w)(primary_node ?w := set_zero_copy_bypass (real_ops api) (nodes ?w (primary_node ?w))
        (bypass_zero_copy (my_block ?w)) (shm_fd ?w) (of_nat (c_size layout_DspSharedMemory)))) f addr = Inr (ok, g, f', st)"
    and w: "worker_iteration (real_ops api) front ?env ?w = Inr w" "delivers f' d" "items (out_queue (shm w)) = out_items s @ [d]"
      "items (in_queue (shm w)) = fs" "worker_ok real_node_ok w" "items (control_bus (shm w)) = []" "items (memory_request_bus (shm w)) = []"
      "graph w = g" "nodes w = st" "worker_id w = worker_id ?w" "primary_node w = primary_node ?w"
      "signals w = signals ?w + (if retry_write (write_interrupts ?env) (write_ok ?env) then 1 else 0)"
      "heartbeat (my_block w) = heartbeat (my_block ?w) + 1" "bypass_zero_copy (my_block w) = bypass_zero_copy (my_block ?w)"
      "last_error (my_block w) = (if ok then last_error (my_block ?w) else DEVICE_LOST)" by blast
  let ?s = "s\<lparr>se_worker := w, ev_send := 0, ev_recv := Suc (ev_recv s)\<rparr>"
  have sg: "signals w = Suc (signals ?w)" using w(12) assms(6) by simp
  have plain: "passes_audio w \<and> delivers f d \<and> submits api (nodes w 0) = submits api (nodes ?w 0) \<and>
      (submits api (nodes ?w 0) \<longrightarrow> last_error (my_block w) = last_error (my_block ?w))" if n: "passes_audio ?w"
  proof -
    have g: "execution_order (graph ?w) = [0]" "primary_node ?w = 0" "\<not> bypass_zero_copy (my_block ?w)"
      using n by (simp_all add: passes_audio_def)
    from plain_graph_runs [OF r g(1)] plain_bypassed [OF n, of api] g(2)
    have "f' = f \<and> execution_order g = [0] \<and> plain_node (st 0) \<and> submits api (st 0) = submits api (nodes ?w 0) \<and> (submits api (nodes ?w 0) \<longrightarrow> ok)"
      by simp
    then show ?thesis using w g by (simp add: passes_audio_def)
  qed
  have "session_wf ?s"
    using assms(1) w(4-7) nz(2) worker_okD(1) [OF w(5)] by (simp add: session_wf_def ctx_ok_def)
  moreover have "do_work api front env s = Inr ?s" using w(1) sg by (simp add: do_work_def)
  ultimately show ?thesis using w(3,4,10,13) plain
    by (intro exI [of _ ?s] exI [of _ w] exI [of _ d]) simp
qed

lemma read_one:
  assumes "session_wf s" "0 < ev_recv s" "out_items s = f # fs" "holds (clamp_frames frames) (clamp_channels channels) buffers f"
    and "call_ok out frames channels" "channels < 2 ^ 31"
  shows "\<exists>s' c q. do_read now out frames channels s = Inr s' \<and> session_wf s' \<and> in_items s' = in_items s \<and> out_items s' = fs \<and>
    s' = s\<lparr>se_ctx := c, se_worker := (se_worker s)\<lparr>shm := (shm (se_worker s))\<lparr>out_queue := q\<rparr>\<rparr>, ev_recv := 0,
      se_got := se_got s @ [f], se_heard := se_heard s @ [echoed (clamp_frames frames) (clamp_channels channels) buffers out]\<rparr> \<and>
    cx_worker_id c = cx_worker_id (se_ctx s) \<and> last_worker_heartbeat c = last_worker_heartbeat (se_ctx s) \<and>
    heartbeat_stalled_count c = heartbeat_stalled_count (se_ctx s)"
proof -
  note wf = session_wfD [OF assms(1)]
  let ?e = "echoed (clamp_frames frames) (clamp_channels channels) buffers out"
  from read_holds [OF wf(2) _ assms(3-6), of "\<lparr>poll_result = 1, end_ns = now\<rparr>"] obtain c q where
    r: "sdk_read_output True \<lparr>poll_result = 1, end_ns = now\<rparr> (Some (se_ctx s)) out frames channels (shm (se_worker s)) =
      Inr (True, ?e, Some c, (shm (se_worker s))\<lparr>out_queue := q\<rparr>)" "items q = fs"
      "ctx_ok c ((shm (se_worker s))\<lparr>out_queue := q\<rparr>)" by auto
  let ?s = "s\<lparr>se_ctx := c, se_worker := (se_worker s)\<lparr>shm := (shm (se_worker s))\<lparr>out_queue := q\<rparr>\<rparr>, ev_recv := 0,
      se_got := se_got s @ [f], se_heard := se_heard s @ [?e]\<rparr>"
  have "session_wf ?s" using assms(1) r(2,3) assms(3) by (simp add: session_wf_def worker_ok_def ctx_ok_def queue_bounded_def)
  moreover have "do_read now out frames channels s = Inr ?s" using assms(2,3) r(1) by (simp add: do_read_def)
  ultimately show ?thesis using r(2) read_context [OF r(1)] by (intro exI [of _ ?s] exI [of _ c] exI [of _ q]) simp
qed

section \<open>Properties\<close>

text \<open>Nothing has been sent yet.\<close>

definition fresh :: "session \<Rightarrow> bool" where
  "fresh s \<longleftrightarrow> session_wf s \<and> blocks s = [] \<and> se_sent s = [] \<and> ev_send s = 0 \<and> ev_recv s = 0 \<and> se_heard s = []"

lemma fresh_pipeline: "fresh s \<Longrightarrow> session_live s \<and> ordered (pipeline_of s) \<and> awaited (pipeline_of s)"
  using wf_live by (auto simp: fresh_def ordered_def awaited_def blocks_def)

text \<open>
  C3: A session is a pipeline: from every state in which both sides can run, each call of either side, with
  whatever the system and the Vulkan API answer it, leaves them able to run and is one step of the
  pipeline of tags, or none. So every schedule of calls is a run of the pipeline.
\<close>

theorem session_refines_pipeline:
  assumes "session_live s" "(session_step api)\<^sup>*\<^sup>* s s'" "session_step api s' s''"
  shows "session_live s' \<and> pipe_step\<^sup>*\<^sup>* (pipeline_of s) (pipeline_of s') \<and> session_live s'' \<and> pipe_step (pipeline_of s') (pipeline_of s'')"
  using run_refines [OF assms(2,1)] step_refines [OF assms(3)] by blast

text \<open>
  C2: Whatever the Vulkan API answers and in whatever order the library's dispatches and read-backs, its
  changes of parameters and of the zero-copy mode, its requests to free buffers, its reading of the log
  and the worker's iterations follow each other, the plugin reads back a subsequence of the blocks it sent, in
  their order and each at most once, none is invented, and no operation of either side fails; as long
  as at most 15 blocks have been sent none is lost: those read back, those processed and those waiting
  are together, in this order, exactly those sent.
\<close>

theorem plugin_receives_in_order:
  assumes "fresh s0" "(session_step api)\<^sup>*\<^sup>* s0 s"
    and "call_ok buffers frames channels" "0 < frames" "call_ok out 256 channels" "channels < 2 ^ 31" "env_ok env"
  shows "subseq (map tag_of (se_got s)) (map tag_of (se_sent s)) \<and>
    (length (se_sent s) \<le> 15 \<longrightarrow> map tag_of (se_got s @ out_items s @ in_items s) = map tag_of (se_sent s)) \<and>
    (\<exists>s'. do_dispatch denv buffers frames channels s = Inr s') \<and> (\<exists>s'. do_read now out frames channels s = Inr s') \<and>
    (\<exists>s'. do_work api front env s = Inr s')"
proof -
  have s: "session_live s" "ordered (pipeline_of s)"
    using fresh_pipeline [OF assms(1)] run_refines [OF assms(2)] run_ordered [OF assms(2)] by blast+
  have "subseq (map tag_of (se_got s)) (transit (pipeline_of s))" by (simp add: prefix_imp_subseq)
  then have "subseq (map tag_of (se_got s)) (map tag_of (se_sent s))"
    using s(2) unfolding ordered_def by (auto intro: subseq_order.trans)
  moreover have "length (se_sent s) \<le> 15 \<longrightarrow> map tag_of (se_got s @ out_items s @ in_items s) = map tag_of (se_sent s)"
    using s(2) by (simp add: ordered_def stage_room_def)
  moreover note do_dispatch_ok [OF s(1) assms(3,4), of denv] do_read_ok [OF s(1) assms(5,6), of now frames]
    do_work_ok [OF s(1) assms(7), of api front]
  ultimately show ?thesis by blast
qed

section \<open>Witnesses\<close>

definition demo_session :: session where
  "demo_session = \<lparr>se_ctx = demo_ctx, se_worker = idle_worker, ev_send = 0, ev_recv = 0, se_sent = [], se_got = [], se_heard = []\<rparr>"

lemma demo_session_facts:
  "fresh demo_session" "last_error (my_block (se_worker demo_session)) = NO_ERROR"
  "uint (cx_worker_id (se_ctx demo_session)) = worker_id (se_worker demo_session)" "heartbeat_stalled_count (se_ctx demo_session) = 0"
  "healthy_link demo_session"
proof -
  show f: "fresh demo_session"
    using idle_worker_facts demo_ctx_ok(1) by (simp add: fresh_def demo_session_def session_wf_def blocks_def)
  have w: "worker_id idle_worker = 1" by (simp add: idle_worker_def demo_worker_def)
  have b: "my_block idle_worker = wcb_zero" by (simp add: my_block_def w idle_worker_facts(4))
  show l: "last_error (my_block (se_worker demo_session)) = NO_ERROR"
    "uint (cx_worker_id (se_ctx demo_session)) = worker_id (se_worker demo_session)" "heartbeat_stalled_count (se_ctx demo_session) = 0"
    using b by (simp_all add: demo_session_def w demo_ctx_def new_ctx_def wcb_zero_def)
  show "healthy_link demo_session"
    using l b by (simp add: healthy_link_def demo_session_def watchdog_def demo_ctx_def new_ctx_def wcb_zero_def)
qed

lemma demo_signals: "signal_ok demo_dispatch" "env_ok demo_env" "write_ok demo_env"
  by (simp_all add: demo_dispatch_def demo_env_def env_ok_def)

definition silence :: "f32 list list" where
  "silence = [replicate 64 f32_zero, replicate 64 f32_zero]"

lemma silence_ok: "call_ok silence 64 2" "call_ok [replicate 256 f32_zero, replicate 256 f32_zero] 256 2"
  by (simp_all add: call_ok_def silence_def clamp_frames_def clamp_channels_def)

theorem plugin_receives_in_order_witness:
  "\<exists>s s'. do_dispatch demo_dispatch demo_buffers 64 2 demo_session = Inr s \<and> length (se_sent s) = 1 \<and>
     map tag_of (se_got s @ out_items s @ in_items s) = map tag_of (se_sent s) \<and> do_work demo_api [] demo_env s = Inr s'"
proof -
  note d = demo_session_facts
  have s0: "session_wf demo_session" "in_items demo_session = []" "se_sent demo_session = []"
    using d(1) by (simp_all add: fresh_def blocks_def)
  have z: "(0::int) < 64" "(2::int) < 2 ^ 31" "length (in_items demo_session) < 15" unfolding s0(2) by simp_all
  from send_one [OF s0(1) d(5) demo_call_ok z(1) demo_signals(1) z(3)] s0(3) obtain s where
    s: "do_dispatch demo_dispatch demo_buffers 64 2 demo_session = Inr s" "length (se_sent s) = 1" by auto
  have "(session_step demo_api)\<^sup>*\<^sup>* demo_session s"
    using session_step.Dispatch [OF demo_call_ok z(1) s(1)] by (rule r_into_rtranclp)
  from plugin_receives_in_order [OF d(1) this demo_call_ok z(1) silence_ok(2) z(2) demo_signals(2)] s show ?thesis by fastforce
qed

theorem session_refines_pipeline_witness:
  "\<exists>s s'. do_dispatch demo_dispatch demo_buffers 64 2 demo_session = Inr s \<and> do_work demo_api [] demo_env s = Inr s' \<and>
     pipe_step (pipeline_of s) (pipeline_of s')"
proof -
  have s0: "session_live demo_session" using fresh_pipeline [OF demo_session_facts(1)] by simp
  have z: "(0::int) < 64" by simp
  from do_dispatch_ok [OF s0 demo_call_ok z] obtain s where
    s: "do_dispatch demo_dispatch demo_buffers 64 2 demo_session = Inr s" "session_live s" by blast
  from do_work_ok [OF s(2) demo_signals(2), of demo_api "[]"] obtain s' where s': "do_work demo_api [] demo_env s = Inr s'" by blast
  have "(session_step demo_api)\<^sup>*\<^sup>* demo_session s"
    using session_step.Dispatch [OF demo_call_ok z s(1)] by (rule r_into_rtranclp)
  from session_refines_pipeline [OF s0 this session_step.Work [OF demo_signals(2) s']] s(1) s' show ?thesis by blast
qed

end
