(* ===== verification/Session_Cycles.thy ===== *)
theory Session_Cycles
  imports Session
begin

text \<open>
  Longer stretches of a session: cycles of a host that dispatches, lets the worker run and reads back, a
  wake-up that is lost, and blocks that are left behind.
\<close>

section \<open>A block in every cycle\<close>

text \<open>
  The session of a worker with a device that takes every submission, with the blocks of the given
  callers on their way: the first are processed, the last \<open>i\<close> wait for the worker.
\<close>

definition steady :: "vk_api \<Rightarrow> nat \<Rightarrow> nat \<Rightarrow> nat \<Rightarrow> f32 list list list \<Rightarrow> session \<Rightarrow> bool" where
  "steady api n k i pend s \<longleftrightarrow> session_wf s \<and> passes_audio (se_worker s) \<and> submits api (nodes (se_worker s) 0) \<and> healthy_link s \<and>
     list_all2 (holds n k) pend (out_items s @ in_items s) \<and> length (in_items s) = i"

lemma holds_worked:
  assumes "list_all2 (holds n k) bs (out @ f # fs)" "delivers f d"
  shows "list_all2 (holds n k) bs ((out @ [d]) @ fs)"
proof -
  obtain xs y ys where x: "bs = xs @ y # ys" "list_all2 (holds n k) xs out" "holds n k y f" "list_all2 (holds n k) ys fs"
    using assms(1) by (auto simp: list_all2_append2 list_all2_Cons2)
  then show ?thesis using holds_delivers [OF x(3) assms(2)] by (simp add: list_all2_appendI)
qed

text \<open>A heartbeat since the last dispatch keeps the link healthy.\<close>

lemma link_after_beat:
  assumes "healthy_link s" "last_error (my_block (se_worker s')) = last_error (my_block (se_worker s))"
    and "cx_worker_id (se_ctx s') = cx_worker_id (se_ctx s)" "worker_id (se_worker s') = worker_id (se_worker s)"
    and "last_worker_heartbeat (se_ctx s') = heartbeat (my_block (se_worker s))"
    and "heartbeat (my_block (se_worker s')) = heartbeat (my_block (se_worker s)) + 1"
  shows "healthy_link s'"
  using assms by (simp add: healthy_link_def watchdog_def)

text \<open>One cycle of the host: a dispatch, an iteration of the worker, a read-back.\<close>

record host_cycle =
  hc_dispatch :: dispatch_env
  hc_work :: loop_env
  hc_read :: u64
  hc_in :: "f32 list list"
  hc_out :: "f32 list list"

definition run_cycle :: "vk_api \<Rightarrow> u8 list \<Rightarrow> int \<Rightarrow> int \<Rightarrow> host_cycle \<Rightarrow> session \<Rightarrow> session outcome" where
  "run_cycle api front frames channels h s =
     (case do_dispatch (hc_dispatch h) (hc_in h) frames channels s of
        Inl e \<Rightarrow> Inl e
      | Inr s1 \<Rightarrow> (case do_work api front (hc_work h) s1 of
          Inl e \<Rightarrow> Inl e
        | Inr s2 \<Rightarrow> do_read (hc_read h) (hc_out h) frames channels s2))"

definition cycle_ok :: "int \<Rightarrow> int \<Rightarrow> host_cycle \<Rightarrow> bool" where
  "cycle_ok frames channels h \<longleftrightarrow> call_ok (hc_in h) frames channels \<and> call_ok (hc_out h) frames channels \<and>
     signal_ok (hc_dispatch h) \<and> env_ok (hc_work h) \<and> write_ok (hc_work h)"

text \<open>Up to the answer of the worker, and the read-back.\<close>

lemma cycle_answered:
  assumes "steady api (clamp_frames frames) (clamp_channels channels) i pend s" "cycle_ok frames channels h" "0 < frames" "length pend < 15"
  shows "\<exists>s1 s2. do_dispatch (hc_dispatch h) (hc_in h) frames channels s = Inr s1 \<and> do_work api front (hc_work h) s1 = Inr s2 \<and>
    steady api (clamp_frames frames) (clamp_channels channels) i (pend @ [hc_in h]) s2 \<and>
    0 < ev_recv s2 \<and> out_items s2 \<noteq> [] \<and> se_heard s2 = se_heard s"
proof -
  let ?n = "clamp_frames frames" and ?k = "clamp_channels channels"
  have s: "session_wf s" "passes_audio (se_worker s)" "submits api (nodes (se_worker s) 0)" "healthy_link s"
    "list_all2 (holds ?n ?k) pend (out_items s @ in_items s)" "length (in_items s) = i" using assms(1) by (simp_all add: steady_def)
  have h: "call_ok (hc_in h) frames channels" "signal_ok (hc_dispatch h)" "env_ok (hc_work h)" "write_ok (hc_work h)"
    using assms(2) by (simp_all add: cycle_ok_def)
  have "length (out_items s) + length (in_items s) < 15" using list_all2_lengthD [OF s(5)] assms(4) by simp
  then have l: "length (in_items s) < 15" "length (out_items s) < 15" by simp_all
  from send_one [OF s(1,4) h(1) assms(3) h(2) l(1)] obtain s1 f c m where
    d: "do_dispatch (hc_dispatch h) (hc_in h) frames channels s = Inr s1" "session_wf s1" "in_items s1 = in_items s @ [f]"
      "block_of (now_ns (hc_dispatch h)) (hc_in h) frames channels f" "out_items s1 = out_items s"
      "s1 = s\<lparr>se_ctx := c, se_worker := (se_worker s)\<lparr>shm := m\<rparr>, ev_send := Suc (ev_send s), se_sent := se_sent s @ [f]\<rparr>"
      "my_block (se_worker s1) = my_block (se_worker s)" "cx_worker_id c = cx_worker_id (se_ctx s)"
      "last_worker_heartbeat c = heartbeat (my_block (se_worker s))" by blast
  have q: "list_all2 (holds ?n ?k) (pend @ [hc_in h]) (out_items s1 @ in_items s1)"
    using s(5) block_of_holds [OF d(4)] by (simp add: d(3,5) list_all2_appendI flip: append_assoc)
  obtain g gs where g: "in_items s1 = g # gs" unfolding d(3) by (cases "in_items s @ [f]") auto
  have n1: "passes_audio (se_worker s1)" "submits api (nodes (se_worker s1) 0)"
    using s(2,3) d(7) unfolding passes_audio_def by (simp_all add: d(6))
  have e1: "0 < ev_send s1" by (simp add: d(6))
  have l1: "length (out_items s1) < 15" unfolding d(5) by (rule l(2))
  from work_one [OF d(2) e1 g l1 h(3,4), of api front] n1 obtain s2 w e where
    w: "do_work api front (hc_work h) s1 = Inr s2" "session_wf s2" "in_items s2 = gs" "out_items s2 = out_items s1 @ [e]"
      "s2 = s1\<lparr>se_worker := w, ev_send := 0, ev_recv := Suc (ev_recv s1)\<rparr>" "worker_id w = worker_id (se_worker s1)"
      "heartbeat (my_block w) = heartbeat (my_block (se_worker s1)) + 1" "passes_audio w" "delivers g e"
      "last_error (my_block w) = last_error (my_block (se_worker s1))" "submits api (nodes w 0)" by blast
  have "healthy_link s2" by (rule link_after_beat [OF s(4)]) (use d(6-9) w(5-7,10) in simp_all)
  moreover have "length (in_items s2) = i" using s(6) d(3) g w(3) by (metis length_Cons length_append_singleton nat.inject)
  moreover have "list_all2 (holds ?n ?k) (pend @ [hc_in h]) (out_items s2 @ in_items s2)"
    unfolding w(3,4) by (rule holds_worked [OF q [unfolded g] w(9)])
  ultimately have "steady api ?n ?k i (pend @ [hc_in h]) s2" using w(2,5,8,11) by (simp add: steady_def)
  with d(1,6) w(1,4,5) show ?thesis by auto
qed

lemma read_steady:
  assumes "steady api (clamp_frames frames) (clamp_channels channels) i (p # ps) s" "0 < ev_recv s" "out_items s \<noteq> []"
    and "call_ok out frames channels" "channels < 2 ^ 31"
  shows "\<exists>s'. do_read now out frames channels s = Inr s' \<and> steady api (clamp_frames frames) (clamp_channels channels) i ps s' \<and>
    se_heard s' = se_heard s @ [echoed (clamp_frames frames) (clamp_channels channels) p out]"
proof -
  let ?n = "clamp_frames frames" and ?k = "clamp_channels channels"
  have s: "session_wf s" "passes_audio (se_worker s)" "submits api (nodes (se_worker s) 0)" "healthy_link s"
    "list_all2 (holds ?n ?k) (p # ps) (out_items s @ in_items s)" "length (in_items s) = i" using assms(1) by (simp_all add: steady_def)
  obtain f fs where f: "out_items s = f # fs" using assms(3) by (cases "out_items s") auto
  have h: "holds ?n ?k p f" "list_all2 (holds ?n ?k) ps (fs @ in_items s)" using s(5) unfolding f by simp_all
  from read_one [OF s(1) assms(2) f h(1) assms(4,5), of now] obtain s' c q where
    r: "do_read now out frames channels s = Inr s'" "session_wf s'" "in_items s' = in_items s" "out_items s' = fs"
      "s' = s\<lparr>se_ctx := c, se_worker := (se_worker s)\<lparr>shm := (shm (se_worker s))\<lparr>out_queue := q\<rparr>\<rparr>, ev_recv := 0,
        se_got := se_got s @ [f], se_heard := se_heard s @ [echoed ?n ?k p out]\<rparr>"
      "cx_worker_id c = cx_worker_id (se_ctx s)" "last_worker_heartbeat c = last_worker_heartbeat (se_ctx s)"
      "heartbeat_stalled_count c = heartbeat_stalled_count (se_ctx s)" by blast
  have b: "my_block (se_worker s') = my_block (se_worker s)" by (simp add: r(5) my_block_def)
  have "healthy_link s'" using s(4) r(6-8) unfolding healthy_link_def b by (auto simp: r(5) watchdog_def split: if_splits)
  moreover have "passes_audio (se_worker s')" "submits api (nodes (se_worker s') 0)"
    using s(2,3) b unfolding passes_audio_def by (simp_all add: r(5))
  ultimately have "steady api ?n ?k i ps s'" using r(2-4) s(6) h(2) by (simp add: steady_def)
  with r(1,5) show ?thesis by auto
qed

lemma cycle_step:
  assumes "steady api (clamp_frames frames) (clamp_channels channels) i pend s" "cycle_ok frames channels h"
    and "0 < frames" "channels < 2 ^ 31" "length pend < 15"
  shows "\<exists>s'. run_cycle api front frames channels h s = Inr s' \<and>
    steady api (clamp_frames frames) (clamp_channels channels) i (tl (pend @ [hc_in h])) s' \<and>
    se_heard s' = se_heard s @ [echoed (clamp_frames frames) (clamp_channels channels) (hd (pend @ [hc_in h])) (hc_out h)]"
proof -
  from cycle_answered [OF assms(1-3,5), of front] obtain s1 s2 where
    w: "do_dispatch (hc_dispatch h) (hc_in h) frames channels s = Inr s1" "do_work api front (hc_work h) s1 = Inr s2"
      "steady api (clamp_frames frames) (clamp_channels channels) i (pend @ [hc_in h]) s2" "0 < ev_recv s2" "out_items s2 \<noteq> []"
      "se_heard s2 = se_heard s" by blast
  obtain p ps where p: "pend @ [hc_in h] = p # ps" by (cases "pend @ [hc_in h]") auto
  have "call_ok (hc_out h) frames channels" using assms(2) by (simp add: cycle_ok_def)
  from read_steady [OF w(3) [unfolded p] w(4,5) this assms(4), of "hc_read h"] w(1,2,6) show ?thesis
    unfolding p by (auto simp: run_cycle_def)
qed

text \<open>Over any number of cycles.\<close>

lemma cycles_delayed:
  assumes "steady api (clamp_frames frames) (clamp_channels channels) i pend s" "list_all (cycle_ok frames channels) hs"
    and "0 < frames" "channels < 2 ^ 31" "length pend < 15"
  shows "\<exists>s'. for_each (run_cycle api front frames channels) hs s = Inr s' \<and>
    se_heard s' = se_heard s @ map2 (echoed (clamp_frames frames) (clamp_channels channels))
      (take (length hs) (pend @ map hc_in hs)) (map hc_out hs) \<and>
    steady api (clamp_frames frames) (clamp_channels channels) i (drop (length hs) (pend @ map hc_in hs)) s'"
  using assms(1,2,5)
proof (induction hs arbitrary: s pend)
  case Nil
  then show ?case by simp
next
  case (Cons h hs)
  obtain p ps where p: "pend @ [hc_in h] = p # ps" by (cases "pend @ [hc_in h]") auto
  from cycle_step [OF Cons.prems(1) _ assms(3,4) Cons.prems(3), of h front] Cons.prems(2) p obtain s1 where
    s1: "run_cycle api front frames channels h s = Inr s1" "steady api (clamp_frames frames) (clamp_channels channels) i ps s1"
      "se_heard s1 = se_heard s @ [echoed (clamp_frames frames) (clamp_channels channels) p (hc_out h)]" by auto
  have "length (pend @ [hc_in h]) = length (p # ps)" by (simp only: p)
  then have "length ps < 15" using Cons.prems(3) by simp
  from Cons.IH [OF s1(2) _ this] Cons.prems(2) obtain s' where
    s': "for_each (run_cycle api front frames channels) hs s1 = Inr s'"
      "se_heard s' = se_heard s1 @ map2 (echoed (clamp_frames frames) (clamp_channels channels))
        (take (length hs) (ps @ map hc_in hs)) (map hc_out hs)"
      "steady api (clamp_frames frames) (clamp_channels channels) i (drop (length hs) (ps @ map hc_in hs)) s'" by auto
  have "pend @ map hc_in (h # hs) = p # ps @ map hc_in hs" using p by (metis append_Cons append_assoc append_Nil list.map(2))
  then show ?case using s1(1,3) s' by (simp only: for_each.simps sum.case) (simp del: take_append drop_append)
qed

text \<open>
  C7: A delay is never made up: with a worker of either kind, whose device takes every submission, and
  \<open>length pend\<close> < 15 blocks on their way, every cycle of
  a dispatch, an iteration of the worker and a read-back succeeds, and over any number of cycles the
  caller's outputs are its inputs delayed by exactly that many blocks, unchanged in the samples: first
  those on their way, then its own. The blocks in front of and behind the worker stay as many as they
  were. With none on the way each block comes back in its own cycle.
\<close>

theorem delay_never_recovers:
  assumes "steady api (clamp_frames frames) (clamp_channels channels) i pend s" "list_all (cycle_ok frames channels) hs"
    and "0 < frames" "channels < 2 ^ 31" "length pend < 15"
  shows "\<exists>s'. for_each (run_cycle api front frames channels) hs s = Inr s' \<and>
    se_heard s' = se_heard s @ map2 (echoed (clamp_frames frames) (clamp_channels channels))
      (take (length hs) (pend @ map hc_in hs)) (map hc_out hs) \<and>
    steady api (clamp_frames frames) (clamp_channels channels) i (drop (length hs) (pend @ map hc_in hs)) s'"
  by (rule cycles_delayed [OF assms])

section \<open>A lost wake-up\<close>

definition works :: "vk_api \<Rightarrow> u8 list \<Rightarrow> loop_env list \<Rightarrow> session \<Rightarrow> session outcome" where
  "works api front envs = for_each (do_work api front) envs"

text \<open>Without a signal the worker takes nothing.\<close>

lemma work_unsignalled:
  assumes "session_wf s" "ev_send s = 0" "env_ok env"
  shows "\<exists>s' w. do_work api front env s = Inr s' \<and> session_wf s' \<and> ev_send s' = 0 \<and> in_items s' = in_items s \<and> out_items s' = out_items s \<and>
    s' = s\<lparr>se_worker := w\<rparr> \<and> worker_id w = worker_id (se_worker s) \<and>
    my_block w = (my_block (se_worker s))\<lparr>heartbeat := heartbeat (my_block (se_worker s)) + 1\<rparr>"
proof -
  note wf = session_wfD [OF assms(1)]
  have "items (control_bus (shm (se_worker s))) = []" "items (memory_request_bus (shm (se_worker s))) = []"
    "\<not> poll_ready (env\<lparr>poll_ready := (0 < ev_send s), read_ok := True\<rparr>)"
    using assms(1,2) by (simp_all add: session_wf_def)
  from quiet_iteration [OF wf(1) this, of api front] obtain w where
    w: "worker_iteration (real_ops api) front (env\<lparr>poll_ready := (0 < ev_send s), read_ok := True\<rparr>) (se_worker s) = Inr w"
      "worker_ok real_node_ok w" "in_queue (shm w) = in_queue (shm (se_worker s))" "out_queue (shm w) = out_queue (shm (se_worker s))"
      "items (control_bus (shm w)) = []" "items (memory_request_bus (shm w)) = []" "worker_id w = worker_id (se_worker s)"
      "signals w = signals (se_worker s)"
      "my_block w = (my_block (se_worker s))\<lparr>heartbeat := heartbeat (my_block (se_worker s)) + 1\<rparr>" by blast
  have "session_wf (s\<lparr>se_worker := w\<rparr>)"
    using assms(1) w worker_okD(1) [OF w(2)] by (simp add: session_wf_def ctx_ok_def)
  then show ?thesis
    using w assms(2) by (intro exI [of _ "s\<lparr>se_worker := w\<rparr>"] exI [of _ w]) (simp add: do_work_def)
qed

lemma works_unsignalled:
  assumes "session_wf s" "ev_send s = 0" "list_all env_ok envs"
  shows "\<exists>s'. works api front envs s = Inr s' \<and> ev_send s' = 0 \<and> in_items s' = in_items s \<and> out_items s' = out_items s"
  using assms
proof (induction envs arbitrary: s)
  case Nil
  then show ?case by (simp add: works_def)
next
  case (Cons e es)
  from work_unsignalled [OF Cons.prems(1,2), of e api front] Cons.prems(3) obtain s1 where
    s1: "do_work api front e s = Inr s1" "session_wf s1" "ev_send s1 = 0" "in_items s1 = in_items s" "out_items s1 = out_items s" by auto
  from Cons.IH [OF s1(2,3)] Cons.prems(3) s1 show ?case by (simp add: works_def)
qed

text \<open>
  C10: A wake-up is lost: when the plugin sends two blocks before the worker looks, whatever the Vulkan API
  answers, the worker's read takes both signals but it processes the first block only, and the second
  stays in the input queue over any number of further iterations, until the plugin sends another.
\<close>

theorem wakeup_lost:
  assumes "fresh s" "last_error (my_block (se_worker s)) = NO_ERROR" "uint (cx_worker_id (se_ctx s)) = worker_id (se_worker s)"
    and "heartbeat_stalled_count (se_ctx s) \<le> 8"
    and "call_ok b1 frames channels" "call_ok b2 frames channels" "0 < frames" "signal_ok env1" "signal_ok env2"
    and "env_ok env" "write_ok env" "list_all env_ok envs"
  shows "\<exists>s1 s2 s3 s4 d f. do_dispatch env1 b1 frames channels s = Inr s1 \<and> do_dispatch env2 b2 frames channels s1 = Inr s2 \<and>
    do_work api front env s2 = Inr s3 \<and> works api front envs s3 = Inr s4 \<and>
    ev_send s2 = 2 \<and> ev_send s4 = 0 \<and> out_items s4 = [d] \<and> timestamp_ns d = now_ns env1 \<and>
    in_items s4 = [f] \<and> block_of (now_ns env2) b2 frames channels f"
proof -
  have s: "session_wf s" "in_items s = []" "out_items s = []" "ev_send s = 0" "blocks s = []" "se_sent s = []"
    using assms(1) by (simp_all add: fresh_def blocks_def)
  let ?hb = "heartbeat (my_block (se_worker s))"
  have c: "heartbeat_stalled_count (watchdog ?hb (se_ctx s)) \<le> 9"
    using assms(4) by (auto simp: watchdog_def) unat_arith
  then have "healthy_link s" using assms(2,3) by (auto simp: healthy_link_def) unat_arith
  from send_one [OF s(1) this assms(5,7,8)] s(2) obtain s1 f1 c1 m1 where
    d1: "do_dispatch env1 b1 frames channels s = Inr s1" "session_wf s1" "in_items s1 = [f1]" "block_of (now_ns env1) b1 frames channels f1"
      "out_items s1 = []" "s1 = s\<lparr>se_ctx := c1, se_worker := (se_worker s)\<lparr>shm := m1\<rparr>, ev_send := Suc (ev_send s), se_sent := se_sent s @ [f1]\<rparr>"
      "my_block (se_worker s1) = my_block (se_worker s)" "cx_worker_id c1 = cx_worker_id (se_ctx s)" "last_worker_heartbeat c1 = ?hb"
      "heartbeat_stalled_count c1 = heartbeat_stalled_count (watchdog ?hb (se_ctx s))" by (auto simp: s(3))
  have "\<not> 10 < heartbeat_stalled_count (watchdog ?hb c1)"
    using c unfolding d1(10) [symmetric] by (auto simp: watchdog_def) unat_arith
  then have h1: "healthy_link s1" using assms(2,3) d1(8) unfolding healthy_link_def d1(7) by (simp add: d1(6))
  have "length (in_items s1) < 15" unfolding d1(3) by simp
  from send_one [OF d1(2) h1 assms(6,7,9) this] d1(3,5) obtain s2 f2 c2 m2 where
    d2: "do_dispatch env2 b2 frames channels s1 = Inr s2" "session_wf s2" "in_items s2 = [f1, f2]" "block_of (now_ns env2) b2 frames channels f2"
      "out_items s2 = []" "s2 = s1\<lparr>se_ctx := c2, se_worker := (se_worker s1)\<lparr>shm := m2\<rparr>, ev_send := Suc (ev_send s1), se_sent := se_sent s1 @ [f2]\<rparr>"
    by auto
  have e2: "ev_send s2 = 2" "0 < ev_send s2" by (simp_all add: d2(6) d1(6) s(4))
  have "length (out_items s2) < 15" unfolding d2(5) by simp
  from work_one [OF d2(2) e2(2) d2(3) this assms(10,11), of api front] obtain s3 w d where
    w: "do_work api front env s2 = Inr s3" "session_wf s3" "in_items s3 = [f2]" "out_items s3 = out_items s2 @ [d]"
      "s3 = s2\<lparr>se_worker := w, ev_send := 0, ev_recv := Suc (ev_recv s2)\<rparr>" by blast
  have "ordered (pipeline_of s3)" "se_sent s3 = [f1, f2]" "se_got s3 = []"
  proof -
    have st: "(session_step api)\<^sup>*\<^sup>* s s3"
      using session_step.Dispatch [OF assms(5,7) d1(1)] session_step.Dispatch [OF assms(6,7) d2(1)] session_step.Work [OF assms(10) w(1)]
      by (meson rtranclp.rtrancl_into_rtrancl rtranclp.rtrancl_refl)
    show "ordered (pipeline_of s3)" using run_ordered [OF st] fresh_pipeline [OF assms(1)] by blast
    show "se_sent s3 = [f1, f2]" "se_got s3 = []" using s(5,6) by (simp_all add: w(5) d2(6) d1(6) blocks_def)
  qed
  then have "tag_of d = tag_of f1" using w(3,4) d2(5) by (auto simp: ordered_def stage_room_def)
  then have t: "timestamp_ns d = now_ns env1" using d1(4) by (simp add: tag_of_def block_of_def)
  have "ev_send s3 = 0" by (simp add: w(5))
  from works_unsignalled [OF w(2) this assms(12), of api front] d1(1) d2(1,4,5) w(1,3,4) e2(1) t show ?thesis by fastforce
qed

section \<open>Blocks left behind\<close>

text \<open>
  C4: Blocks left behind stay behind: in every continuation of a session, with whatever back end, the blocks
  that wait for the worker and that no pending signal will move never become fewer. Once 15 of them
  wait, the session is stuck: every further dispatch is refused, the worker never takes a block again,
  and the plugin gets at most what is already in the output queue.
\<close>

theorem left_behind_never_shrinks:
  assumes "fresh s0" "(session_step api)\<^sup>*\<^sup>* s0 s" "(session_step api)\<^sup>*\<^sup>* s s'"
  shows "length (in_items s) - (if 0 < ev_send s then 1 else 0) \<le> length (in_items s') - (if 0 < ev_send s' then 1 else 0) \<and>
    (length (in_items s) = 15 \<and> ev_send s = 0 \<longrightarrow>
      map tag_of (in_items s') = map tag_of (in_items s) \<and> ev_send s' = 0 \<and> map tag_of (se_sent s') = map tag_of (se_sent s) \<and>
      map tag_of (se_got s' @ out_items s') = map tag_of (se_got s @ out_items s))"
proof -
  have s0: "session_live s0" "awaited (pipeline_of s0)" using fresh_pipeline [OF assms(1)] by simp_all
  from run_refines [OF assms(2) s0(1)] have s: "session_live s" "awaited (pipeline_of s)" using backlog_run s0(2) by blast+
  from run_refines [OF assms(3) s(1)] have r: "pipe_step\<^sup>*\<^sup>* (pipeline_of s) (pipeline_of s')" by blast
  from backlog_run [OF r s(2)] backlog_full [OF r s(2)] show ?thesis
    by (simp add: backlog_def stage_room_def)
qed

text \<open>A dispatch whose signal fails leaves its block behind, and the worker does not notice.\<close>

lemma failed_signal:
  fixes denv :: dispatch_env and env :: loop_env
  assumes "session_wf s" "healthy_link s" "ev_send s = 0" "length (in_items s) < 15"
    and "call_ok buffers frames channels" "0 < frames" "\<not> signal_ok denv" "env_ok env"
  shows "\<exists>s'. (session_step api)\<^sup>*\<^sup>* s s' \<and> session_wf s' \<and> healthy_link s' \<and> ev_send s' = 0 \<and>
    length (in_items s') = Suc (length (in_items s))"
proof -
  from send_any [OF assms(1,2,5,6,4), of denv] assms(3,7) obtain s1 f c m where
    d: "do_dispatch denv buffers frames channels s = Inr s1" "session_wf s1" "in_items s1 = in_items s @ [f]" "ev_send s1 = 0"
      "my_block (se_worker s1) = my_block (se_worker s)" "cx_worker_id c = cx_worker_id (se_ctx s)" "se_ctx s1 = c"
      "last_worker_heartbeat c = heartbeat (my_block (se_worker s))" "worker_id (se_worker s1) = worker_id (se_worker s)" by auto
  from work_unsignalled [OF d(2,4) assms(8), of api] obtain s2 w where
    w: "do_work api [] env s1 = Inr s2" "session_wf s2" "ev_send s2 = 0" "in_items s2 = in_items s1" "s2 = s1\<lparr>se_worker := w\<rparr>"
      "worker_id w = worker_id (se_worker s1)"
      "my_block w = (my_block (se_worker s1))\<lparr>heartbeat := heartbeat (my_block (se_worker s1)) + 1\<rparr>" by blast
  have "(session_step api)\<^sup>*\<^sup>* s s2"
    using session_step.Dispatch [OF assms(5,6) d(1)] session_step.Work [OF assms(8) w(1)]
    by (meson rtranclp.rtrancl_into_rtrancl rtranclp.rtrancl_refl)
  moreover have "healthy_link s2"
    by (rule link_after_beat [OF assms(2)]) (use d(5-9) w(5-7) in simp_all)
  moreover have "length (in_items s2) = Suc (length (in_items s))" unfolding w(4) d(3) by simp
  ultimately show ?thesis using w(2,3) by blast
qed

lemma stuck_reachable:
  fixes denv :: dispatch_env and env :: loop_env
  assumes "session_wf s" "healthy_link s" "ev_send s = 0" "length (in_items s) + n \<le> 15"
    and "call_ok buffers frames channels" "0 < frames" "\<not> signal_ok denv" "env_ok env"
  shows "\<exists>s'. (session_step api)\<^sup>*\<^sup>* s s' \<and> session_wf s' \<and> healthy_link s' \<and> ev_send s' = 0 \<and>
    length (in_items s') = length (in_items s) + n"
  using assms(4)
proof (induction n)
  case 0
  then show ?case using assms(1-3) by auto
next
  case (Suc n)
  then obtain s1 where s1: "(session_step api)\<^sup>*\<^sup>* s s1" "session_wf s1" "healthy_link s1" "ev_send s1 = 0"
    "length (in_items s1) = length (in_items s) + n" by auto
  have "length (in_items s1) < 15" unfolding s1(5) using Suc.prems by simp
  from failed_signal [OF s1(2-4) this assms(5-8), of api] s1(1,5) show ?case by (metis add_Suc_right rtranclp_trans)
qed

section \<open>Witnesses\<close>

text \<open>A silent block is still on its way.\<close>

definition demo_behind :: session where
  "demo_behind = demo_session\<lparr>se_worker := idle_worker\<lparr>shm := shm_zero\<lparr>in_queue := snd (push (in_queue shm_zero) demo_frame)\<rparr>\<rparr>\<rparr>"

lemma demo_behind_steady: "steady demo_api (clamp_frames 64) (clamp_channels 2) 1 [silence] demo_behind"
proof -
  have q: "ring_of frame_wf IPC_QUEUE_DEPTH (in_queue (shm (se_worker demo_behind)))" "in_items demo_behind = [demo_frame]"
    using push_take [OF shm_zero_rings(1) demo_frame_bounded(2)] by (simp_all add: demo_behind_def IPC_QUEUE_DEPTH_def)
  have o: "out_items demo_behind = []" by (simp add: demo_behind_def)
  have m: "shm_wf (shm (se_worker demo_behind))" using shm_zero_wf q(1) by (simp add: demo_behind_def shm_wf_def)
  have "frame_count demo_frame \<noteq> 0" by (simp add: demo_frame_def)
  then have "session_wf demo_behind"
    using demo_session_facts(1) m q(2) o demo_frame_bounded(1)
    by (auto simp: session_wf_def fresh_def demo_behind_def demo_session_def worker_ok_def ctx_ok_def queue_bounded_def)
  moreover have "holds (clamp_frames 64) (clamp_channels 2) silence demo_frame"
    using demo_frame_bounded(1)
    by (auto simp: holds_def clamp_frames_def clamp_channels_def demo_frame_def channel_block_def frame_zero_def silence_def
        MAX_SAMPLES_def MAX_FRAMES_def less_2_cases_iff)
  moreover have "healthy_link demo_behind" "passes_audio (se_worker demo_behind)" "submits demo_api (nodes (se_worker demo_behind) 0)"
    using demo_session_facts(5) idle_worker_facts(2,4)
    by (simp_all add: demo_behind_def demo_session_def healthy_link_def my_block_def passes_audio_def submits_def demo_api_def split: sum.split)
  ultimately show ?thesis using q(2) o by (simp add: steady_def)
qed

theorem delay_never_recovers_witness:
  "\<exists>s'. for_each (run_cycle demo_api [] 64 2) (replicate 2 \<lparr>hc_dispatch = demo_dispatch, hc_work = demo_env, hc_read = 0,
      hc_in = demo_buffers, hc_out = silence\<rparr>) demo_behind = Inr s' \<and>
    se_heard s' = [silence, [replicate 64 (flit binary32 1), replicate 64 f32_zero]]"
proof -
  have "list_all (cycle_ok 64 2) (replicate 2 \<lparr>hc_dispatch = demo_dispatch, hc_work = demo_env, hc_read = 0,
      hc_in = demo_buffers, hc_out = silence\<rparr>)"
    using demo_call_ok silence_ok(1) demo_signals by (simp add: cycle_ok_def numeral_2_eq_2)
  moreover have "se_heard demo_behind = []" by (simp add: demo_behind_def demo_session_def)
  moreover have "echoed (clamp_frames 64) (clamp_channels 2) silence silence = silence"
    "echoed (clamp_frames 64) (clamp_channels 2) demo_buffers silence = [replicate 64 (flit binary32 1), replicate 64 f32_zero]"
    by (simp_all add: echoed_def clamp_frames_def clamp_channels_def silence_def demo_buffers_def)
  ultimately show ?thesis
    using delay_never_recovers [OF demo_behind_steady, of "replicate 2 \<lparr>hc_dispatch = demo_dispatch, hc_work = demo_env, hc_read = 0,
      hc_in = demo_buffers, hc_out = silence\<rparr>" "[]"]
    by (simp add: numeral_2_eq_2) blast
qed

theorem wakeup_lost_witness:
  "\<exists>s1 s2 s3 s4 f. do_dispatch demo_dispatch demo_buffers 64 2 demo_session = Inr s1 \<and>
     do_dispatch demo_dispatch silence 64 2 s1 = Inr s2 \<and> do_work demo_api [] demo_env s2 = Inr s3 \<and>
     works demo_api [] (replicate 9 demo_env) s3 = Inr s4 \<and> in_items s4 = [f]"
proof -
  note d = demo_session_facts
  have h: "heartbeat_stalled_count (se_ctx demo_session) \<le> 8" "(0::int) < 64" "list_all env_ok (replicate 9 demo_env)"
    using d(4) demo_signals(2) by (simp_all add: list_all_iff)
  from wakeup_lost [OF d(1-3) h(1) demo_call_ok silence_ok(1) h(2) demo_signals(1,1) demo_signals(2,3) h(3), of demo_api "[]"]
  show ?thesis by blast
qed

text \<open>A session can get stuck: when the signals of 15 dispatches fail, no continuation takes a block from it any more.\<close>

theorem left_behind_never_shrinks_witness:
  "\<exists>s. (session_step demo_api)\<^sup>*\<^sup>* demo_session s \<and> length (in_items s) = 15 \<and>
     (\<forall>s'. (session_step demo_api)\<^sup>*\<^sup>* s s' \<longrightarrow> map tag_of (in_items s') = map tag_of (in_items s) \<and> length (se_sent s') = length (se_sent s))"
proof -
  have s0: "session_wf demo_session" "in_items demo_session = []" "ev_send demo_session = 0"
    using demo_session_facts(1) by (simp_all add: fresh_def blocks_def)
  have h: "length (in_items demo_session) + 15 \<le> 15" "(0::int) < 64" "\<not> signal_ok (demo_dispatch\<lparr>signal_ok := False\<rparr>)"
    unfolding s0(2) by simp_all
  from stuck_reachable [OF s0(1) demo_session_facts(5) s0(3) h(1) demo_call_ok h(2,3) demo_signals(2), of demo_api] obtain s where
    s: "(session_step demo_api)\<^sup>*\<^sup>* demo_session s" "ev_send s = 0" "length (in_items s) = length (in_items demo_session) + 15" by blast
  have l: "length (in_items s) = 15" unfolding s(3) s0(2) by simp
  have "map tag_of (in_items s') = map tag_of (in_items s) \<and> length (se_sent s') = length (se_sent s)"
    if "(session_step demo_api)\<^sup>*\<^sup>* s s'" for s'
    using left_behind_never_shrinks [OF demo_session_facts(1) s(1) that] s(2) l by (metis length_map)
  with s(1) l show ?thesis by blast
qed

end
