(* ===== verification/Supervisor.thy ===== *)
theory Supervisor
  imports System
begin

text \<open>
  The supervisor, the PipeWire module \<open>daemon/pipewire/module-dsp-accel.cpp\<close>: it starts the worker
  processes with their shared memory and event descriptors, answers the plugins' connections,
  routes plugin requests with a look at the workers' health, writes its state as JSON and cleans up.
  The answers of the system calls are parameters; the PipeWire objects are left out.
\<close>

section \<open>State\<close>

record dsp_accel_node =
  sn_shm :: "dsp_shared_memory option"
  sn_worker_id :: int
  last_heartbeat :: u64
  is_active :: bool
  worker_pid :: int
  sn_shm_fd :: int
  sn_e_send :: int
  sn_e_recv :: int

record module_data =
  server_fd :: int
  listening :: bool
  compute_nodes :: "dsp_accel_node list"

text \<open>A node as \<open>calloc\<close> leaves it.\<close>

definition node_zero :: dsp_accel_node where
  "node_zero = \<lparr>sn_shm = None, sn_worker_id = 0, last_heartbeat = 0, is_active = False, worker_pid = 0,
     sn_shm_fd = 0, sn_e_send = 0, sn_e_recv = 0\<rparr>"

section \<open>Starting a worker\<close>

record spawn_env =
  memfd :: int
  truncate_ok :: bool
  efd_send :: int
  efd_recv :: int
  shm_map_ok :: bool
  socketpair_ok :: bool
  fork_pid :: int

text \<open>The descriptors passed to the child over the control socket, in the parent's order.\<close>

definition spawn_worker :: "spawn_env \<Rightarrow> dsp_accel_node \<Rightarrow> dsp_accel_node \<times> int list" where
  "spawn_worker env node =
     (let node = node\<lparr>sn_shm_fd := memfd env\<rparr> in
      if memfd env < 0 then (node, [])
      else if \<not> truncate_ok env then (node, [])
      else let node = node\<lparr>sn_e_send := efd_send env, sn_e_recv := efd_recv env\<rparr> in
        if \<not> shm_map_ok env then (node\<lparr>sn_shm := None\<rparr>, [])
        else let node = node\<lparr>sn_shm := Some shm_zero\<rparr> in
          if \<not> socketpair_ok env then (node, [])
          else let node = node\<lparr>worker_pid := fork_pid env\<rparr> in
            if 0 < fork_pid env then (node\<lparr>is_active := True\<rparr>, [sn_shm_fd node, sn_e_send node, sn_e_recv node])
            else (node, []))"

text \<open>The command line of the child: the type by the number of the worker, and the number.\<close>

definition type_str :: "int \<Rightarrow> string" where
  "type_str i = (if i = 0 then ''vulkan'' else if i = 1 then ''npu'' else ''dsp'')"

definition worker_command :: "dsp_accel_node \<Rightarrow> (char \<times> string) list" where
  "worker_command node = [(CHR ''t'', type_str (sn_worker_id node)), (CHR ''i'', to_string (sn_worker_id node))]"

section \<open>Routing a plugin's request\<close>

text \<open>
  The loop over the nodes: the number of the first healthy worker, and the nodes with their
  heartbeats updated and the failed workers restarted. The workload type of the plugin is read and
  not used.
\<close>

fun find_node :: "(nat \<Rightarrow> spawn_env) \<Rightarrow> nat \<Rightarrow> dsp_accel_node list \<Rightarrow> (int option \<times> dsp_accel_node list) outcome" where
  "find_node envs i [] = Inr (None, [])"
| "find_node envs i (node # rest) =
     (let next = (\<lambda>node'. case find_node envs (Suc i) rest of Inl e \<Rightarrow> Inl e | Inr (r, rest') \<Rightarrow> Inr (r, node' # rest')) in
      case sn_shm node of
        None \<Rightarrow> next node
      | Some m \<Rightarrow>
         (case control_block m (sn_worker_id node) of
            Inl e \<Rightarrow> Inl e
          | Inr ctrl \<Rightarrow>
             (if last_error ctrl \<noteq> NO_ERROR then next (fst (spawn_worker (envs i) (node\<lparr>is_active := False\<rparr>)))
              else if 80 \<le> load_pct ctrl then next node
              else let node1 = node\<lparr>last_heartbeat := heartbeat ctrl\<rparr> in
                if is_active node1 then Inr (Some (sn_worker_id node1), node1 # rest) else next node1)))"

definition handle_plugin_request :: "(nat \<Rightarrow> spawn_env) \<Rightarrow> module_data option \<Rightarrow> u32 option
    \<Rightarrow> (int \<times> module_data option) outcome" where
  "handle_plugin_request envs d metadata =
     (case d of
        None \<Rightarrow> Inr (- 1, None)
      | Some md \<Rightarrow>
         (if metadata = None \<or> compute_nodes md = [] then Inr (- 1, Some md)
          else case find_node envs 0 (compute_nodes md) of
              Inl e \<Rightarrow> Inl e
            | Inr (best_node, ns) \<Rightarrow>
               Inr (if best_node = None then - 1 else 0, Some (md\<lparr>compute_nodes := ns\<rparr>))))"

section \<open>A plugin's connection\<close>

record connection_env =
  client_fd :: int
  received_meta :: "(u32 \<times> f32) option"
  response_sent :: bool

fun find_type :: "int \<Rightarrow> int \<Rightarrow> dsp_accel_node list \<Rightarrow> dsp_accel_node option" where
  "find_type wl i [] = None"
| "find_type wl i (node # rest) = (if i = wl \<and> is_active node then Some node else find_type wl (i + 1) rest)"

text \<open>The worker number sent, the descriptors sent after it, and the descriptors closed.\<close>

definition on_plugin_connection :: "bool \<Rightarrow> connection_env \<Rightarrow> module_data \<Rightarrow> u32 option \<times> int list \<times> int list" where
  "on_plugin_connection readable env d =
     (if \<not> readable \<or> client_fd env < 0 then (None, [], [])
      else case received_meta env of
          None \<Rightarrow> (None, [], [client_fd env])
        | Some (wl_type, cost) \<Rightarrow>
           (case find_type (sint wl_type) 0 (compute_nodes d) of
              None \<Rightarrow> (None, [], [client_fd env])
            | Some target \<Rightarrow>
               (if \<not> response_sent env then (None, [], [client_fd env])
                else (Some (of_int (sn_worker_id target)), [sn_shm_fd target, sn_e_send target, sn_e_recv target], [client_fd env]))))"

section \<open>Loading and unloading the module\<close>

record init_env =
  data_ok :: bool
  server_socket :: int
  bind_ok :: bool
  bind_errno :: int
  spawns :: "nat \<Rightarrow> spawn_env"

definition ENOMEM :: int where
  "ENOMEM = 12"

definition pipewire_module_init :: "init_env \<Rightarrow> int \<times> module_data option" where
  "pipewire_module_init env =
     (if \<not> data_ok env then (- ENOMEM, None)
      else if 0 \<le> server_socket env \<and> \<not> bind_ok env then (- bind_errno env, None)
      else (0, Some \<lparr>server_fd = server_socket env, listening = (0 \<le> server_socket env),
         compute_nodes = map (\<lambda>i. fst (spawn_worker (spawns env i) (node_zero\<lparr>sn_worker_id := int i\<rparr>))) [0..<3]\<rparr>))"

text \<open>The descriptors closed and the number of mappings undone.\<close>

definition valid_fds :: "int list \<Rightarrow> int list" where
  "valid_fds fds = filter (\<lambda>fd. 0 \<le> fd) fds"

definition module_destroy :: "module_data \<Rightarrow> int list \<times> nat" where
  "module_destroy d =
     (valid_fds [server_fd d] @ concat (map (\<lambda>node. valid_fds [sn_shm_fd node, sn_e_send node, sn_e_recv node]) (compute_nodes d)),
      length (filter (\<lambda>node. sn_shm node \<noteq> None) (compute_nodes d)))"

section \<open>The state as JSON\<close>

definition nl :: string where
  "nl = [CHR 0x0A]"

definition quote :: "string \<Rightarrow> string" where
  "quote s = CHR 0x22 # s @ [CHR 0x22]"

definition dump_node :: "nat \<Rightarrow> nat \<Rightarrow> dsp_accel_node \<Rightarrow> worker_control_block \<Rightarrow> string" where
  "dump_node n i node ctrl =
     ''    {'' @ nl @ ''      '' @ quote ''id'' @ '': '' @ to_string (sn_worker_id node) @ '','' @ nl
     @ ''      '' @ quote ''type'' @ '': '' @ quote (if i = 0 then ''vulkan'' else if i = 1 then ''npu'' else ''dsp'') @ '','' @ nl
     @ ''      '' @ quote ''status'' @ '': '' @ quote (if is_active node then ''Healthy'' else ''Dead'') @ '','' @ nl
     @ ''      '' @ quote ''load'' @ '': '' @ to_string (uint (load_pct ctrl)) @ '','' @ nl
     @ ''      '' @ quote ''heartbeat'' @ '': '' @ to_string (uint (heartbeat ctrl)) @ nl
     @ ''    }'' @ (if i = n - 1 then '''' else '','') @ nl"

fun dump_nodes :: "nat \<Rightarrow> nat \<Rightarrow> dsp_accel_node list \<Rightarrow> string outcome" where
  "dump_nodes n i [] = Inr ''''"
| "dump_nodes n i (node # rest) =
     (case sn_shm node of
        None \<Rightarrow> dump_nodes n (Suc i) rest
      | Some m \<Rightarrow>
         (case control_block m (sn_worker_id node) of
            Inl e \<Rightarrow> Inl e
          | Inr ctrl \<Rightarrow>
             (case dump_nodes n (Suc i) rest of Inl e \<Rightarrow> Inl e | Inr s \<Rightarrow> Inr (dump_node n i node ctrl @ s))))"

definition dump_state :: "int \<Rightarrow> module_data \<Rightarrow> string outcome" where
  "dump_state now d =
     (case dump_nodes (length (compute_nodes d)) 0 (compute_nodes d) of
        Inl e \<Rightarrow> Inl e
      | Inr s \<Rightarrow> Inr (''{'' @ nl @ ''  '' @ quote ''timestamp'' @ '': '' @ to_string now @ '','' @ nl
          @ ''  '' @ quote ''workers'' @ '': ['' @ nl @ s @ ''  ]'' @ nl @ ''}'' @ nl))"

end
