(* ===== verification/Supervisor_Spec.thy ===== *)
theory Supervisor_Spec
  imports Supervisor
begin

text \<open>
  What the supervisor guarantees: which worker a request goes to, that a plugin's session shares the
  channel of the worker of its type, and which descriptors unloading the module closes.
\<close>

section \<open>Routing\<close>

definition node_ctrl :: "dsp_accel_node \<Rightarrow> dsp_shared_memory \<Rightarrow> worker_control_block" where
  "node_ctrl node m = workers m ! nat (sn_worker_id node)"

definition healthy :: "dsp_accel_node \<Rightarrow> bool" where
  "healthy node \<longleftrightarrow> (case sn_shm node of None \<Rightarrow> False
     | Some m \<Rightarrow> last_error (node_ctrl node m) = NO_ERROR \<and> \<not> 80 \<le> load_pct (node_ctrl node m) \<and> is_active node)"

text \<open>What passing a node does to it.\<close>

definition serviced :: "spawn_env \<Rightarrow> dsp_accel_node \<Rightarrow> dsp_accel_node" where
  "serviced env node = (case sn_shm node of None \<Rightarrow> node
     | Some m \<Rightarrow>
        (if last_error (node_ctrl node m) \<noteq> NO_ERROR then fst (spawn_worker env (node\<lparr>is_active := False\<rparr>))
         else if 80 \<le> load_pct (node_ctrl node m) then node
         else node\<lparr>last_heartbeat := heartbeat (node_ctrl node m)\<rparr>))"

text \<open>Every node has a number within the control blocks and well-formed shared memory.\<close>

definition nodes_ok :: "dsp_accel_node list \<Rightarrow> bool" where
  "nodes_ok ns \<longleftrightarrow> list_all (\<lambda>node. 0 \<le> sn_worker_id node \<and> sn_worker_id node < 8 \<and>
     (case sn_shm node of None \<Rightarrow> True | Some m \<Rightarrow> shm_wf m)) ns"

text \<open>The nodes the loop looks at: up to the first healthy one.\<close>

fun looked_at :: "dsp_accel_node list \<Rightarrow> nat" where
  "looked_at [] = 0"
| "looked_at (node # rest) = (if healthy node then 1 else Suc (looked_at rest))"

lemma find_node_spec:
  "nodes_ok ns \<Longrightarrow> find_node envs i ns = Inr
     (map_option sn_worker_id (find healthy ns),
      map (\<lambda>k. if k < looked_at ns then serviced (envs (i + k)) (ns ! k) else ns ! k) [0..<length ns])"
proof (induction ns arbitrary: i)
  case Nil
  then show ?case by simp
next
  case (Cons node rest)
  have upd: "map (\<lambda>k. if k < Suc n then f k ((node # rest) ! k) else (node # rest) ! k) [0..<length (node # rest)] =
      f 0 node # map (\<lambda>k. if k < n then f (Suc k) (rest ! k) else rest ! k) [0..<length rest]" for n and f :: "nat \<Rightarrow> dsp_accel_node \<Rightarrow> dsp_accel_node"
    by (simp add: upt_conv_Cons map_Suc_upt [symmetric] del: upt_Suc)
  have ok: "nodes_ok rest" using Cons.prems by (simp add: nodes_ok_def)
  note IH = Cons.IH [OF ok, of "Suc i"]
  show ?case
  proof (cases "sn_shm node")
    case None
    then have "\<not> healthy node" "serviced (envs i) node = node" by (simp_all add: healthy_def serviced_def)
    then show ?thesis using IH None upd [of "looked_at rest" "\<lambda>k. serviced (envs (i + k))"] by (simp add: Let_def)
  next
    case (Some m)
    have cb: "control_block m (sn_worker_id node) = Inr (node_ctrl node m)"
      using Cons.prems Some by (simp add: nodes_ok_def control_block_def node_ctrl_def shm_wf_def)
    show ?thesis
    proof (cases "healthy node")
      case True
      then have "serviced (envs i) node = node\<lparr>last_heartbeat := heartbeat (node_ctrl node m)\<rparr>" using Some
        by (simp add: healthy_def serviced_def)
      moreover have "map (\<lambda>k. rest ! k) [0..<length rest] = rest" by (rule map_nth)
      ultimately show ?thesis
        using True Some cb upd [of 0 "\<lambda>k. serviced (envs (i + k))"] by (simp add: healthy_def Let_def)
    next
      case False
      then show ?thesis
        using Some cb IH upd [of "looked_at rest" "\<lambda>k. serviced (envs (i + k))"]
        by (auto simp: healthy_def serviced_def Let_def)
    qed
  qed
qed

text \<open>
  C19: A request succeeds exactly when some worker is healthy: it has shared memory, no error
  recorded, a load below 80 and is active. The supervisor looks at the workers in their order up to
  the first healthy one, whatever workload type the plugin asks for; of those it passes, it restarts
  the ones with an error and records the heartbeat of the others, but a heartbeat that stands still
  excludes nobody. The later ones stay as they are.
\<close>

theorem request_routed_to_first_healthy:
  assumes "nodes_ok (compute_nodes d)" "compute_nodes d \<noteq> []"
  shows "handle_plugin_request envs (Some d) (Some ty) = Inr (if list_ex healthy (compute_nodes d) then 0 else - 1,
    Some (d\<lparr>compute_nodes := map (\<lambda>k. if k < looked_at (compute_nodes d) then serviced (envs k) (compute_nodes d ! k)
      else compute_nodes d ! k) [0..<length (compute_nodes d)]\<rparr>))"
proof -
  have "(find healthy (compute_nodes d) = None) = (\<not> list_ex healthy (compute_nodes d))"
    by (auto simp: find_None_iff list_ex_iff)
  then show ?thesis
    using assms find_node_spec [OF assms(1), of envs 0] by (simp add: handle_plugin_request_def)
qed

section \<open>The command line of a worker\<close>

lemma digit_char:
  assumes "d < 10"
  shows "(of_char (char_of (d + 48 :: nat)) :: int) = int d + 48"
proof -
  have e: "(of_char (char_of (d + 48 :: nat)) :: int) = int (of_char (char_of (d + 48)))" by (simp only: of_nat_of_char)
  show ?thesis unfolding e using assms by simp
qed

lemma atoi_digits_append: "list_all (\<lambda>c. 48 \<le> (of_char c :: int) \<and> (of_char c :: int) \<le> 57) xs \<Longrightarrow>
   atoi_digits a (xs @ ys) = atoi_digits (atoi_digits a xs) ys"
  by (induction xs arbitrary: a) auto

lemma digits_are_digits: "list_all (\<lambda>c. 48 \<le> (of_char c :: int) \<and> (of_char c :: int) \<le> 57) (digits n)"
proof (induction n rule: digits.induct)
  case (1 n)
  show ?case
  proof (cases "n < 10")
    case True
    then show ?thesis by (subst digits.simps) (simp add: digit_char)
  next
    case False
    moreover have "n mod 10 < 10" by simp
    ultimately show ?thesis using 1 by (subst digits.simps) (simp add: digit_char del: mod_less_divisor)
  qed
qed

lemma atoi_digits_digits: "atoi_digits 0 (digits n) = int n"
proof (induction n rule: digits.induct)
  case (1 n)
  show ?case
  proof (cases "n < 10")
    case True
    then show ?thesis by (subst digits.simps) (simp add: digit_char)
  next
    case False
    have m: "n mod 10 < 10" by simp
    have "atoi_digits 0 (digits n) = atoi_digits (atoi_digits 0 (digits (n div 10))) [char_of (n mod 10 + 48)]"
      using False digits_are_digits by (subst digits.simps) (simp add: atoi_digits_append)
    also have "\<dots> = int n" using 1 [OF False] digit_char [OF m] m div_mult_mod_eq [of n 10] by (simp, linarith)
    finally show ?thesis .
  qed
qed

lemma digits_nonempty: "digits n \<noteq> []"
  by (subst digits.simps) simp

text \<open>\<open>atoi\<close> reads back what \<open>printf("%i")\<close> wrote.\<close>

lemma atoi_to_string: "atoi (to_string i) = i"
proof -
  have d: "atoi (digits n) = int n" for n
  proof -
    obtain c cs where c: "digits n = c # cs" using digits_nonempty [of n] by (cases "digits n") auto
    have r: "48 \<le> (of_char c :: int)" "(of_char c :: int) \<le> 57" using digits_are_digits [of n] by (simp_all add: c)
    then have "\<not> is_space c" "c \<noteq> CHR ''-''" "c \<noteq> CHR ''+''" by (auto simp: is_space_def)
    with c atoi_digits_digits [of n] show ?thesis by (simp add: atoi_def)
  qed
  show ?thesis
  proof (cases "i < 0")
    case True
    then show ?thesis using atoi_digits_digits [of "nat (- i)"] by (simp add: to_string_def atoi_def is_space_def)
  next
    case False
    with d show ?thesis by (simp add: to_string_def)
  qed
qed

section \<open>A session\<close>

text \<open>\<open>(uint32_t)type\<close>, the number the library sends.\<close>

definition type_code :: "DspWorkloadType \<Rightarrow> u32" where
  "type_code ty = (case ty of DSP_ACCEL_TYPE_MASSIVELY_PARALLEL \<Rightarrow> 0 | DSP_ACCEL_TYPE_ARRAY_PROCESSOR \<Rightarrow> 1 | DSP_ACCEL_TYPE_REMOTE \<Rightarrow> 2)"

definition spawn_ok :: "spawn_env \<Rightarrow> bool" where
  "spawn_ok env \<longleftrightarrow> 0 \<le> memfd env \<and> truncate_ok env \<and> 0 \<le> efd_send env \<and> 0 \<le> efd_recv env \<and> shm_map_ok env \<and>
     socketpair_ok env \<and> 0 < fork_pid env"

lemma spawn_worker_ok:
  "spawn_ok env \<Longrightarrow> spawn_worker env node = (node\<lparr>sn_shm_fd := memfd env, sn_e_send := efd_send env, sn_e_recv := efd_recv env,
     sn_shm := Some shm_zero, worker_pid := fork_pid env, is_active := True\<rparr>, [memfd env, efd_send env, efd_recv env])"
  by (simp add: spawn_worker_def spawn_ok_def)

lemma find_type_nth:
  "k < length ns \<Longrightarrow> is_active (ns ! k) \<Longrightarrow> find_type (i + int k) i ns = Some (ns ! k)"
proof (induction ns arbitrary: i k)
  case (Cons n ns)
  then show ?case
    using Cons.IH [of "k - 1" "i + 1"] by (cases k) (simp_all add: algebra_simps)
qed simp

text \<open>The node of a worker that was started, and what a connection of its type is sent.\<close>

definition started_node :: "spawn_env \<Rightarrow> nat \<Rightarrow> dsp_accel_node" where
  "started_node env i = (node_zero\<lparr>sn_worker_id := int i\<rparr>)\<lparr>sn_shm_fd := memfd env, sn_e_send := efd_send env,
     sn_e_recv := efd_recv env, sn_shm := Some shm_zero, worker_pid := fork_pid env, is_active := True\<rparr>"

lemma started_node_simps [simp]:
  "sn_worker_id (started_node env i) = int i" "sn_shm_fd (started_node env i) = memfd env"
  "sn_e_send (started_node env i) = efd_send env" "sn_e_recv (started_node env i) = efd_recv env"
  "sn_shm (started_node env i) = Some shm_zero" "is_active (started_node env i)"
  by (simp_all add: started_node_def)

lemma spawn_started:
  "spawn_ok env \<Longrightarrow> spawn_worker env (node_zero\<lparr>sn_worker_id := int i\<rparr>) =
     (started_node env i, [memfd env, efd_send env, efd_recv env])"
  by (simp add: spawn_worker_ok started_node_def)

lemma module_nodes:
  assumes "pipewire_module_init ienv = (0, Some d)" "\<forall>i < 3. spawn_ok (spawns ienv i)"
  shows "compute_nodes d = map (\<lambda>i. started_node (spawns ienv i) i) [0..<3]"
  using assms by (auto simp: pipewire_module_init_def spawn_started split: if_splits)

lemma type_code_facts: "unat (type_code ty) < 3" "sint (type_code ty) = int (unat (type_code ty))" "of_nat (unat (type_code ty)) = type_code ty"
  by (cases ty; simp add: type_code_def)+

lemma connection_of_type:
  assumes "pipewire_module_init ienv = (0, Some d)" "\<forall>i < 3. spawn_ok (spawns ienv i)"
    and "0 \<le> client_fd cenv" "received_meta cenv = Some (type_code ty, cost)" "response_sent cenv"
  defines "env \<equiv> spawns ienv (unat (type_code ty))"
  shows "on_plugin_connection True cenv d = (Some (type_code ty), [memfd env, efd_send env, efd_recv env], [client_fd cenv])"
    "compute_nodes d ! unat (type_code ty) = started_node env (unat (type_code ty))"
proof -
  note i = type_code_facts [of ty]
  show n: "compute_nodes d ! unat (type_code ty) = started_node env (unat (type_code ty))"
    using i(1) by (simp add: module_nodes [OF assms(1,2)] env_def nth_append)
  have "find_type (0 + int (unat (type_code ty))) 0 (compute_nodes d) = Some (compute_nodes d ! unat (type_code ty))"
    using i(1) n by (intro find_type_nth) (simp_all add: module_nodes [OF assms(1,2)])
  then show "on_plugin_connection True cenv d = (Some (type_code ty), [memfd env, efd_send env, efd_recv env], [client_fd cenv])"
    using assms(3-5) i(2,3) n by (simp add: on_plugin_connection_def)
qed

text \<open>The library joins the channel it is sent, and takes the worker's heartbeat as its first.\<close>

lemma connect_joins:
  assumes "alloc_ok penv" "0 \<le> sock penv" "connect_ok penv" "send_ok penv" "map_ok penv" "shm_wf m"
    and "recv_worker_id penv = Some (type_code ty)" "fd_messages penv = (Rights f1, Rights f2, Rights f3)" "0 \<le> f1" "0 \<le> f2" "0 \<le> f3"
  shows "\<exists>c. sdk_connect True penv ty cost m = Inr (Some c, []) \<and> ctx_ok c m \<and> cx_shm c \<and> cx_worker_id c = type_code ty \<and>
    cx_shm_fd c = f1 \<and> cx_eventfd_send c = f2 \<and> cx_eventfd_recv c = f3 \<and>
    last_worker_heartbeat c = heartbeat (workers m ! unat (type_code ty)) \<and> heartbeat_stalled_count c = 0"
proof -
  have "control_block m (uint (type_code ty)) = Inr (workers m ! unat (type_code ty))"
    using assms(6) by (cases ty) (simp_all add: control_block_def type_code_def shm_wf_def)
  moreover have "unat (type_code ty) < 8" using type_code_facts(1) [of ty] by simp
  ultimately show ?thesis
    using assms by (auto simp: sdk_connect_def new_ctx_def Let_def ctx_ok_def word_less_nat_alt)
qed

text \<open>The worker reads its command line back as its type and number.\<close>

lemma command_read_back: "worker_options (worker_command node) = (type_str (sn_worker_id node), sn_worker_id node)" if "0 \<le> sn_worker_id node" for node
  using that by (simp add: worker_options_def worker_command_def atoi_to_string)

text \<open>
  C20: A plugin's session shares the channel of the worker of its type: after the module has started its
  three workers, a connection with the workload type \<open>ty\<close> is answered with the number of that type and
  the three descriptors that were passed to that worker's process, the library's \<open>connect\<close> accepts them,
  and the worker's command line is read back as the type and number. For the third type the session is
  established all the same although its worker, started as \<open>dsp\<close>, exits with \<open>INTERNAL_ERROR\<close>.
\<close>

theorem session_shares_worker_channel:
  assumes init: "pipewire_module_init ienv = (0, Some d)" "\<forall>i < 3. spawn_ok (spawns ienv i)"
    and conn: "0 \<le> client_fd cenv" "received_meta cenv = Some (type_code ty, cost)" "response_sent cenv"
    and plugin: "alloc_ok penv" "0 \<le> sock penv" "connect_ok penv" "send_ok penv" "map_ok penv" "shm_wf m"
    and wire: "on_plugin_connection True cenv d = (recv_worker_id penv, [f1, f2, f3], cl)"
      "fd_messages penv = (Rights f1, Rights f2, Rights f3)"
  shows "\<exists>c node passed. sdk_connect True penv ty cost m = Inr (Some c, []) \<and> cx_shm c \<and> cx_worker_id c = type_code ty \<and>
    compute_nodes d ! unat (type_code ty) = node \<and>
    spawn_worker (spawns ienv (unat (type_code ty))) (node_zero\<lparr>sn_worker_id := int (unat (type_code ty))\<rparr>) = (node, passed) \<and>
    passed = [cx_shm_fd c, cx_eventfd_send c, cx_eventfd_recv c] \<and> cl = [client_fd cenv] \<and>
    worker_options (worker_command node) = (type_str (int (unat (type_code ty))), int (unat (type_code ty))) \<and>
    (ty = DSP_ACCEL_TYPE_REMOTE \<longrightarrow> (\<exists>m'. worker_main (real_driver api) (worker_command node) f1 f2 f3 (Some shm_zero) base =
      Inr (Inl (Some m')) \<and> last_error (workers m' ! 2) = INTERNAL_ERROR))"
proof -
  let ?i = "unat (type_code ty)"
  let ?env = "spawns ienv ?i"
  have ok: "spawn_ok ?env" using init(2) type_code_facts(1) by blast
  note c = connection_of_type [OF init conn]
  note sp = spawn_started [OF ok, of ?i]
  have f: "recv_worker_id penv = Some (type_code ty)" "f1 = memfd ?env" "f2 = efd_send ?env" "f3 = efd_recv ?env" "cl = [client_fd cenv]"
    using wire(1) c(1) by simp_all
  have nn: "0 \<le> f1" "0 \<le> f2" "0 \<le> f3" using ok f by (simp_all add: spawn_ok_def)
  from connect_joins [OF plugin f(1) wire(2) nn, of cost] obtain x where
    x: "sdk_connect True penv ty cost m = Inr (Some x, [])" "cx_shm x" "cx_worker_id x = type_code ty"
      "cx_shm_fd x = f1" "cx_eventfd_send x = f2" "cx_eventfd_recv x = f3" by blast
  note o = command_read_back [of "started_node ?env ?i", simplified]
  have r: "\<exists>m'. worker_main (real_driver api) (worker_command (started_node ?env ?i)) f1 f2 f3 (Some shm_zero) base = Inr (Inl (Some m')) \<and>
      last_error (workers m' ! 2) = INTERNAL_ERROR" if "ty = DSP_ACCEL_TYPE_REMOTE"
  proof -
    have "worker_options (worker_command (started_node ?env ?i)) = (''dsp'', 2)" using o that by (simp add: type_code_def type_str_def)
    then show ?thesis using start_cases [of shm_zero 2 f1 f2 f3 api "''dsp''" base] nn by (auto simp: worker_main_def)
  qed
  from x o r c(2) sp f show ?thesis
    by (intro exI [of _ x] exI [of _ "started_node ?env ?i"] exI [of _ "[f1, f2, f3]"]) simp
qed

definition demo_spawn :: "nat \<Rightarrow> spawn_env" where
  "demo_spawn i = \<lparr>memfd = 10 + 3 * int i, truncate_ok = True, efd_send = 11 + 3 * int i, efd_recv = 12 + 3 * int i, shm_map_ok = True,
     socketpair_ok = True, fork_pid = 100 + int i\<rparr>"

definition demo_init :: init_env where
  "demo_init = \<lparr>data_ok = True, server_socket = 4, bind_ok = True, bind_errno = 0, spawns = demo_spawn\<rparr>"

definition demo_module :: module_data where
  "demo_module = \<lparr>server_fd = 4, listening = True,
     compute_nodes = map (\<lambda>i. fst (spawn_worker (demo_spawn i) (node_zero\<lparr>sn_worker_id := int i\<rparr>))) [0..<3]\<rparr>"

definition demo_client :: connection_env where
  "demo_client = \<lparr>client_fd = 30, received_meta = Some (2, f32_zero), response_sent = True\<rparr>"

definition demo_plugin :: connect_env where
  "demo_plugin = \<lparr>alloc_ok = True, sock = 3, connect_ok = True, send_ok = True, recv_worker_id = Some 2,
     fd_messages = (Rights 16, Rights 17, Rights 18), map_ok = True\<rparr>"

lemma demo_spawn_ok: "spawn_ok (demo_spawn i)"
  by (simp add: spawn_ok_def demo_spawn_def)

lemma demo_module_init: "pipewire_module_init demo_init = (0, Some demo_module)"
  by (simp add: pipewire_module_init_def demo_init_def demo_module_def)

lemma demo_module_nodes:
  "compute_nodes demo_module = map (\<lambda>i. \<lparr>sn_shm = Some shm_zero, sn_worker_id = int i, last_heartbeat = 0, is_active = True,
     worker_pid = 100 + int i, sn_shm_fd = 10 + 3 * int i, sn_e_send = 11 + 3 * int i, sn_e_recv = 12 + 3 * int i\<rparr>) [0, 1, 2]"
  unfolding demo_module_def spawn_worker_ok [OF demo_spawn_ok] by (simp add: node_zero_def demo_spawn_def upt_rec)

theorem session_shares_worker_channel_witness:
  "\<exists>c m'. sdk_connect True demo_plugin DSP_ACCEL_TYPE_REMOTE f32_zero shm_zero = Inr (Some c, []) \<and> cx_eventfd_recv c = 18 \<and>
     worker_main (real_driver demo_api) (worker_command (compute_nodes demo_module ! 2)) 16 17 18 (Some shm_zero) 4096 = Inr (Inl (Some m')) \<and>
     last_error (workers m' ! 2) = INTERNAL_ERROR"
proof -
  have s: "\<forall>i < 3. spawn_ok (spawns demo_init i)" by (simp add: demo_init_def demo_spawn_ok)
  have c: "0 \<le> client_fd demo_client" "received_meta demo_client = Some (type_code DSP_ACCEL_TYPE_REMOTE, f32_zero)"
    "response_sent demo_client" by (simp_all add: demo_client_def type_code_def)
  have p: "alloc_ok demo_plugin" "0 \<le> sock demo_plugin" "connect_ok demo_plugin" "send_ok demo_plugin" "map_ok demo_plugin" "shm_wf shm_zero"
    by (simp_all add: demo_plugin_def)
  have w: "on_plugin_connection True demo_client demo_module = (recv_worker_id demo_plugin, [16, 17, 18], [30])"
    "fd_messages demo_plugin = (Rights 16, Rights 17, Rights 18)"
    by (simp_all add: on_plugin_connection_def demo_client_def demo_module_nodes demo_plugin_def)
  from session_shares_worker_channel [OF demo_module_init s c p w, of demo_api 4096] show ?thesis
    by (auto simp: type_code_def demo_init_def spawn_worker_ok [OF demo_spawn_ok]) (simp add: demo_spawn_def)
qed

theorem request_routed_to_first_healthy_witness:
  "handle_plugin_request demo_spawn (Some demo_module) (Some 0) = Inr (0, Some demo_module)"
proof -
  have "nodes_ok (compute_nodes demo_module)" "compute_nodes demo_module \<noteq> []" by (simp_all add: nodes_ok_def demo_module_nodes)
  from request_routed_to_first_healthy [OF this, of demo_spawn 0] show ?thesis
    by (simp add: demo_module_nodes healthy_def node_ctrl_def wcb_zero_def serviced_def upt_rec)
qed

section \<open>Unloading the module\<close>

text \<open>The descriptors a start of a worker obtains and keeps.\<close>

definition spawn_opened :: "spawn_env \<Rightarrow> int list" where
  "spawn_opened env = (if memfd env < 0 then [] else if \<not> truncate_ok env then [memfd env]
     else valid_fds [memfd env, efd_send env, efd_recv env])"

definition stopped_early :: "spawn_env \<Rightarrow> bool" where
  "stopped_early env \<longleftrightarrow> memfd env < 0 \<or> \<not> truncate_ok env"

lemma spawn_fds:
  fixes i :: nat
  assumes "node = fst (spawn_worker env (node_zero\<lparr>sn_worker_id := int i\<rparr>))"
  shows "mset (valid_fds [sn_shm_fd node, sn_e_send node, sn_e_recv node]) =
    mset (spawn_opened env) + (if stopped_early env then {#0, 0#} else {#})"
  using assms by (auto simp: spawn_worker_def spawn_opened_def stopped_early_def valid_fds_def node_zero_def Let_def)

lemma spawn_all_fds:
  "mset (concat (map (\<lambda>node. valid_fds [sn_shm_fd node, sn_e_send node, sn_e_recv node])
      (map (\<lambda>i. fst (spawn_worker (envs i) (node_zero\<lparr>sn_worker_id := int i\<rparr>))) is))) =
    mset (concat (map (\<lambda>i. spawn_opened (envs i)) is)) + replicate_mset (2 * length (filter (\<lambda>i. stopped_early (envs i)) is)) 0"
proof (induction "is")
  case (Cons i "is")
  then show ?case using spawn_fds [OF refl, of "envs i" i] by (simp add: numeral_2_eq_2)
qed simp

text \<open>
  Unloading the module closes the listening socket and exactly the descriptors its workers' starts
  obtained, each once; but for every start that stopped before it had created the event descriptors,
  it also closes descriptor 0 twice, because the node was zeroed and not set to -1.
\<close>

theorem module_closes_descriptors:
  assumes "pipewire_module_init env = (0, Some d)"
  shows "mset (fst (module_destroy d)) =
    mset (valid_fds [server_socket env] @ concat (map (\<lambda>i. spawn_opened (spawns env i)) [0..<3])) +
    replicate_mset (2 * length (filter (\<lambda>i. stopped_early (spawns env i)) [0..<3])) 0"
proof -
  have "d = \<lparr>server_fd = server_socket env, listening = (0 \<le> server_socket env),
      compute_nodes = map (\<lambda>i. fst (spawn_worker (spawns env i) (node_zero\<lparr>sn_worker_id := int i\<rparr>))) [0..<3]\<rparr>"
    using assms by (auto simp: pipewire_module_init_def split: if_splits)
  then show ?thesis using spawn_all_fds [of "spawns env" "[0..<3]"] by (simp add: module_destroy_def)
qed

theorem module_closes_descriptors_witness:
  "mset (fst (module_destroy demo_module)) = mset [4, 10, 11, 12, 13, 14, 15, 16, 17, 18]"
  using module_closes_descriptors [OF demo_module_init]
  by (simp add: demo_init_def demo_spawn_def spawn_opened_def stopped_early_def valid_fds_def upt_rec)

end
