(* ===== verification/Handoff.thy ===== *)
theory Handoff
  imports Supervisor_Spec
begin

text \<open>
  How a worker process gets its descriptors: the supervisor sends them one by one over a socket pair
  (\<open>pass_fd_to_child\<close> in \<open>daemon/pipewire/module-dsp-accel.cpp\<close>, whose results it ignores), closes its end,
  and the worker receives three messages (\<open>recv_fd\<close> in \<open>daemon/worker.cpp\<close>) before it starts. The end of
  the stream reads as a missing descriptor.
\<close>

section \<open>Sending and receiving\<close>

text \<open>The message on the stream, if any: \<open>sendmsg\<close> refuses a descriptor that is not open.\<close>

definition pass_fd_to_child :: "bool \<Rightarrow> int \<Rightarrow> rights_message list" where
  "pass_fd_to_child sent fd = (if sent \<and> 0 \<le> fd then [Rights fd] else [])"

definition passed_messages :: "bool list \<Rightarrow> int list \<Rightarrow> rights_message list" where
  "passed_messages sent fds = concat (map2 pass_fd_to_child sent fds)"

text \<open>One \<open>recvmsg\<close> on the stream: the descriptor, and what is left of the stream.\<close>

fun worker_recv_fd :: "rights_message list \<Rightarrow> int \<times> rights_message list" where
  "worker_recv_fd [] = (- 1, [])"
| "worker_recv_fd (No_Message # rest) = (- 1, rest)"
| "worker_recv_fd (No_Rights # rest) = (- 1, rest)"
| "worker_recv_fd (Rights fd # rest) = (fd, rest)"

definition worker_receive :: "rights_message list \<Rightarrow> int \<times> int \<times> int" where
  "worker_receive msgs =
     (let (shm_fd, msgs1) = worker_recv_fd msgs; (e_send, msgs2) = worker_recv_fd msgs1; (e_recv, msgs3) = worker_recv_fd msgs2
      in (shm_fd, e_send, e_recv))"

text \<open>
  The process from its command line to the loop. \<open>maps\<close> is what \<open>mmap\<close> delivers for a descriptor.
\<close>

definition worker_process :: "'c vk_driver \<Rightarrow> (char \<times> string) list \<Rightarrow> (int \<Rightarrow> dsp_shared_memory option) \<Rightarrow> u64
    \<Rightarrow> rights_message list \<Rightarrow> (dsp_shared_memory option + ('c vulkan_backend + npu_backend) worker) outcome" where
  "worker_process drv args maps base msgs =
     (let (fd, e_send, e_recv) = worker_receive msgs
      in worker_main drv args fd e_send e_recv (if 0 \<le> fd then maps fd else None) base)"

section \<open>Lemmas\<close>

lemma pass_cases:
  obtains (sent) "pass_fd_to_child s fd = [Rights fd]" "s" "0 \<le> fd" | (lost) "pass_fd_to_child s fd = []" "\<not> (s \<and> 0 \<le> fd)"
  by (cases "s \<and> 0 \<le> fd") (auto simp: pass_fd_to_child_def)

text \<open>Either all three messages arrive, or the last descriptor is missing.\<close>

lemma receive_passed:
  "worker_receive (passed_messages [s1, s2, s3] [fd1, fd2, fd3]) =
     (if s1 \<and> s2 \<and> s3 \<and> 0 \<le> fd1 \<and> 0 \<le> fd2 \<and> 0 \<le> fd3 then (fd1, fd2, fd3)
      else (fst (worker_receive (passed_messages [s1, s2, s3] [fd1, fd2, fd3])),
            fst (snd (worker_receive (passed_messages [s1, s2, s3] [fd1, fd2, fd3]))), - 1))"
  by (cases rule: pass_cases [of s1 fd1]; cases rule: pass_cases [of s2 fd2]; cases rule: pass_cases [of s3 fd3])
    (simp_all add: passed_messages_def worker_receive_def)

lemma worker_main_refuses:
  "e_recv < 0 \<Longrightarrow> worker_main drv args fd e_send e_recv mapped base = Inr (Inl mapped)"
  by (cases "worker_options args"; cases mapped) (simp_all add: worker_main_def worker_start_def)

text \<open>What a started worker's node looks like, whether or not its event descriptors exist.\<close>

lemma spawned_active:
  assumes "spawn_worker env node = (node', passed)" "is_active node'" "\<not> is_active node"
  shows "passed = [memfd env, efd_send env, efd_recv env]" "0 \<le> memfd env" "sn_shm node' = Some shm_zero"
    "sn_worker_id node' = sn_worker_id node" "sn_shm_fd node' = memfd env" "sn_e_send node' = efd_send env" "sn_e_recv node' = efd_recv env"
  using assms by (auto simp: spawn_worker_def Let_def split: if_splits)

section \<open>Properties\<close>

text \<open>
  C21: The handoff is all or nothing for the worker and not checked by the module. If every message was
  sent and the three descriptors exist, the worker process starts with exactly the descriptors the
  module keeps for it, in their order; if any message is lost or an event counter could not be
  created, the worker exits without touching the memory. In both cases the module counts the worker
  as active and healthy and answers a plugin's request with success because of it.
\<close>

theorem handoff_unchecked:
  assumes "spawn_worker env (node_zero\<lparr>sn_worker_id := int i\<rparr>) = (node, passed)" "is_active node" "i < 8" "length sent = 3"
  shows "worker_process drv (worker_command node) maps base (passed_messages sent passed) =
      (if list_all id sent \<and> 0 \<le> sn_e_send node \<and> 0 \<le> sn_e_recv node
       then worker_main drv (worker_command node) (sn_shm_fd node) (sn_e_send node) (sn_e_recv node) (maps (sn_shm_fd node)) base
       else Inr (Inl (let fd = fst (worker_receive (passed_messages sent passed)) in if 0 \<le> fd then maps fd else None))) \<and>
    handle_plugin_request envs (Some (d\<lparr>compute_nodes := node # rest\<rparr>)) (Some ty) = Inr (0, Some (d\<lparr>compute_nodes :=
      node\<lparr>last_heartbeat := 0\<rparr> # rest\<rparr>))"
proof -
  let ?n0 = "node_zero\<lparr>sn_worker_id := int i\<rparr>"
  note sp = spawned_active [OF assms(1,2)]
  have n: "passed = [memfd env, efd_send env, efd_recv env]" "0 \<le> memfd env" "sn_shm node = Some shm_zero" "sn_worker_id node = int i"
    "sn_shm_fd node = memfd env" "sn_e_send node = efd_send env" "sn_e_recv node = efd_recv env"
    using sp by (simp_all add: node_zero_def)
  obtain s1 s2 s3 where s: "sent = [s1, s2, s3]" using assms(4) by (auto simp: numeral_3_eq_3 length_Suc_conv)
  define r where "r = worker_receive (passed_messages sent passed)"
  have r: "r = (if list_all id sent \<and> 0 \<le> efd_send env \<and> 0 \<le> efd_recv env then (memfd env, efd_send env, efd_recv env)
      else (fst r, fst (snd r), - 1))"
    using receive_passed [of s1 s2 s3 "memfd env" "efd_send env" "efd_recv env"] n(2) unfolding r_def s n(1) by simp
  have p: "worker_process drv (worker_command node) maps base (passed_messages sent passed) =
      worker_main drv (worker_command node) (fst r) (fst (snd r)) (snd (snd r)) (if 0 \<le> fst r then maps (fst r) else None) base"
    by (simp add: worker_process_def r_def case_prod_unfold Let_def)
  have "worker_process drv (worker_command node) maps base (passed_messages sent passed) =
      (if list_all id sent \<and> 0 \<le> efd_send env \<and> 0 \<le> efd_recv env
       then worker_main drv (worker_command node) (memfd env) (efd_send env) (efd_recv env) (maps (memfd env)) base
       else Inr (Inl (if 0 \<le> fst r then maps (fst r) else None)))"
  proof (cases "list_all id sent \<and> 0 \<le> efd_send env \<and> 0 \<le> efd_recv env")
    case True
    with r have "r = (memfd env, efd_send env, efd_recv env)" by simp
    with True n(2) p show ?thesis by simp
  next
    case False
    with r have "snd (snd r) = - 1" by (metis snd_conv)
    then show ?thesis unfolding p if_not_P [OF False] by (simp add: worker_main_refuses)
  qed
  moreover have "control_block shm_zero (int i) = Inr wcb_zero"
    using assms(3) shm_zero_wf by (simp add: control_block_def shm_wf_def)
  then have "handle_plugin_request envs (Some (d\<lparr>compute_nodes := node # rest\<rparr>)) (Some ty) =
      Inr (0, Some (d\<lparr>compute_nodes := node\<lparr>last_heartbeat := 0\<rparr> # rest\<rparr>))"
    using assms(2) n(3,4) by (simp add: handle_plugin_request_def wcb_zero_def)
  ultimately show ?thesis unfolding r_def n(5-7) by (simp add: Let_def)
qed

text \<open>The two ways the handoff can end for the NPU worker: complete, and without the first event counter.\<close>

theorem handoff_unchecked_witness:
  "(\<exists>w. worker_process (real_driver demo_api) (worker_command (fst (spawn_worker (demo_spawn 1) (node_zero\<lparr>sn_worker_id := 1\<rparr>))))
       (\<lambda>fd. Some shm_zero) 4096 [Rights 13, Rights 14, Rights 15] = Inr (Inr w)) \<and>
   worker_process (real_driver demo_api) (worker_command (fst (spawn_worker (demo_spawn 1) (node_zero\<lparr>sn_worker_id := 1\<rparr>))))
       (\<lambda>fd. Some shm_zero) 4096 [Rights 13, Rights 15] = Inr (Inl (Some shm_zero))"
proof -
  let ?n0 = "node_zero\<lparr>sn_worker_id := int 1\<rparr>"
  obtain node passed where n: "spawn_worker (demo_spawn 1) ?n0 = (node, passed)" by fastforce
  have a: "is_active node" "passed = [13, 14, 15]" "sn_e_send node = 14" "sn_e_recv node = 15" "sn_shm_fd node = 13"
      "worker_command node = [(CHR ''t'', ''npu''), (CHR ''i'', to_string 1)]"
    using n [unfolded spawn_worker_ok [OF demo_spawn_ok], symmetric] by (simp_all add: demo_spawn_def worker_command_def type_str_def)
  have all: "worker_process (real_driver demo_api) (worker_command node) (\<lambda>fd. Some shm_zero) 4096 [Rights 13, Rights 14, Rights 15] =
      worker_main (real_driver demo_api) (worker_command node) 13 14 15 (Some shm_zero) 4096"
    using handoff_unchecked [OF n a(1), of "[True, True, True]" "real_driver demo_api" "\<lambda>fd. Some shm_zero" 4096]
    by (simp add: a(2-5) passed_messages_def pass_fd_to_child_def)
  have lost: "worker_process (real_driver demo_api) (worker_command node) (\<lambda>fd. Some shm_zero) 4096 [Rights 13, Rights 15] = Inr (Inl (Some shm_zero))"
    using handoff_unchecked [OF n a(1), of "[True, False, True]" "real_driver demo_api" "\<lambda>fd. Some shm_zero" 4096]
    by (simp add: a(2-5) passed_messages_def pass_fd_to_child_def worker_receive_def)
  have "worker_options (worker_command node) = (''npu'', 1)"
    by (simp add: a(6) worker_options_def atoi_to_string)
  then obtain w where "worker_main (real_driver demo_api) (worker_command node) 13 14 15 (Some shm_zero) 4096 = Inr (Inr w)"
    using start_cases [of shm_zero 1 13 14 15 demo_api "''npu''" 4096] by (auto simp: worker_main_def)
  with all lost n show ?thesis by simp
qed

end
