(* ===== verification/Whole_System.thy ===== *)
theory Whole_System
  imports Session_Cycles Handoff
begin

text \<open>
  The parts put together: the module starts its workers and hands them their descriptors, a plugin
  connects and joins the channel of the worker of its type, and host and worker exchange blocks over it.
\<close>

section \<open>The state after the two sides have met\<close>

definition new_session :: "sdk_ctx \<Rightarrow> (dsp_vulkan_context vulkan_backend + npu_backend) worker \<Rightarrow> session" where
  "new_session c w = \<lparr>se_ctx = c, se_worker = w, ev_send = 0, ev_recv = 0, se_sent = [], se_got = [], se_heard = []\<rparr>"

text \<open>
  The accelerator of a type is there: a Vulkan device that can be initialised and takes every submission;
  the processor array always is; there is no worker for the remote type.
\<close>

definition hardware :: "vk_api \<Rightarrow> DspWorkloadType \<Rightarrow> bool" where
  "hardware api ty = (case ty of
       DSP_ACCEL_TYPE_MASSIVELY_PARALLEL \<Rightarrow> real_init api 0 \<noteq> None \<and> (\<forall>i. vk_queue_submit api i)
     | DSP_ACCEL_TYPE_ARRAY_PROCESSOR \<Rightarrow> True
     | DSP_ACCEL_TYPE_REMOTE \<Rightarrow> False)"

abbreviation type_nr :: "DspWorkloadType \<Rightarrow> nat" where
  "type_nr ty \<equiv> unat (type_code ty)"

lemma hardware_initialised:
  assumes "hardware api ty"
  shows "\<exists>n. initialised api (type_str (int (type_nr ty))) = Some n \<and> plain_node n \<and> submits api n"
proof (cases ty)
  case DSP_ACCEL_TYPE_MASSIVELY_PARALLEL
  then have t: "type_str (int (type_nr ty)) = ''vulkan''" by (simp add: type_code_def type_str_def)
  obtain c where "real_init api 0 = Some c" using assms DSP_ACCEL_TYPE_MASSIVELY_PARALLEL by (auto simp: hardware_def)
  then have "initialised api ''vulkan'' = Some (Inl (new_vulkan_backend\<lparr>vk_ctx := Some c\<rparr>))"
    by (simp add: initialised_def make_node_def worker_ops_def sum_ops_def vulkan_ops_def vb_init_def real_driver_def)
  with t assms DSP_ACCEL_TYPE_MASSIVELY_PARALLEL show ?thesis by (auto simp: plain_node_def submits_def hardware_def)
next
  case DSP_ACCEL_TYPE_ARRAY_PROCESSOR
  then have t: "type_str (int (type_nr ty)) = ''npu''" by (simp add: type_code_def type_str_def)
  have "\<exists>v. initialised api ''npu'' = Some (Inr v)"
    by (simp add: initialised_def make_node_def worker_ops_def sum_ops_def npu_ops_def)
  with t show ?thesis by (auto simp: plain_node_def submits_def)
qed (use assms in \<open>simp add: hardware_def\<close>)

text \<open>Then a worker of the type starts.\<close>

lemma worker_starts:
  assumes "hardware api ty" "0 \<le> fd" "0 \<le> e1" "0 \<le> e2" "0 \<le> wid" "wid < 8"
  shows "\<exists>w. worker_start (real_ops api) make_node (type_str (int (type_nr ty))) wid fd e1 e2 (Some shm_zero) base = Inr (Inr w) \<and>
    worker_ok real_node_ok w \<and> passes_audio w \<and> submits api (nodes w 0) \<and> idle (shm w) \<and> worker_id w = wid \<and> is_ready (my_block w) \<and>
    last_error (my_block w) = NO_ERROR"
proof -
  let ?ty = "type_str (int (type_nr ty))"
  from hardware_initialised [OF assms(1)] obtain n where n: "initialised api ?ty = Some n" "plain_node n" "submits api n" by blast
  from start_eq [OF shm_zero_wf assms(5,6,2-4), of api ?ty base] n obtain q where
    q: "ring_of log_entry_wf 32 q" and w: "worker_start (real_ops api) make_node ?ty wid fd e1 e2 (Some shm_zero) base =
      Inr (Inr (ready_worker api wid fd base (with_block wid (\<lambda>b. b\<lparr>is_ready := True\<rparr>) shm_zero\<lparr>log_bus := q\<rparr>) n))" (is "_ = Inr (Inr ?w)")
    by auto
  have "shm_wf (shm ?w)" using shm_zero_wf q by (simp add: shm_wf_def ready_worker_def)
  then have "worker_ok real_node_ok ?w"
    using ready_worker_ok [of "shm ?w" wid n api fd base] initialised_ok [OF n(1)] assms(5,6)
    by (simp add: ready_worker_def)
  moreover have "idle (shm ?w)" by (simp add: idle_def ready_worker_def)
  moreover have "length (workers shm_zero) = 8" "workers shm_zero ! nat wid = wcb_zero"
    using shm_zero_wf assms(5,6) by (auto simp: shm_wf_def shm_zero_def nth_replicate)
  then have b: "is_ready (my_block ?w)" "last_error (my_block ?w) = NO_ERROR" "\<not> bypass_zero_copy (my_block ?w)"
    using assms(5,6) by (simp_all add: my_block_def ready_worker_def wcb_zero_def)
  moreover have "passes_audio ?w" "submits api (nodes ?w 0)"
    using n(2,3) b(3) unfolding passes_audio_def
    by (auto simp: ready_worker_def plain_node_def submits_def worker_ops_def sum_ops_def vulkan_ops_def npu_ops_def
        add_node_to_sequence_def empty_graph_def split: sum.splits)
  ultimately show ?thesis using w by (intro exI [of _ ?w]) (simp add: ready_worker_def)
qed

text \<open>An idle worker and a library that has just joined are in step.\<close>

lemma new_session_steady:
  assumes "worker_ok real_node_ok w" "passes_audio w" "submits api (nodes w 0)" "idle (shm w)" "last_error (my_block w) = NO_ERROR"
    and "ctx_ok c (shm w)" "uint (cx_worker_id c) = worker_id w" "last_worker_heartbeat c = heartbeat (my_block w)" "heartbeat_stalled_count c = 0"
  shows "steady api n k 0 [] (new_session c w)" "fresh (new_session c w)"
proof -
  have wf: "session_wf (new_session c w)"
    using assms(1,4,6) by (simp add: session_wf_def new_session_def idle_def)
  moreover have "healthy_link (new_session c w)"
    using assms(5,7-9) by (simp add: healthy_link_def new_session_def watchdog_def)
  ultimately show "steady api n k 0 [] (new_session c w)"
    using assms(2-4) by (simp add: steady_def new_session_def idle_def)
  show "fresh (new_session c w)" using wf assms(4) by (simp add: fresh_def blocks_def new_session_def idle_def)
qed

section \<open>Start-up and connection\<close>

text \<open>
  The system calls of a connection succeed and the library receives what the module sends: the number of
  the worker and one descriptor in each of the three messages.
\<close>

definition session_ok :: "DspWorkloadType \<Rightarrow> f32 \<Rightarrow> module_data \<Rightarrow> connection_env \<Rightarrow> connect_env \<Rightarrow> bool" where
  "session_ok ty cost d cenv penv \<longleftrightarrow>
     0 \<le> client_fd cenv \<and> received_meta cenv = Some (type_code ty, cost) \<and> response_sent cenv \<and>
     alloc_ok penv \<and> 0 \<le> sock penv \<and> connect_ok penv \<and> send_ok penv \<and> map_ok penv \<and>
     (case on_plugin_connection True cenv d of (wid, fds, gone) \<Rightarrow>
        recv_worker_id penv = wid \<and> (case fd_messages penv of (m1, m2, m3) \<Rightarrow> [m1, m2, m3] = map Rights fds))"

text \<open>What the worker process of a type gets from the module, and what it becomes.\<close>

abbreviation type_fds :: "init_env \<Rightarrow> DspWorkloadType \<Rightarrow> int list" where
  "type_fds ienv ty \<equiv> [memfd (spawns ienv (type_nr ty)), efd_send (spawns ienv (type_nr ty)), efd_recv (spawns ienv (type_nr ty))]"

lemma process_runs:
  assumes "pipewire_module_init ienv = (0, Some d)" "\<forall>i < 3. spawn_ok (spawns ienv i)"
    and "maps (memfd (spawns ienv (type_nr ty))) = Some shm_zero" "hardware api ty"
  shows "\<exists>w. worker_process (real_driver api) (worker_command (compute_nodes d ! type_nr ty)) maps base
      (passed_messages [True, True, True] (type_fds ienv ty)) = Inr (Inr w) \<and>
    worker_ok real_node_ok w \<and> passes_audio w \<and> submits api (nodes w 0) \<and> idle (shm w) \<and> worker_id w = int (type_nr ty) \<and>
    is_ready (my_block w) \<and> last_error (my_block w) = NO_ERROR"
proof -
  let ?env = "spawns ienv (type_nr ty)"
  have i: "type_nr ty < 3" by (rule type_code_facts(1))
  then have nn: "0 \<le> memfd ?env" "0 \<le> efd_send ?env" "0 \<le> efd_recv ?env" using assms(2) by (auto simp: spawn_ok_def)
  have "compute_nodes d ! type_nr ty = started_node ?env (type_nr ty)" using i by (simp add: module_nodes [OF assms(1,2)] nth_append)
  then have o: "worker_options (worker_command (compute_nodes d ! type_nr ty)) = (type_str (int (type_nr ty)), int (type_nr ty))"
    using command_read_back [of "started_node ?env (type_nr ty)"] i by simp
  have rc: "worker_receive (passed_messages [True, True, True] (type_fds ienv ty)) = (memfd ?env, efd_send ?env, efd_recv ?env)"
    using receive_passed [of True True True "memfd ?env" "efd_send ?env" "efd_recv ?env"] nn by simp
  have "0 \<le> int (type_nr ty)" "int (type_nr ty) < 8" using i by linarith+
  from worker_starts [OF assms(4) nn this, of base] nn(1) assms(3) show ?thesis
    unfolding worker_process_def rc worker_main_def o by simp
qed

lemma plugin_joins:
  assumes "pipewire_module_init ienv = (0, Some d)" "\<forall>i < 3. spawn_ok (spawns ienv i)"
    and "session_ok ty cost d cenv penv" "worker_ok real_node_ok w" "worker_id w = int (type_nr ty)"
  shows "\<exists>c. sdk_connect True penv ty cost (shm w) = Inr (Some c, []) \<and> ctx_ok c (shm w) \<and>
    [cx_shm_fd c, cx_eventfd_send c, cx_eventfd_recv c] = type_fds ienv ty \<and> uint (cx_worker_id c) = worker_id w \<and>
    last_worker_heartbeat c = heartbeat (my_block w) \<and> heartbeat_stalled_count c = 0"
proof -
  let ?env = "spawns ienv (type_nr ty)"
  have c: "0 \<le> client_fd cenv" "received_meta cenv = Some (type_code ty, cost)" "response_sent cenv"
    and p: "alloc_ok penv" "0 \<le> sock penv" "connect_ok penv" "send_ok penv" "map_ok penv"
    using assms(3) by (simp_all add: session_ok_def)
  have r: "recv_worker_id penv = Some (type_code ty)"
    "fd_messages penv = (Rights (memfd ?env), Rights (efd_send ?env), Rights (efd_recv ?env))"
    using assms(3) by (simp_all add: session_ok_def connection_of_type [OF assms(1,2) c] split: prod.splits)
  have "0 \<le> memfd ?env" "0 \<le> efd_send ?env" "0 \<le> efd_recv ?env"
    using assms(2) type_code_facts(1) [of ty] by (auto simp: spawn_ok_def)
  from connect_joins [OF p worker_okD(1) [OF assms(4)] r this, of cost] assms(5) show ?thesis
    by (auto simp: my_block_def)
qed

section \<open>Properties\<close>

text \<open>
  C1: The whole system works with either accelerator: if it is there, the system calls of the start-up and
  of a connection succeed and the messages arrive, the worker process of the type starts, the library
  of a plugin of the type joins its memory, and from then on any number of cycles of the host
  (dispatch, one iteration of the worker, read-back) succeeds and every cycle returns its own block,
  unchanged in the first \<open>min frames 256\<close> samples of the first 8 channels. So what the Vulkan device computes
  never reaches the plugin: its gain and its other parameters have no effect.
\<close>

theorem whole_system_echoes:
  assumes init: "pipewire_module_init ienv = (0, Some d)" "\<forall>i < 3. spawn_ok (spawns ienv i)"
      "maps (memfd (spawns ienv (type_nr ty))) = Some shm_zero" "hardware api ty"
    and conn: "session_ok ty cost d cenv penv"
    and host: "list_all (cycle_ok frames channels) hs" "0 < frames" "channels < 2 ^ 31"
  shows "\<exists>w c s. worker_process (real_driver api) (worker_command (compute_nodes d ! type_nr ty)) maps base
      (passed_messages [True, True, True] (type_fds ienv ty)) = Inr (Inr w) \<and>
    sdk_connect True penv ty cost (shm w) = Inr (Some c, []) \<and> is_ready (my_block w) \<and>
    for_each (run_cycle api front frames channels) hs (new_session c w) = Inr s \<and>
    se_heard s = map (\<lambda>h. echoed (clamp_frames frames) (clamp_channels channels) (hc_in h) (hc_out h)) hs"
proof -
  from process_runs [where base = base and maps = maps, OF init] obtain w where
    p: "worker_process (real_driver api) (worker_command (compute_nodes d ! type_nr ty)) maps base
      (passed_messages [True, True, True] (type_fds ienv ty)) = Inr (Inr w)"
    and w: "worker_ok real_node_ok w" "passes_audio w" "submits api (nodes w 0)" "idle (shm w)" "last_error (my_block w) = NO_ERROR"
      "worker_id w = int (type_nr ty)" "is_ready (my_block w)" by blast
  from plugin_joins [OF init(1,2) conn w(1,6)] obtain c where
    c: "sdk_connect True penv ty cost (shm w) = Inr (Some c, [])" "ctx_ok c (shm w)"
      "uint (cx_worker_id c) = worker_id w" "last_worker_heartbeat c = heartbeat (my_block w)" "heartbeat_stalled_count c = 0" by blast
  have "steady api (clamp_frames frames) (clamp_channels channels) 0 [] (new_session c w)"
    using new_session_steady(1) [OF w(1-5) c(2-5)] .
  from cycles_delayed [OF this host, of front] obtain s where
    "for_each (run_cycle api front frames channels) hs (new_session c w) = Inr s"
    "se_heard s = map2 (echoed (clamp_frames frames) (clamp_channels channels)) (map hc_in hs) (map hc_out hs)"
    by (auto simp: new_session_def)
  with p c(1) w(7) show ?thesis by (auto simp: zip_map_map zip_same_conv_map)
qed

section \<open>Witness\<close>

text \<open>Plugins of the two types, with the descriptors of the first and of the second worker.\<close>

definition type_client :: "DspWorkloadType \<Rightarrow> connection_env" where
  "type_client ty = \<lparr>client_fd = 30, received_meta = Some (type_code ty, f32_zero), response_sent = True\<rparr>"

definition type_plugin :: "DspWorkloadType \<Rightarrow> connect_env" where
  "type_plugin ty = \<lparr>alloc_ok = True, sock = 3, connect_ok = True, send_ok = True, recv_worker_id = Some (type_code ty),
     fd_messages = (let i = 3 * int (type_nr ty) in (Rights (10 + i), Rights (11 + i), Rights (12 + i))), map_ok = True\<rparr>"

definition demo_cycle :: host_cycle where
  "demo_cycle = \<lparr>hc_dispatch = demo_dispatch, hc_work = demo_env, hc_read = 0, hc_in = demo_buffers, hc_out = silence\<rparr>"

lemma demo_started: "\<forall>i < 3. spawn_ok (spawns demo_init i)"
  by (simp add: demo_init_def demo_spawn_ok)

lemma type_session: "session_ok ty f32_zero demo_module (type_client ty) (type_plugin ty)"
proof -
  have "0 \<le> client_fd (type_client ty)" "received_meta (type_client ty) = Some (type_code ty, f32_zero)" "response_sent (type_client ty)"
    by (simp_all add: type_client_def)
  from connection_of_type(1) [OF demo_module_init demo_started this] show ?thesis
    by (simp add: session_ok_def type_client_def type_plugin_def demo_init_def Let_def) (simp add: demo_spawn_def)
qed

lemma demo_hardware: "hardware demo_api DSP_ACCEL_TYPE_MASSIVELY_PARALLEL" "hardware demo_api DSP_ACCEL_TYPE_ARRAY_PROCESSOR"
proof -
  have "real_init demo_api 0 \<noteq> None"
    by (simp add: real_init_def dsp_vulkan_init_def demo_api_def Let_def)
  then show "hardware demo_api DSP_ACCEL_TYPE_MASSIVELY_PARALLEL" "hardware demo_api DSP_ACCEL_TYPE_ARRAY_PROCESSOR"
    by (simp_all add: hardware_def) (simp add: demo_api_def)
qed

lemma demo_echo:
  "echoed (clamp_frames 64) (clamp_channels 2) demo_buffers silence = [replicate 64 (flit binary32 1), replicate 64 f32_zero]"
  by (simp add: echoed_def clamp_frames_def clamp_channels_def silence_def demo_buffers_def)

text \<open>Three cycles with the Vulkan device from the start of the module, and each returns the two channels it was given.\<close>

theorem whole_system_echoes_witness:
  "\<exists>w c s. worker_process (real_driver demo_api) (worker_command (compute_nodes demo_module ! 0)) (\<lambda>fd. Some shm_zero) 4096
       (passed_messages [True, True, True] [10, 11, 12]) = Inr (Inr w) \<and>
     sdk_connect True (type_plugin DSP_ACCEL_TYPE_MASSIVELY_PARALLEL) DSP_ACCEL_TYPE_MASSIVELY_PARALLEL f32_zero (shm w) = Inr (Some c, []) \<and>
     for_each (run_cycle demo_api [] 64 2) (replicate 3 demo_cycle) (new_session c w) = Inr s \<and>
     se_heard s = replicate 3 [replicate 64 (flit binary32 1), replicate 64 f32_zero]"
proof -
  let ?ty = "DSP_ACCEL_TYPE_MASSIVELY_PARALLEL"
  have t: "type_nr ?ty = 0" "[memfd (spawns demo_init 0), efd_send (spawns demo_init 0), efd_recv (spawns demo_init 0)] = [10, 11, 12]"
    by (simp_all add: type_code_def demo_init_def demo_spawn_def)
  have h: "list_all (cycle_ok 64 2) (replicate 3 demo_cycle)"
    using demo_call_ok silence_ok(1) demo_signals by (simp add: cycle_ok_def demo_cycle_def list_all_iff)
  have m: "map (\<lambda>h. echoed (clamp_frames 64) (clamp_channels 2) (hc_in h) (hc_out h)) (replicate 3 demo_cycle) =
      replicate 3 [replicate 64 (flit binary32 1), replicate 64 f32_zero]"
    using demo_echo by (simp add: demo_cycle_def)
  have "(0::int) < 64" "(2::int) < 2 ^ 31" by simp_all
  from whole_system_echoes [where maps = "\<lambda>fd. Some shm_zero", OF demo_module_init demo_started refl demo_hardware(1) type_session h this,
      of 4096 "[]", unfolded m t]
  show ?thesis by blast
qed

end
