(* ===== verification/Two_Plugins.thy ===== *)
theory Two_Plugins
  imports Whole_System
begin

text \<open>
  More than one party where the code is made for one: two plugins of the same type, whom the module
  gives the same channel, and two producers on a ring that is made for a single one.
\<close>

section \<open>Two producers on one ring\<close>

text \<open>
  The input queue of a channel with two plugins has two producers, and so has the output queue of a
  worker with \<open>RemoteDspNode\<close>, whose receiving thread pushes to it. Both reserve a slot, fill it and commit
  it, and both reserve before either commits: the calls of \<open>reserve_write\<close>, the stores and the calls of
  \<open>commit_write\<close> in this order.
\<close>

definition write_both :: "'a \<Rightarrow> 'a \<Rightarrow> 'a ring \<Rightarrow> 'a ring option" where
  "write_both x y q =
     (case (reserve_write q, reserve_write q) of
        (Some i, Some j) \<Rightarrow> Some (commit_write (commit_write (store_slot (store_slot q i x) j y)))
      | _ \<Rightarrow> None)"

lemma store_slot_twice: "store_slot (store_slot q i x) i y = store_slot q i y"
  by (simp add: store_slot_def)

text \<open>Committing a slot of a full ring makes the ring empty.\<close>

lemma commit_full:
  assumes "ring_wf q" "length (items q) = ring_room q"
  shows "items (commit_write q) = []" "ring_wf (commit_write q)"
proof -
  have f: "(rb_tail q + 1) mod capacity q = rb_head q" using full_iff [OF assms(1)] assms(2) by simp
  then have "commit_write q = q\<lparr>rb_tail := rb_head q\<rparr>" by (simp add: commit_write_def Let_def)
  with assms(1) show w: "ring_wf (commit_write q)" by (simp add: ring_wf_def)
  have "empty (commit_write q)" using f by (simp add: empty_def commit_write_def Let_def)
  with empty_iff [OF w] show "items (commit_write q) = []" by simp
qed

text \<open>
  C13: A ring with two producers loses blocks: if both reserve a slot before either commits, they are given
  the same one. The first block is overwritten and the consumer is handed the second, followed by
  whatever the next slot last held; and if only one slot was free, the ring is empty afterwards: every
  block that was waiting is lost with it.
\<close>

theorem two_producers_lose_blocks:
  assumes "ring_wf q" "length (items q) < ring_room q"
  shows "\<exists>q'. write_both x y q = Some q' \<and> ring_wf q' \<and>
    items q' = (if Suc (length (items q)) = ring_room q then []
      else items q @ [y, slot_at q (Suc (unat (rb_tail q)) mod length (rb_data q))])"
proof -
  let ?t = "unat (rb_tail q)" and ?n = "length (rb_data q)"
  have r: "reserve_write q = Some ?t" using reserve_write_iff [OF assms(1)] assms(2) by simp
  let ?q1 = "commit_write (store_slot q ?t y)"
  note q1 = write_committed [OF assms(1) r, of y]
  have w: "write_both x y q = Some (commit_write ?q1)" by (simp add: write_both_def r store_slot_twice)
  have l: "length (items ?q1) = Suc (length (items q))" unfolding q1(1) by simp
  show ?thesis
  proof (cases "Suc (length (items q)) = ring_room q")
    case True
    then have "length (items ?q1) = ring_room ?q1" using l by simp
    from commit_full [OF q1(2) this] w True show ?thesis by simp
  next
    case False
    then have "length (items ?q1) \<noteq> ring_room ?q1" using l by simp
    then have "(rb_tail ?q1 + 1) mod capacity ?q1 \<noteq> rb_head ?q1" using full_iff [OF q1(2)] by simp
    note q2 = items_commit_write [OF q1(2) this]
    have tn: "?t < ?n" using assms(1) by (simp add: ring_wf_def)
    have t: "unat (rb_tail ?q1) = Suc ?t mod ?n"
      using unat_next [OF assms(1) tn] by (simp add: commit_write_def store_slot_def capacity_def Let_def)
    have n: "1 < ?n" using assms(2) by (simp add: ring_room_def)
    have "Suc ?t mod ?n \<noteq> ?t" using tn n by (cases "Suc ?t = ?n") auto
    then have "rb_data ?q1 ! unat (rb_tail ?q1) = slot_at q (Suc ?t mod ?n)"
      unfolding t by (simp add: commit_write_def store_slot_def slot_at_def Let_def)
    with q2 q1(1) w False show ?thesis by simp
  qed
qed

text \<open>
  An empty ring of four slots and an empty ring of two: the first holds the second item and a zero that
  nobody sent, the second nothing.
\<close>

theorem two_producers_lose_blocks_witness:
  "(\<exists>q'. write_both (1 :: u32) 2 (new_ring 4 0) = Some q' \<and> items q' = [2, 0]) \<and>
   (\<exists>q'. write_both (1 :: u32) 2 (new_ring 2 0) = Some q' \<and> items q' = [])"
proof -
  have r: "ring_wf (new_ring n (0 :: u32))" "length (items (new_ring n (0 :: u32))) < ring_room (new_ring n (0 :: u32))" if "1 < n" "n < 5" for n
    using that by (simp_all add: ring_room_def del: length_items) (simp_all add: new_ring_def)
  have f: "ring_room (new_ring n x) = n - 1" "rb_tail (new_ring n x) = 0" "length (rb_data (new_ring n x)) = n"
    "slot_at (new_ring 4 x) (Suc 0) = x" for n and x :: u32
    by (simp_all add: new_ring_def ring_room_def slot_at_def)
  show ?thesis
    using two_producers_lose_blocks [OF r, of 4 1 2] two_producers_lose_blocks [OF r, of 2 1 2]
    by (auto simp: f simp del: length_items)
qed

section \<open>Two plugins on one channel\<close>

text \<open>Another caller of the library on the same memory and the same event counters.\<close>

abbreviation as_caller :: "sdk_ctx \<Rightarrow> session \<Rightarrow> session" where
  "as_caller c s \<equiv> s\<lparr>se_ctx := c\<rparr>"

text \<open>
  C5: Two plugins of the same type interfere: both are sent the descriptors of the same worker, so they
  share its queues and its event counters. If the first dispatches a block and the worker processes
  it, a read-back of the second delivers the first plugin's audio to it, and the first plugin then
  gets nothing, as often as it asks.
\<close>

theorem second_plugin_takes_output:
  assumes init: "pipewire_module_init ienv = (0, Some d)" "\<forall>i < 3. spawn_ok (spawns ienv i)"
      "maps (memfd (spawns ienv (type_nr ty))) = Some shm_zero" "hardware api ty"
    and conn: "session_ok ty cost1 d cenv1 penv1" "session_ok ty cost2 d cenv2 penv2"
    and call: "call_ok b1 frames channels" "call_ok out2 frames channels" "0 < frames" "channels < 2 ^ 31"
    and env: "signal_ok denv" "env_ok env" "write_ok env"
  shows "\<exists>w c1 c2 s1 s2 s3. worker_process (real_driver api) (worker_command (compute_nodes d ! type_nr ty)) maps base
      (passed_messages [True, True, True] (type_fds ienv ty)) = Inr (Inr w) \<and>
    sdk_connect True penv1 ty cost1 (shm w) = Inr (Some c1, []) \<and>
    sdk_connect True penv2 ty cost2 (shm w) = Inr (Some c2, []) \<and>
    [cx_shm_fd c1, cx_eventfd_send c1, cx_eventfd_recv c1] = type_fds ienv ty \<and>
    [cx_shm_fd c2, cx_eventfd_send c2, cx_eventfd_recv c2] = type_fds ienv ty \<and>
    do_dispatch denv b1 frames channels (new_session c1 w) = Inr s1 \<and> do_work api front env s1 = Inr s2 \<and>
    do_read now out2 frames channels (as_caller c2 s2) = Inr s3 \<and>
    se_heard s3 = [echoed (clamp_frames frames) (clamp_channels channels) b1 out2] \<and>
    (\<forall>now out1 frames channels. do_read now out1 frames channels (as_caller (se_ctx s1) s3) = Inr (as_caller (se_ctx s1) s3))"
proof -
  from process_runs [where base = base and maps = maps, OF init] obtain w where
    p: "worker_process (real_driver api) (worker_command (compute_nodes d ! type_nr ty)) maps base
      (passed_messages [True, True, True] (type_fds ienv ty)) = Inr (Inr w)"
    and w: "worker_ok real_node_ok w" "passes_audio w" "submits api (nodes w 0)" "idle (shm w)" "last_error (my_block w) = NO_ERROR"
      "worker_id w = int (type_nr ty)" by blast
  from plugin_joins [OF init(1,2) conn(1) w(1,6)] obtain c1 where
    c1: "sdk_connect True penv1 ty cost1 (shm w) = Inr (Some c1, [])" "ctx_ok c1 (shm w)"
      "[cx_shm_fd c1, cx_eventfd_send c1, cx_eventfd_recv c1] = type_fds ienv ty" "uint (cx_worker_id c1) = worker_id w"
      "last_worker_heartbeat c1 = heartbeat (my_block w)" "heartbeat_stalled_count c1 = 0" by blast
  from plugin_joins [OF init(1,2) conn(2) w(1,6)] obtain c2 where
    c2: "sdk_connect True penv2 ty cost2 (shm w) = Inr (Some c2, [])" "ctx_ok c2 (shm w)"
      "[cx_shm_fd c2, cx_eventfd_send c2, cx_eventfd_recv c2] = type_fds ienv ty" by blast
  let ?s0 = "new_session c1 w" and ?n = "clamp_frames frames" and ?k = "clamp_channels channels"
  define h where "h = \<lparr>hc_dispatch = denv, hc_work = env, hc_read = now, hc_in = b1, hc_out = out2\<rparr>"
  have "cycle_ok frames channels h" using call(1,2) env by (simp add: cycle_ok_def h_def)
  from cycle_answered [OF new_session_steady(1) [OF w(1-5) c1(2,4-6)] this call(3), of front] obtain s1 s2 where
    r: "do_dispatch denv b1 frames channels ?s0 = Inr s1" "do_work api front env s1 = Inr s2" "steady api ?n ?k 0 [b1] s2"
      "0 < ev_recv s2" "out_items s2 \<noteq> []" "se_heard s2 = []" by (auto simp: h_def new_session_def)
  have c1': "ctx_ok (se_ctx s1) (shm (se_worker s1))"
    using do_dispatch_ok [OF _ call(1,3), of ?s0 denv] new_session_steady(1) [OF w(1-5) c1(2,4-6), of 0 0] r(1)
    by (auto simp: steady_def session_live_def dest: wf_live)
  obtain f where f: "out_items s2 = [f]" "in_items s2 = []" "holds ?n ?k b1 f" "session_wf s2"
    using r(3,5) by (auto simp: steady_def list_all2_Cons1 append_eq_Cons_conv)
  have "session_wf (as_caller c2 s2)" using f(4) c2(2) by (simp add: session_wf_def ctx_ok_def)
  from read_one [OF this _ _ f(3) call(2,4), of "[]" now] f(1) r(4,6) obtain s3 where
    h: "do_read now out2 frames channels (as_caller c2 s2) = Inr s3" "session_wf s3" "out_items s3 = []" "ev_recv s3 = 0"
      "se_heard s3 = [echoed ?n ?k b1 out2]" by auto
  have "session_live (as_caller (se_ctx s1) s3)" using wf_live [OF h(2)] c1' by (simp add: session_live_def ctx_ok_def)
  from do_read_nothing [OF this] h(3,4) have
    "do_read now out1 frames channels (as_caller (se_ctx s1) s3) = Inr (as_caller (se_ctx s1) s3)" for now out1 frames channels by simp
  with p c1(1,3) c2(1,3) r(1,2) h(1,5) show ?thesis by blast
qed

text \<open>The second plugin has buffers of silence and hears the first one's block.\<close>

theorem second_plugin_takes_output_witness:
  "\<exists>w c1 c2 s1 s2 s3. worker_process (real_driver demo_api) (worker_command (compute_nodes demo_module ! 1)) (\<lambda>fd. Some shm_zero) 4096
       (passed_messages [True, True, True] [13, 14, 15]) = Inr (Inr w) \<and>
     sdk_connect True (type_plugin DSP_ACCEL_TYPE_ARRAY_PROCESSOR) DSP_ACCEL_TYPE_ARRAY_PROCESSOR f32_zero (shm w) = Inr (Some c1, []) \<and>
     sdk_connect True (type_plugin DSP_ACCEL_TYPE_ARRAY_PROCESSOR) DSP_ACCEL_TYPE_ARRAY_PROCESSOR f32_zero (shm w) = Inr (Some c2, []) \<and>
     do_dispatch demo_dispatch demo_buffers 64 2 (new_session c1 w) = Inr s1 \<and> do_work demo_api [] demo_env s1 = Inr s2 \<and>
     do_read 0 silence 64 2 (as_caller c2 s2) = Inr s3 \<and> se_heard s3 = [[replicate 64 (flit binary32 1), replicate 64 f32_zero]] \<and>
     do_read 0 silence 64 2 (as_caller (se_ctx s1) s3) = Inr (as_caller (se_ctx s1) s3)"
proof -
  let ?ty = "DSP_ACCEL_TYPE_ARRAY_PROCESSOR"
  have t: "type_nr ?ty = 1" "[memfd (spawns demo_init 1), efd_send (spawns demo_init 1), efd_recv (spawns demo_init 1)] = [13, 14, 15]"
    by (simp_all add: type_code_def demo_init_def demo_spawn_def)
  have z: "(0::int) < 64" "(2::int) < 2 ^ 31" by simp_all
  from second_plugin_takes_output [where maps = "\<lambda>fd. Some shm_zero", OF demo_module_init demo_started refl demo_hardware(2) type_session type_session
      demo_call_ok silence_ok(1) z demo_signals, of 4096 "[]" 0, unfolded t demo_echo]
  show ?thesis by blast
qed

end
