(* ===== verification/Worker_Main.thy ===== *)
theory Worker_Main
  imports Worker_Spec
begin

text \<open>
  The second source of the worker program, \<open>daemon/worker_main.cpp\<close>. It is a copy of
  \<open>daemon/worker.cpp\<close> in which nobody receives the three descriptors any more (\<open>shm_fd\<close>, \<open>e_send\<close> and
  \<open>e_recv\<close> are used without a declaration, so that the file does not compile as it stands) and in
  which the start-up no longer checks \<open>e_recv\<close>. The descriptors are parameters here. The definitions
  follow the file on its own; the parts of the loop whose text is the same in both files are those of
  theory \<open>Worker\<close>. What the missing check changes is proved: nothing but the plugin's wake-ups.
\<close>

section \<open>Start-up\<close>

text \<open>
  Lines 182 to 219. \<open>mapped\<close> is what \<open>mmap\<close> delivers, \<open>None\<close> when it fails or is not called.
\<close>

definition main_start :: "'n node_ops \<Rightarrow> (string \<Rightarrow> 'n option) \<Rightarrow> string \<Rightarrow> int \<Rightarrow> int \<Rightarrow> int
    \<Rightarrow> dsp_shared_memory option \<Rightarrow> u64 \<Rightarrow> (dsp_shared_memory option + 'n worker) outcome" where
  "main_start ops new_node ty wid fd e_send mapped base =
     (case mapped of
        None \<Rightarrow> Inr (Inl None)
      | Some m0 \<Rightarrow>
       (if fd < 0 \<or> e_send < 0 then Inr (Inl mapped)
        else case update_control_block (\<lambda>b. b\<lparr>is_ready := False\<rparr>) wid m0 of
            Inl e \<Rightarrow> Inl e
          | Inr m1 \<Rightarrow>
             (let primary = (case new_node ty of None \<Rightarrow> None
                     | Some n \<Rightarrow> (case node_init ops 0 n of (True, n1) \<Rightarrow> Some n1 | (False, n1) \<Rightarrow> None)) in
              case primary of
                None \<Rightarrow>
                  (case update_control_block (\<lambda>b. b\<lparr>last_error := INTERNAL_ERROR\<rparr>) wid m1 of
                     Inl e \<Rightarrow> Inl e
                   | Inr m2 \<Rightarrow> Inr (Inl (send_worker_log (Some m2) ''CORE'' ''Hardware initialization failed'' 2)))
              | Some n1 \<Rightarrow>
                  (case update_control_block (\<lambda>b. b\<lparr>is_ready := True\<rparr>) wid m1 of
                     Inl e \<Rightarrow> Inl e
                   | Inr m2 \<Rightarrow>
                      (case send_worker_log (Some m2) ''CORE'' ''Worker graph initialized successfully'' 0 of
                         None \<Rightarrow> Inr (Inl None)
                       | Some m3 \<Rightarrow>
                           Inr (Inr \<lparr>worker_id = wid, shm_fd = fd, shm_base = base, shm = m3,
                             graph = add_node_to_sequence empty_graph 0,
                             nodes = (\<lambda>k. set_shm_ptr ops n1 base), primary_node = 0, signals = 0\<rparr>))))))"

section \<open>The loop\<close>

text \<open>A \<open>write\<close> to a descriptor below 0 fails with \<open>EBADF\<close>, which the loop does not repeat.\<close>

definition reply_answer :: "int \<Rightarrow> loop_env \<Rightarrow> loop_env" where
  "reply_answer e_recv env = (if e_recv < 0 then env\<lparr>write_interrupts := 0, write_ok := False\<rparr> else env)"

text \<open>Lines 225 to 320.\<close>

definition main_iteration :: "'n node_ops \<Rightarrow> u8 list \<Rightarrow> int \<Rightarrow> loop_env \<Rightarrow> 'n worker \<Rightarrow> 'n worker outcome" where
  "main_iteration ops front e_recv env w =
     (case begin_iteration ops w of
        Inl e \<Rightarrow> Inl e
      | Inr w1 \<Rightarrow>
        (case apply_events ops w1 of
           Inl e \<Rightarrow> Inl e
         | Inr w2 \<Rightarrow>
           (if \<not> poll_ready env then serve_memory_bus ops front w2
            else if \<not> read_ok env then Inr w2
            else case process_frame ops (reply_answer e_recv env) w2 of
                Inl e \<Rightarrow> Inl e
              | Inr w3 \<Rightarrow> serve_memory_bus ops front w3)))"

definition main_loop :: "'n node_ops \<Rightarrow> u8 list \<Rightarrow> int \<Rightarrow> loop_env list \<Rightarrow> 'n worker \<Rightarrow> 'n worker outcome" where
  "main_loop ops front e_recv envs w = for_each (main_iteration ops front e_recv) envs w"

text \<open>The whole of \<open>main\<close>: the options, the start-up, and the loop if the start-up does not return.\<close>

definition main_program :: "'c vk_driver \<Rightarrow> u8 list \<Rightarrow> (char \<times> string) list \<Rightarrow> int \<Rightarrow> int \<Rightarrow> int \<Rightarrow> dsp_shared_memory option
    \<Rightarrow> u64 \<Rightarrow> loop_env list \<Rightarrow> (dsp_shared_memory option + ('c vulkan_backend + npu_backend) worker) outcome" where
  "main_program drv front args fd e_send e_recv mapped base envs =
     (let (ty, wid) = worker_options args in
      case main_start (worker_ops drv) make_node ty wid fd e_send mapped base of
        Inl e \<Rightarrow> Inl e
      | Inr (Inl m) \<Rightarrow> Inr (Inl m)
      | Inr (Inr w) \<Rightarrow>
          (case main_loop (worker_ops drv) front e_recv envs w of Inl e \<Rightarrow> Inl e | Inr w' \<Rightarrow> Inr (Inr w')))"

section \<open>Against the other worker\<close>

lemma main_start_eq:
  "main_start ops mk ty wid fd e_send mapped base = worker_start ops mk ty wid fd e_send 0 mapped base"
  by (cases mapped) (simp_all add: main_start_def worker_start_def)

lemma main_iteration_eq: "main_iteration ops front e_recv env = worker_iteration ops front (reply_answer e_recv env)"
  by (rule ext) (auto simp: main_iteration_def worker_iteration_def reply_answer_def split: sum.split)

lemma main_loop_eq: "main_loop ops front e_recv envs = worker_loop ops front (map (reply_answer e_recv) envs)"
proof (rule ext)
  show "main_loop ops front e_recv envs w = worker_loop ops front (map (reply_answer e_recv) envs) w" for w
    by (induction envs arbitrary: w) (simp_all add: main_loop_def worker_loop_def main_iteration_eq split: sum.split)
qed

text \<open>Two workers are the same to the plugin's memory if they differ in \<open>signals\<close> only.\<close>

definition unsignalled :: "'n worker outcome \<Rightarrow> 'n worker outcome" where
  "unsignalled r = (case r of Inl e \<Rightarrow> Inl e | Inr w \<Rightarrow> Inr (w\<lparr>signals := 0\<rparr>))"

lemma unsignalled_simps [simp]: "unsignalled (Inl e) = Inl e" "unsignalled (Inr w) = Inr (w\<lparr>signals := 0\<rparr>)"
  by (simp_all add: unsignalled_def)

lemma unsignalled_eqE:
  assumes "unsignalled r = unsignalled r'"
  obtains (failed) e where "r = Inl e" "r' = Inl e"
  | (ran) w w' where "r = Inr w" "r' = Inr w'" "w\<lparr>signals := 0\<rparr> = w'\<lparr>signals := 0\<rparr>"
  using assms by (cases r; cases r') simp_all

lemma signals_only: "(w\<lparr>signals := 0\<rparr> = w'\<lparr>signals := 0\<rparr>) = (\<exists>n. w' = w\<lparr>signals := n\<rparr>)"
proof
  assume eq: "w\<lparr>signals := 0\<rparr> = w'\<lparr>signals := 0\<rparr>"
  have "w' = w'\<lparr>signals := 0\<rparr>\<lparr>signals := signals w'\<rparr>" by simp
  then show "\<exists>n. w' = w\<lparr>signals := n\<rparr>" unfolding eq [symmetric] by auto
qed auto

text \<open>No step of the loop reads the count, and only \<open>process_frame\<close> changes it.\<close>

lemma steps_signals:
  "begin_iteration ops (w\<lparr>signals := n\<rparr>) = (case begin_iteration ops w of Inl e \<Rightarrow> Inl e | Inr w1 \<Rightarrow> Inr (w1\<lparr>signals := n\<rparr>))"
  "apply_events ops (w\<lparr>signals := n\<rparr>) = (case apply_events ops w of Inl e \<Rightarrow> Inl e | Inr w1 \<Rightarrow> Inr (w1\<lparr>signals := n\<rparr>))"
  "serve_memory_bus ops front (w\<lparr>signals := n\<rparr>) =
     (case serve_memory_bus ops front w of Inl e \<Rightarrow> Inl e | Inr w1 \<Rightarrow> Inr (w1\<lparr>signals := n\<rparr>))"
  by (simp_all add: begin_iteration_def apply_events_def serve_memory_bus_def split: sum.split prod.split)

lemma frame_signals:
  assumes "elapsed_us env = elapsed_us env'"
  shows "unsignalled (process_frame ops env (w\<lparr>signals := n\<rparr>)) = unsignalled (process_frame ops env' w)"
  using assms by (simp add: process_frame_def Let_def split: option.split sum.split prod.split)

lemma iteration_signals:
  assumes "w\<lparr>signals := 0\<rparr> = w'\<lparr>signals := 0\<rparr>"
  shows "unsignalled (main_iteration ops front e_recv env w) = unsignalled (worker_iteration ops front env w')"
proof -
  from assms obtain n where n: "w = w'\<lparr>signals := n\<rparr>" using signals_only [of w' w] by auto
  have el: "elapsed_us (reply_answer e_recv env) = elapsed_us env" by (simp add: reply_answer_def)
  have serve: "unsignalled (serve_memory_bus ops front (v\<lparr>signals := k\<rparr>)) = unsignalled (serve_memory_bus ops front v)" for v k
    by (simp add: steps_signals split: sum.split)
  have bus: "unsignalled (case r of Inl e \<Rightarrow> Inl e | Inr v \<Rightarrow> serve_memory_bus ops front v) =
      unsignalled (case r' of Inl e \<Rightarrow> Inl e | Inr v \<Rightarrow> serve_memory_bus ops front v)" if "unsignalled r = unsignalled r'" for r r'
    using that
  proof (cases rule: unsignalled_eqE)
    case (ran v v')
    then obtain k where "v = v'\<lparr>signals := k\<rparr>" using signals_only [of v' v] by auto
    with ran show ?thesis by (simp add: serve)
  qed simp
  show ?thesis
    unfolding n main_iteration_def worker_iteration_def
    using bus [OF frame_signals [OF el]] serve
    by (simp add: steps_signals split: sum.split)
qed

text \<open>
  The loop of \<open>worker_main.cpp\<close> does to the shared memory, the graph and the nodes what the loop of
  \<open>worker.cpp\<close> does, for every answer of the environment and whatever \<open>e_recv\<close> is: the two may differ
  in nothing but the number of times the plugin is signalled.
\<close>

theorem main_loop_simulates_worker:
  "unsignalled (main_loop ops front e_recv envs w) = unsignalled (worker_loop ops front envs w)"
proof -
  have "unsignalled (main_loop ops front e_recv envs w) = unsignalled (worker_loop ops front envs w')"
    if "w\<lparr>signals := 0\<rparr> = w'\<lparr>signals := 0\<rparr>" for w w'
    using that
  proof (induction envs arbitrary: w w')
    case Nil
    then show ?case by (simp add: main_loop_def worker_loop_def)
  next
    case (Cons env envs)
    from iteration_signals [OF Cons.prems, of ops front e_recv env] show ?case
    proof (cases rule: unsignalled_eqE)
      case (failed e)
      then show ?thesis by (simp add: main_loop_def worker_loop_def)
    next
      case (ran v v')
      from Cons.IH [OF ran(3)] ran(1,2) show ?thesis by (simp add: main_loop_def worker_loop_def)
    qed
  qed
  then show ?thesis by simp
qed

section \<open>Without a reply descriptor\<close>

text \<open>A failed reply leaves the count.\<close>

lemma iteration_silent:
  "worker_iteration ops front env w = Inr w' \<Longrightarrow> \<not> write_ok env \<Longrightarrow> signals w' = signals w"
  using iteration_rings by fastforce

lemma loop_silent:
  assumes "worker_loop ops front envs w = Inr w'" "list_all (\<lambda>env. \<not> write_ok env) envs"
  shows "signals w' = signals w"
  using assms
  by (induction envs arbitrary: w) (auto simp: worker_loop_def dest: iteration_silent split: sum.splits)

text \<open>
  C33: When the plugin's descriptor is missing, \<open>worker.cpp\<close> refuses to start and leaves the shared memory
  as it found it; \<open>worker_main.cpp\<close> starts as if the descriptor were there, and from every state that
  can run its loop goes on taking one block per wake-up and counting its heartbeat, so that the
  supervisor sees a healthy worker, while the plugin is never told of any result.
\<close>

theorem missing_descriptor_silent:
  assumes "e_recv < 0" and "worker_ok real_node_ok w" "pending_ok real_event_ok (shm w)" "list_all env_ok envs"
  shows "worker_start (real_ops api) make_node ty wid fd e_send e_recv mapped base = Inr (Inl mapped) \<and>
    main_start (real_ops api) make_node ty wid fd e_send mapped base = worker_start (real_ops api) make_node ty wid fd e_send 0 mapped base \<and>
    (\<exists>w'. main_loop (real_ops api) front e_recv envs w = Inr w' \<and>
       heartbeat (my_block w') = heartbeat (my_block w) + of_nat (length envs) \<and>
       items (in_queue (shm w')) = drop (wakeups envs) (items (in_queue (shm w))) \<and> signals w' = signals w)"
proof -
  let ?envs = "map (reply_answer e_recv) envs"
  have a: "reply_answer e_recv = (\<lambda>env. env\<lparr>write_interrupts := 0, write_ok := False\<rparr>)"
    using assms(1) by (simp add: reply_answer_def fun_eq_iff)
  have e: "list_all env_ok ?envs" "list_all (\<lambda>env. \<not> write_ok env) ?envs" "length ?envs = length envs" "wakeups ?envs = wakeups envs"
    using assms(4) by (simp_all add: a list_all_iff env_ok_def wakeups_def filter_map comp_def)
  from worker_loop_progress [OF assms(2,3) e(1), of api front] obtain w' where
    w': "worker_loop (real_ops api) front ?envs w = Inr w'" "heartbeat (my_block w') = heartbeat (my_block w) + of_nat (length ?envs)"
      "items (in_queue (shm w')) = drop (wakeups ?envs) (items (in_queue (shm w)))" by blast
  have "worker_start (real_ops api) make_node ty wid fd e_send e_recv mapped base = Inr (Inl mapped)"
    using assms(1) by (cases mapped) (simp_all add: worker_start_def)
  with w' loop_silent [OF w'(1) e(2)] e(3,4) show ?thesis by (simp add: main_loop_eq main_start_eq)
qed

theorem missing_descriptor_silent_witness:
  "worker_start (real_ops demo_api) make_node ''npu'' 1 5 6 (- 1) (Some shm_zero) 4096 = Inr (Inl (Some shm_zero)) \<and>
     (\<exists>w'. main_loop (real_ops demo_api) [] (- 1) [demo_env] demo_worker = Inr w' \<and> items (in_queue (shm w')) = [] \<and>
        signals w' = 0)"
proof -
  have "list_all env_ok [demo_env]" using demo_pending(2) by simp
  from missing_descriptor_silent [of "- 1", OF _ demo_worker_ok demo_pending(1) this, of demo_api "''npu''" 1 5 6 "Some shm_zero" 4096 "[]"]
  show ?thesis by (auto simp: wakeups_def demo_env_def demo_worker_def demo_shm_queues)
qed

end
