(* ===== verification/Supervisor_Run.thy ===== *)
theory Supervisor_Run
  imports Supervisor_Spec
begin

text \<open>
  Runs of the supervisor: workers and plugins that write the shared memories, and requests that restart
  failed workers, in any order. What stays true in every reachable state, what restarts cost, and what
  they mean to the plugins.
\<close>

section \<open>The steps\<close>

definition failed :: "dsp_accel_node \<Rightarrow> bool" where
  "failed node \<longleftrightarrow> (case sn_shm node of None \<Rightarrow> False | Some m \<Rightarrow> last_error (node_ctrl node m) \<noteq> NO_ERROR)"

text \<open>The workers a request restarts.\<close>

definition restarted :: "dsp_accel_node list \<Rightarrow> nat list" where
  "restarted ns = filter (\<lambda>k. failed (ns ! k)) [0..<looked_at ns]"

definition node_fds :: "dsp_accel_node \<Rightarrow> int list" where
  "node_fds node = valid_fds [sn_shm_fd node, sn_e_send node, sn_e_recv node]"

text \<open>The descriptors a start overwrites in the node.\<close>

definition overwritten :: "spawn_env \<Rightarrow> dsp_accel_node \<Rightarrow> int list" where
  "overwritten env node = (if stopped_early env then valid_fds [sn_shm_fd node] else node_fds node)"

text \<open>
  \<open>sr_opened\<close> are all descriptors the system has handed out for the module, \<open>sr_lost\<close> those that are in no
  node any more, \<open>sr_restarts\<close> counts the starts after the first three.
\<close>

record supervisor_run =
  sr_module :: module_data
  sr_opened :: "int list"
  sr_lost :: "int list"
  sr_restarts :: nat

abbreviation sr_nodes :: "supervisor_run \<Rightarrow> dsp_accel_node list" where
  "sr_nodes s \<equiv> compute_nodes (sr_module s)"

definition run_start :: "init_env \<Rightarrow> module_data \<Rightarrow> supervisor_run" where
  "run_start env d = \<lparr>sr_module = d, sr_opened = valid_fds [server_socket env] @ concat (map (\<lambda>i. spawn_opened (spawns env i)) [0..<3]),
     sr_lost = [], sr_restarts = 0\<rparr>"

text \<open>\<open>P\<close> is what is known of the system's answers when a worker is started.\<close>

inductive module_step :: "(spawn_env \<Rightarrow> bool) \<Rightarrow> supervisor_run \<Rightarrow> supervisor_run \<Rightarrow> bool" for P where
  Memory: "k < length (sr_nodes s) \<Longrightarrow> sn_shm (sr_nodes s ! k) = Some m \<Longrightarrow> shm_wf m' \<Longrightarrow>
    module_step P s (s\<lparr>sr_module := (sr_module s)\<lparr>compute_nodes := (sr_nodes s)[k := (sr_nodes s ! k)\<lparr>sn_shm := Some m'\<rparr>]\<rparr>\<rparr>)"
| Request: "\<forall>k. P (envs k) \<Longrightarrow> handle_plugin_request envs (Some (sr_module s)) (Some ty) = Inr (r, Some d) \<Longrightarrow>
    module_step P s (s\<lparr>sr_module := d,
      sr_opened := sr_opened s @ concat (map (\<lambda>k. spawn_opened (envs k)) (restarted (sr_nodes s))),
      sr_lost := sr_lost s @ concat (map (\<lambda>k. overwritten (envs k) (sr_nodes s ! k)) (restarted (sr_nodes s))),
      sr_restarts := sr_restarts s + length (restarted (sr_nodes s))\<rparr>)"

section \<open>The invariant\<close>

definition numbered :: "dsp_accel_node list \<Rightarrow> bool" where
  "numbered ns \<longleftrightarrow> length ns = 3 \<and> (\<forall>k < 3. sn_worker_id (ns ! k) = int k \<and> (is_active (ns ! k) \<longrightarrow> sn_shm (ns ! k) \<noteq> None)) \<and> nodes_ok ns"

lemma nodes_ok_iff:
  "nodes_ok ns \<longleftrightarrow> (\<forall>k < length ns. 0 \<le> sn_worker_id (ns ! k) \<and> sn_worker_id (ns ! k) < 8 \<and>
     (case sn_shm (ns ! k) of None \<Rightarrow> True | Some m \<Rightarrow> shm_wf m))"
  by (simp add: nodes_ok_def list_all_length)

lemma spawn_worker_node:
  fixes env node
  defines "n \<equiv> fst (spawn_worker env node)"
  shows "sn_worker_id n = sn_worker_id node"
    "(case sn_shm node of None \<Rightarrow> True | Some m \<Rightarrow> shm_wf m) \<Longrightarrow> (case sn_shm n of None \<Rightarrow> True | Some m \<Rightarrow> shm_wf m)"
    "(is_active node \<longrightarrow> sn_shm node \<noteq> None \<and> shm_map_ok env) \<Longrightarrow> is_active n \<longrightarrow> sn_shm n \<noteq> None"
  unfolding n_def by (auto simp: spawn_worker_def Let_def)

lemma serviced_node:
  "sn_worker_id (serviced env node) = sn_worker_id node"
  "(case sn_shm node of None \<Rightarrow> True | Some m \<Rightarrow> shm_wf m) \<Longrightarrow>
     (case sn_shm (serviced env node) of None \<Rightarrow> True | Some m \<Rightarrow> shm_wf m)"
  "(is_active node \<longrightarrow> sn_shm node \<noteq> None) \<Longrightarrow> is_active (serviced env node) \<longrightarrow> sn_shm (serviced env node) \<noteq> None"
  using spawn_worker_node [where env = env and node = "node\<lparr>is_active := False\<rparr>"]
  by (auto simp: serviced_def split: option.split)

text \<open>The nodes after a request.\<close>

definition after_request :: "(nat \<Rightarrow> spawn_env) \<Rightarrow> dsp_accel_node list \<Rightarrow> dsp_accel_node list" where
  "after_request envs ns = map (\<lambda>k. if k < looked_at ns then serviced (envs k) (ns ! k) else ns ! k) [0..<length ns]"

lemma request_eq:
  assumes "nodes_ok (compute_nodes d)" "compute_nodes d \<noteq> []"
  shows "handle_plugin_request envs (Some d) (Some ty) = Inr (if list_ex healthy (compute_nodes d) then 0 else - 1,
    Some (d\<lparr>compute_nodes := after_request envs (compute_nodes d)\<rparr>))"
proof -
  have "(find healthy (compute_nodes d) = None) = (\<not> list_ex healthy (compute_nodes d))"
    by (auto simp: find_None_iff list_ex_iff)
  then show ?thesis using assms find_node_spec [OF assms(1), of envs 0] by (simp add: handle_plugin_request_def after_request_def)
qed

lemma after_request_nth [simp]:
  "length (after_request envs ns) = length ns"
  "k < length ns \<Longrightarrow> after_request envs ns ! k = (if k < looked_at ns then serviced (envs k) (ns ! k) else ns ! k)"
  by (simp_all add: after_request_def)

lemma after_request_numbered: "numbered ns \<Longrightarrow> numbered (after_request envs ns)"
  using serviced_node(3) by (auto simp: numbered_def nodes_ok_iff serviced_node(1,2))

lemma looked_at_le: "looked_at ns \<le> length ns"
  by (induction ns) auto

lemma filter_upt_below: "n \<le> m \<Longrightarrow> filter (\<lambda>k. k < n \<and> P k) [0..<m] = filter P [0..<n]"
proof (induction m)
  case (Suc m)
  show ?case
  proof (cases "n = Suc m")
    case True
    show ?thesis unfolding True by (rule filter_cong) auto
  next
    case False
    with Suc show ?thesis by simp
  qed
qed simp

section \<open>Descriptors\<close>

lemma spawn_worker_fds:
  "sn_shm_fd (fst (spawn_worker env node)) = memfd env"
  "sn_e_send (fst (spawn_worker env node)) = (if stopped_early env then sn_e_send node else efd_send env)"
  "sn_e_recv (fst (spawn_worker env node)) = (if stopped_early env then sn_e_recv node else efd_recv env)"
  by (simp_all add: spawn_worker_def stopped_early_def Let_def)

lemma spawn_replaces_fds:
  "mset (node_fds (fst (spawn_worker env node))) + mset (overwritten env node) = mset (node_fds node) + mset (spawn_opened env)"
proof (cases "stopped_early env")
  case True
  then have "mset (spawn_opened env) = mset (valid_fds [memfd env])"
    by (auto simp: spawn_opened_def stopped_early_def valid_fds_def)
  with True show ?thesis by (simp add: node_fds_def overwritten_def valid_fds_def spawn_worker_fds)
next
  case False
  then show ?thesis by (simp add: node_fds_def overwritten_def spawn_opened_def stopped_early_def spawn_worker_fds)
qed

lemma serviced_cases:
  obtains (failed) "failed node" "serviced env node = fst (spawn_worker env (node\<lparr>is_active := False\<rparr>))"
  | (other) hb where "\<not> failed node" "serviced env node = node\<lparr>last_heartbeat := hb\<rparr>"
proof (cases "failed node")
  case True
  with that(1) show thesis by (auto simp: failed_def serviced_def split: option.splits)
next
  case False
  have same: "node = node\<lparr>last_heartbeat := last_heartbeat node\<rparr>" by simp
  show thesis
  proof (cases "sn_shm node")
    case None
    with that(2) [OF False, of "last_heartbeat node"] show thesis by (simp add: serviced_def)
  next
    case (Some m)
    with False that(2) [OF False, of "last_heartbeat node"] that(2) [OF False, of "heartbeat (node_ctrl node m)"] show thesis
      by (cases "80 \<le> load_pct (node_ctrl node m)") (simp_all add: serviced_def failed_def)
  qed
qed

lemma serviced_fds:
  "mset (node_fds (serviced env node)) + mset (if failed node then overwritten env node else []) =
   mset (node_fds node) + mset (if failed node then spawn_opened env else [])"
proof (cases rule: serviced_cases [of node env])
  case failed
  have "node_fds (node\<lparr>is_active := False\<rparr>) = node_fds node" "overwritten env (node\<lparr>is_active := False\<rparr>) = overwritten env node"
    by (simp_all add: node_fds_def overwritten_def)
  with failed spawn_replaces_fds [of env "node\<lparr>is_active := False\<rparr>"] show ?thesis by simp
next
  case (other hb)
  then show ?thesis by (simp add: node_fds_def)
qed

lemma request_fds:
  "mset (concat (map node_fds (after_request envs ns))) + mset (concat (map (\<lambda>k. overwritten (envs k) (ns ! k)) (restarted ns))) =
   mset (concat (map node_fds ns)) + mset (concat (map (\<lambda>k. spawn_opened (envs k)) (restarted ns)))"
proof -
  let ?a = "\<lambda>k. if k < looked_at ns then serviced (envs k) (ns ! k) else ns ! k"
  have "mset (concat (map (\<lambda>k. node_fds (?a k)) ks)) +
      mset (concat (map (\<lambda>k. overwritten (envs k) (ns ! k)) (filter (\<lambda>k. k < looked_at ns \<and> failed (ns ! k)) ks))) =
    mset (concat (map (\<lambda>k. node_fds (ns ! k)) ks)) +
      mset (concat (map (\<lambda>k. spawn_opened (envs k)) (filter (\<lambda>k. k < looked_at ns \<and> failed (ns ! k)) ks)))" for ks
  proof (induction ks)
    case (Cons k ks)
    show ?case
    proof (cases "k < looked_at ns \<and> failed (ns ! k)")
      case True
      then have "(mset (node_fds (?a k)) + mset (overwritten (envs k) (ns ! k))) = (mset (node_fds (ns ! k)) + mset (spawn_opened (envs k)))"
        using serviced_fds [of "envs k" "ns ! k"] by simp
      from arg_cong2 [OF this Cons.IH, of "(+)"] True show ?thesis by (simp only: list.map filter.simps if_True simp_thms concat.simps mset_append ac_simps)
    next
      case False
      then have "mset (node_fds (?a k)) = mset (node_fds (ns ! k))" using serviced_fds [of "envs k" "ns ! k"] by auto
      from arg_cong2 [OF this Cons.IH, of "(+)"] False show ?thesis by (simp only: list.map filter.simps if_False simp_thms concat.simps mset_append ac_simps)
    qed
  qed simp
  from this [of "[0..<length ns]"] have e: "mset (concat (map (\<lambda>k. node_fds (?a k)) [0..<length ns])) +
      mset (concat (map (\<lambda>k. overwritten (envs k) (ns ! k)) (filter (\<lambda>k. k < looked_at ns \<and> failed (ns ! k)) [0..<length ns]))) =
    mset (concat (map (\<lambda>k. node_fds (ns ! k)) [0..<length ns])) +
      mset (concat (map (\<lambda>k. spawn_opened (envs k)) (filter (\<lambda>k. k < looked_at ns \<and> failed (ns ! k)) [0..<length ns])))" .
  have r: "filter (\<lambda>k. k < looked_at ns \<and> failed (ns ! k)) [0..<length ns] = restarted ns"
    unfolding restarted_def by (rule filter_upt_below [OF looked_at_le])
  have "map (\<lambda>k. node_fds (ns ! k)) [0..<length ns] = map node_fds ns" by (rule nth_equalityI) simp_all
  moreover have "map (\<lambda>k. node_fds (?a k)) [0..<length ns] = map node_fds (after_request envs ns)" by (simp add: after_request_def)
  ultimately show ?thesis using e unfolding r by simp
qed

section \<open>Reachable states\<close>

lemma numbered_init:
  assumes "pipewire_module_init env = (0, Some d)"
  shows "numbered (compute_nodes d)"
proof -
  have d: "compute_nodes d = map (\<lambda>i. fst (spawn_worker (spawns env i) (node_zero\<lparr>sn_worker_id := int i\<rparr>))) [0..<3]"
    using assms by (auto simp: pipewire_module_init_def split: if_splits)
  have z: "\<not> is_active (node_zero\<lparr>sn_worker_id := int i\<rparr>)" "sn_shm (node_zero\<lparr>sn_worker_id := int i\<rparr>) = None" for i :: nat
    by (simp_all add: node_zero_def)
  have len: "length (compute_nodes d) = 3" by (simp add: d)
  have k: "compute_nodes d ! k = fst (spawn_worker (spawns env k) (node_zero\<lparr>sn_worker_id := int k\<rparr>))" if "k < 3" for k
    using that by (simp add: d)
  have "sn_worker_id (compute_nodes d ! k) = int k \<and> (is_active (compute_nodes d ! k) \<longrightarrow> sn_shm (compute_nodes d ! k) \<noteq> None) \<and>
      (case sn_shm (compute_nodes d ! k) of None \<Rightarrow> True | Some m \<Rightarrow> shm_wf m)" if "k < 3" for k
    unfolding k [OF that]
    using spawn_worker_node [where env = "spawns env k" and node = "node_zero\<lparr>sn_worker_id := int k\<rparr>"] z [of k] by simp
  then show ?thesis using len by (simp add: numbered_def nodes_ok_iff)
qed

lemma numbered_memory:
  "numbered ns \<Longrightarrow> k < length ns \<Longrightarrow> sn_shm (ns ! k) = Some m \<Longrightarrow> shm_wf m' \<Longrightarrow> numbered (ns[k := (ns ! k)\<lparr>sn_shm := Some m'\<rparr>])"
  by (auto simp: numbered_def nodes_ok_iff nth_list_update)

lemma numberedD: "numbered ns \<Longrightarrow> nodes_ok ns" "numbered ns \<Longrightarrow> ns \<noteq> []"
  by (auto simp: numbered_def)

lemma numbered_request:
  assumes "numbered (compute_nodes d)" "handle_plugin_request envs (Some d) (Some ty) = Inr (r, Some d')"
  shows "d' = d\<lparr>compute_nodes := after_request envs (compute_nodes d)\<rparr>"
  using assms(2) request_eq [OF numberedD(1) [OF assms(1)] numberedD(2) [OF assms(1)], of envs ty] by simp

text \<open>The descriptors held, lost and obtained; \<open>z\<close> are those the zeroed nodes add.\<close>

definition accounted :: "int multiset \<Rightarrow> supervisor_run \<Rightarrow> bool" where
  "accounted z s \<longleftrightarrow> mset (fst (module_destroy (sr_module s))) + mset (sr_lost s) = mset (sr_opened s) + z"

lemma module_destroy_fds: "fst (module_destroy d) = valid_fds [server_fd d] @ concat (map node_fds (compute_nodes d))"
proof -
  have "(\<lambda>node. valid_fds [sn_shm_fd node, sn_e_send node, sn_e_recv node]) = node_fds" by (intro ext) (simp add: node_fds_def)
  then show ?thesis by (simp add: module_destroy_def)
qed

lemma memory_fds: "k < length ns \<Longrightarrow> map node_fds (ns[k := (ns ! k)\<lparr>sn_shm := Some m'\<rparr>]) = map node_fds ns"
  by (rule nth_equalityI) (simp_all add: nth_list_update node_fds_def)

lemma numbered_step: "module_step P s s' \<Longrightarrow> numbered (sr_nodes s) \<Longrightarrow> numbered (sr_nodes s')"
proof (induction rule: module_step.induct)
  case (Memory k s m m')
  then show ?case using numbered_memory [OF Memory.prems Memory.hyps] by simp
next
  case (Request envs s ty r d)
  then show ?case using after_request_numbered [OF Request.prems, of envs] numbered_request [OF Request.prems Request.hyps(2)] by simp
qed

lemma accounted_step:
  assumes "module_step P s s'" "numbered (sr_nodes s)" "accounted z s"
  shows "accounted z s'"
  using assms
proof (induction rule: module_step.induct)
  case (Memory k s m m')
  then show ?case using memory_fds [OF Memory.hyps(1), of m'] by (simp add: accounted_def module_destroy_fds)
next
  case (Request envs s ty r d)
  note d = numbered_request [OF Request.prems(1) Request.hyps(2)]
  have a: "mset (valid_fds [server_fd (sr_module s)]) + mset (concat (map node_fds (sr_nodes s))) + mset (sr_lost s) =
      mset (sr_opened s) + z" using Request.prems(2) by (simp add: accounted_def module_destroy_fds)
  from request_fds [of envs "sr_nodes s"]
  have "mset (valid_fds [server_fd (sr_module s)]) + mset (concat (map node_fds (after_request envs (sr_nodes s)))) +
      (mset (sr_lost s) + mset (concat (map (\<lambda>k. overwritten (envs k) (sr_nodes s ! k)) (restarted (sr_nodes s))))) =
    (mset (valid_fds [server_fd (sr_module s)]) + mset (concat (map node_fds (sr_nodes s))) + mset (sr_lost s)) +
      mset (concat (map (\<lambda>k. spawn_opened (envs k)) (restarted (sr_nodes s))))"
    by (simp only: ac_simps)
  also note a
  finally have sum: "mset (valid_fds [server_fd (sr_module s)]) + mset (concat (map node_fds (after_request envs (sr_nodes s)))) +
      (mset (sr_lost s) + mset (concat (map (\<lambda>k. overwritten (envs k) (sr_nodes s ! k)) (restarted (sr_nodes s))))) =
    mset (sr_opened s) + z + mset (concat (map (\<lambda>k. spawn_opened (envs k)) (restarted (sr_nodes s))))" .
  let ?s = "s\<lparr>sr_module := d, sr_opened := sr_opened s @ concat (map (\<lambda>k. spawn_opened (envs k)) (restarted (sr_nodes s))),
    sr_lost := sr_lost s @ concat (map (\<lambda>k. overwritten (envs k) (sr_nodes s ! k)) (restarted (sr_nodes s))),
    sr_restarts := sr_restarts s + length (restarted (sr_nodes s))\<rparr>"
  have f: "sr_module ?s = d" "sr_opened ?s = sr_opened s @ concat (map (\<lambda>k. spawn_opened (envs k)) (restarted (sr_nodes s)))"
    "sr_lost ?s = sr_lost s @ concat (map (\<lambda>k. overwritten (envs k) (sr_nodes s ! k)) (restarted (sr_nodes s)))"
    "server_fd d = server_fd (sr_module s)" "compute_nodes d = after_request envs (sr_nodes s)" by (simp_all add: d)
  from sum show ?case unfolding accounted_def module_destroy_fds f mset_append by (simp only: ac_simps)
qed

lemma accounted_run:
  "(module_step P)\<^sup>*\<^sup>* s s' \<Longrightarrow> numbered (sr_nodes s) \<Longrightarrow> accounted z s \<Longrightarrow> numbered (sr_nodes s') \<and> accounted z s'"
  by (induction rule: rtranclp_induct) (use accounted_step numbered_step in blast)+

lemma numbered_run: "(module_step P)\<^sup>*\<^sup>* s s' \<Longrightarrow> numbered (sr_nodes s) \<Longrightarrow> numbered (sr_nodes s')"
  by (induction rule: rtranclp_induct) (use numbered_step in blast)+

lemma dump_nodes_defined:
  "nodes_ok ns \<Longrightarrow> \<exists>s. dump_nodes n i ns = Inr s"
proof (induction ns arbitrary: i)
  case (Cons node rest)
  then obtain s where s: "dump_nodes n (Suc i) rest = Inr s" by (auto simp: nodes_ok_def)
  have "\<exists>b. control_block m (sn_worker_id node) = Inr b" if "sn_shm node = Some m" for m
    using Cons.prems that by (simp add: nodes_ok_def control_block_def shm_wf_def)
  with s show ?case by (cases "sn_shm node") auto
qed simp

text \<open>
  C22: In every state the supervisor can reach, whatever its system calls answer and whatever the workers and
  plugins write to the memories: node \<open>k\<close> is worker \<open>k\<close>, an active worker has shared memory, a request
  and the state dump are always answered, with 0 exactly when some worker is healthy.
\<close>

theorem supervisor_invariant:
  assumes "pipewire_module_init env = (0, Some d)" "(module_step P)\<^sup>*\<^sup>* (run_start env d) s"
  shows "numbered (sr_nodes s) \<and>
    (\<exists>d'. handle_plugin_request envs (Some (sr_module s)) (Some ty) =
      Inr (if list_ex healthy (sr_nodes s) then 0 else - 1, Some d')) \<and> (\<exists>json. dump_state now (sr_module s) = Inr json)"
proof -
  have "numbered (sr_nodes (run_start env d))" using numbered_init [OF assms(1)] by (simp add: run_start_def)
  then have n: "numbered (sr_nodes s)" by (rule numbered_run [OF assms(2)])
  obtain js where "dump_nodes (length (sr_nodes s)) 0 (sr_nodes s) = Inr js" using dump_nodes_defined [OF numberedD(1) [OF n]] by blast
  then have "\<exists>json. dump_state now (sr_module s) = Inr json" by (simp add: dump_state_def)
  with n request_eq [OF numberedD(1) [OF n] numberedD(2) [OF n], of envs ty] show ?thesis by blast
qed

section \<open>What restarts cost\<close>

text \<open>All three descriptors of a node are valid.\<close>

definition complete :: "dsp_accel_node list \<Rightarrow> bool" where
  "complete ns \<longleftrightarrow> list_all (\<lambda>node. length (node_fds node) = 3) ns"

lemma spawn_ok_early: "spawn_ok env \<Longrightarrow> \<not> stopped_early env"
  by (auto simp: spawn_ok_def stopped_early_def)

lemma spawn_complete: "spawn_ok env \<Longrightarrow> length (node_fds (fst (spawn_worker env node))) = 3"
  by (simp add: spawn_worker_ok) (simp add: node_fds_def valid_fds_def spawn_ok_def)

lemma serviced_complete: "spawn_ok env \<Longrightarrow> length (node_fds node) = 3 \<Longrightarrow> length (node_fds (serviced env node)) = 3"
  by (cases rule: serviced_cases [of node env]) (simp_all add: spawn_complete, simp add: node_fds_def)

lemma after_request_complete: "\<forall>k. spawn_ok (envs k) \<Longrightarrow> complete ns \<Longrightarrow> complete (after_request envs ns)"
  by (simp add: complete_def list_all_length serviced_complete)

lemma lost_by_request:
  assumes "\<forall>k. spawn_ok (envs k)" "complete ns"
  shows "length (concat (map (\<lambda>k. overwritten (envs k) (ns ! k)) (restarted ns))) = 3 * length (restarted ns)"
proof -
  have "length (overwritten (envs k) (ns ! k)) = 3" if "k \<in> set (restarted ns)" for k
    using that assms spawn_ok_early looked_at_le [of ns]
    by (auto simp: restarted_def overwritten_def complete_def list_all_length)
  then show ?thesis by (simp add: length_concat sum_list_triv cong: map_cong) 
qed

lemma restarts_lose:
  assumes "(module_step spawn_ok)\<^sup>*\<^sup>* s s'" "numbered (sr_nodes s)" "complete (sr_nodes s)" "length (sr_lost s) = 3 * sr_restarts s"
  shows "complete (sr_nodes s') \<and> length (sr_lost s') = 3 * sr_restarts s'"
  using assms
proof (induction rule: rtranclp_induct)
  case (step s1 s2)
  have n: "numbered (sr_nodes s1)" by (rule numbered_run [OF step.hyps(1) step.prems(1)])
  from step.hyps(2) step.IH [OF step.prems] show ?case
  proof cases
    case (Memory k m m')
    then show ?thesis using step.IH [OF step.prems]
      by (auto simp: complete_def list_all_length nth_list_update node_fds_def)
  next
    case (Request envs ty r d)
    note d = numbered_request [OF n Request(3)]
    from step.IH [OF step.prems] lost_by_request [OF Request(2), of "sr_nodes s1"] after_request_complete [OF Request(2)]
    show ?thesis unfolding Request(1) by (simp add: d)
  qed
qed simp

text \<open>
  C24: Every restart of a worker loses three descriptors for good: when the starts succeed, then in every state
  the supervisor can reach, unloading the module closes exactly the descriptors the system has handed
  out, each once, except three for each restart so far, which no node holds any more.
\<close>

theorem restart_loses_descriptors:
  assumes "pipewire_module_init env = (0, Some d)" "\<forall>i < 3. spawn_ok (spawns env i)"
    and "(module_step spawn_ok)\<^sup>*\<^sup>* (run_start env d) s"
  shows "mset (sr_opened s) = mset (fst (module_destroy (sr_module s))) + mset (sr_lost s) \<and>
    length (sr_lost s) = 3 * sr_restarts s"
proof -
  have d: "d = \<lparr>server_fd = server_socket env, listening = (0 \<le> server_socket env),
      compute_nodes = map (\<lambda>i. fst (spawn_worker (spawns env i) (node_zero\<lparr>sn_worker_id := int i\<rparr>))) [0..<3]\<rparr>"
    using assms(1) by (auto simp: pipewire_module_init_def split: if_splits)
  have n: "numbered (sr_nodes (run_start env d))" using numbered_init [OF assms(1)] by (simp add: run_start_def)
  have e: "filter (\<lambda>i. stopped_early (spawns env i)) [0..<3] = []" using assms(2) spawn_ok_early by (simp add: filter_empty_conv)
  have "accounted {#} (run_start env d)"
    using spawn_all_fds [of "spawns env" "[0..<3]"] e by (simp add: accounted_def run_start_def module_destroy_def d)
  moreover have "complete (sr_nodes (run_start env d))"
    using assms(2) spawn_complete by (simp add: run_start_def d complete_def list_all_iff)
  ultimately show ?thesis
    using accounted_run [OF assms(3) n] restarts_lose [OF assms(3) n] by (simp add: accounted_def run_start_def)
qed

section \<open>What restarts bring\<close>

lemma healthy_failed: "failed node \<Longrightarrow> \<not> healthy node"
  by (auto simp: failed_def healthy_def split: option.splits)

lemma looked_at_all: "\<not> list_ex healthy ns \<Longrightarrow> looked_at ns = length ns"
  by (induction ns) auto

lemma spawned_healthy:
  assumes "spawn_ok env" "0 \<le> sn_worker_id node" "sn_worker_id node < 8"
  shows "healthy (fst (spawn_worker env node))"
  using assms by (simp add: spawn_worker_ok healthy_def node_ctrl_def wcb_zero_def)

lemma serviced_healthy:
  assumes "spawn_ok env" "0 \<le> sn_worker_id node" "sn_worker_id node < 8" "\<not> healthy node"
  shows "healthy (serviced env node) = failed node"
proof (cases rule: serviced_cases [of node env])
  case failed
  with spawned_healthy [OF assms(1), of "node\<lparr>is_active := False\<rparr>"] assms(2,3) show ?thesis by simp
next
  case (other hb)
  have "healthy (node\<lparr>last_heartbeat := hb\<rparr>) = healthy node"
    by (cases "sn_shm node") (simp_all add: healthy_def node_ctrl_def)
  with other assms(4) show ?thesis by simp
qed

text \<open>
  C23: A failed worker costs one request: when no worker is healthy and the starts succeed, a request is
  refused, and the next one succeeds exactly when some worker had recorded an error, for that one has
  been started again. A worker whose first start failed has no memory in which to record one: no
  request ever starts it, and its node stays as it is.
\<close>

theorem failed_worker_recovers:
  assumes "nodes_ok (compute_nodes d)" "compute_nodes d \<noteq> []" "\<not> list_ex healthy (compute_nodes d)"
    and "\<forall>k. spawn_ok (envs k)"
  shows "\<exists>d1 r d2. handle_plugin_request envs (Some d) (Some ty) = Inr (- 1, Some d1) \<and>
    handle_plugin_request envs' (Some d1) (Some ty') = Inr (r, Some d2) \<and>
    r = (if list_ex failed (compute_nodes d) then 0 else - 1) \<and>
    (\<forall>k < length (compute_nodes d). sn_shm (compute_nodes d ! k) = None \<longrightarrow> compute_nodes d2 ! k = compute_nodes d ! k)"
proof -
  let ?ns = "compute_nodes d" and ?ns1 = "after_request envs (compute_nodes d)"
  let ?d1 = "d\<lparr>compute_nodes := ?ns1\<rparr>"
  have all: "looked_at ?ns = length ?ns" by (rule looked_at_all [OF assms(3)])
  have ok: "nodes_ok ?ns1" using assms(1) by (simp add: nodes_ok_iff serviced_node)
  have h: "healthy (?ns1 ! k) = failed (?ns ! k)" if "k < length ?ns" for k
  proof -
    have "0 \<le> sn_worker_id (?ns ! k)" "sn_worker_id (?ns ! k) < 8" "\<not> healthy (?ns ! k)"
      using assms(1,3) that by (auto simp: nodes_ok_iff list_ex_length)
    with serviced_healthy [of "envs k"] assms(4) that all show ?thesis by simp
  qed
  then have "list_ex healthy ?ns1 = list_ex failed ?ns" by (auto simp: list_ex_length)
  moreover have "handle_plugin_request envs (Some d) (Some ty) = Inr (- 1, Some ?d1)"
    using request_eq [OF assms(1,2), of envs ty] assms(3) by simp
  moreover have "?ns1 \<noteq> []" using assms(2) by (metis after_request_nth(1) length_0_conv)
  with request_eq [of ?d1 envs' ty'] ok have "handle_plugin_request envs' (Some ?d1) (Some ty') =
      Inr (if list_ex healthy ?ns1 then 0 else - 1, Some (d\<lparr>compute_nodes := after_request envs' ?ns1\<rparr>))" by simp
  moreover have "after_request envs' ?ns1 ! k = ?ns ! k" if "k < length ?ns" "sn_shm (?ns ! k) = None" for k
    using that all by (simp add: serviced_def)
  ultimately show ?thesis by auto
qed

lemma dispatch_refused_on_error:
  assumes "ctx_ok c m" "last_error (ctx_block c m) \<noteq> NO_ERROR"
  shows "dispatch_all envs buffers frames channels (Some c, m) = Inr (replicate (length envs) False, Some c, m)"
proof (induction envs)
  case (Cons env envs)
  have "sdk_dispatch True env (Some c) buffers frames channels m = Inr (False, Some c, m, 0)"
    using assms ctx_control_block [OF assms(1)] by (simp add: sdk_dispatch_def ctx_ok_def)
  with Cons show ?case by simp
qed simp

text \<open>
  C25: A restart serves new sessions only: when a request restarts the failed worker \<open>k\<close>, a plugin that connects
  afterwards gets the number and the three descriptors of the new process, but one that was connected
  before keeps the memory with the recorded error, and every block it dispatches from then on, however
  many, is refused.
\<close>

theorem restart_serves_new_sessions_only:
  assumes "numbered (compute_nodes d)" "k < looked_at (compute_nodes d)" "failed (compute_nodes d ! k)" "spawn_ok (envs k)"
    and "sn_shm (compute_nodes d ! k) = Some m" "ctx_ok c m" "cx_worker_id c = of_nat k"
    and "0 \<le> client_fd cenv" "received_meta cenv = Some (of_nat k, cost)" "response_sent cenv"
  shows "\<exists>r d'. handle_plugin_request envs (Some d) (Some ty) = Inr (r, Some d') \<and>
    on_plugin_connection True cenv d' =
      (Some (of_nat k), [memfd (envs k), efd_send (envs k), efd_recv (envs k)], [client_fd cenv]) \<and>
    dispatch_all denvs buffers frames channels (Some c, m) = Inr (replicate (length denvs) False, Some c, m)"
proof -
  let ?ns = "compute_nodes d" and ?ns1 = "after_request envs (compute_nodes d)"
  note n = numberedD [OF assms(1)]
  have k: "k < length ?ns" "k < 3" using assms(1,2) looked_at_le [of ?ns] by (simp_all add: numbered_def)
  have s: "serviced (envs k) (?ns ! k) = fst (spawn_worker (envs k) ((?ns ! k)\<lparr>is_active := False\<rparr>))"
    using assms(3) by (cases rule: serviced_cases [of "?ns ! k" "envs k"]) simp_all
  have id: "sn_worker_id (?ns ! k) = int k" using assms(1) k(2) by (simp add: numbered_def)
  have node: "is_active (?ns1 ! k)" "sn_worker_id (?ns1 ! k) = int k" "sn_shm_fd (?ns1 ! k) = memfd (envs k)"
    "sn_e_send (?ns1 ! k) = efd_send (envs k)" "sn_e_recv (?ns1 ! k) = efd_recv (envs k)"
    using k(1) assms(2) by (simp_all add: s spawn_worker_ok [OF assms(4)] id)
  have "find_type (int k) 0 ?ns1 = Some (?ns1 ! k)" using find_type_nth [of k ?ns1 0] node(1) k(1) by simp
  moreover have "sint (of_nat k :: u32) = int k" using k(2) by (auto simp: less_Suc_eq numeral_3_eq_3)
  ultimately have "on_plugin_connection True cenv (d\<lparr>compute_nodes := ?ns1\<rparr>) =
      (Some (of_nat k), [memfd (envs k), efd_send (envs k), efd_recv (envs k)], [client_fd cenv])"
    using assms(8-10) node by (simp add: on_plugin_connection_def)
  moreover have "last_error (ctx_block c m) \<noteq> NO_ERROR"
  proof -
    have "unat (cx_worker_id c) = k" using k(2) assms(7) by (auto simp: less_Suc_eq numeral_3_eq_3)
    then show ?thesis using assms(3,5) id by (simp add: failed_def node_ctrl_def ctx_block_def)
  qed
  ultimately show ?thesis
    using request_eq [OF n, of envs ty] dispatch_refused_on_error [OF assms(6)] by blast
qed

section \<open>Witnesses\<close>

text \<open>The module of \<open>Supervisor_Spec\<close> after its second worker has recorded an error.\<close>

definition broken_shm :: dsp_shared_memory where
  "broken_shm = shm_zero\<lparr>workers := (workers shm_zero)[1 := wcb_zero\<lparr>last_error := DEVICE_LOST\<rparr>]\<rparr>"

definition respawn :: "nat \<Rightarrow> spawn_env" where
  "respawn k = (demo_spawn k)\<lparr>memfd := 40, efd_send := 41, efd_recv := 42\<rparr>"

definition broken_module :: module_data where
  "broken_module = demo_module\<lparr>compute_nodes := map (\<lambda>i. (compute_nodes demo_module ! i)\<lparr>is_active := (i = 1),
     sn_shm := Some (if i = 1 then broken_shm else shm_zero)\<rparr>) [0, 1, 2]\<rparr>"

lemma broken_shm_facts: "shm_wf broken_shm" "workers broken_shm ! 1 = wcb_zero\<lparr>last_error := DEVICE_LOST\<rparr>"
proof -
  have "length (workers shm_zero) = 8" using shm_zero_wf by (simp add: shm_wf_def)
  then show "shm_wf broken_shm" "workers broken_shm ! 1 = wcb_zero\<lparr>last_error := DEVICE_LOST\<rparr>"
    using shm_zero_wf by (simp_all add: broken_shm_def shm_wf_def)
qed

lemma broken_module_nodes:
  "compute_nodes broken_module = map (\<lambda>i. \<lparr>sn_shm = Some (if i = 1 then broken_shm else shm_zero), sn_worker_id = int i, last_heartbeat = 0,
     is_active = (i = 1), worker_pid = 100 + int i, sn_shm_fd = 10 + 3 * int i, sn_e_send = 11 + 3 * int i, sn_e_recv = 12 + 3 * int i\<rparr>) [0, 1, 2]"
  by (simp add: broken_module_def demo_module_nodes)

lemma respawn_ok: "spawn_ok (respawn k)"
  by (simp add: respawn_def demo_spawn_def spawn_ok_def)

lemma broken_module_facts:
  "numbered (compute_nodes broken_module)" "\<not> list_ex healthy (compute_nodes broken_module)" "failed (compute_nodes broken_module ! 1)"
  "list_ex failed (compute_nodes broken_module)"
  using broken_shm_facts
  by (auto simp: broken_module_nodes numbered_def nodes_ok_def healthy_def failed_def node_ctrl_def wcb_zero_def less_Suc_eq numeral_3_eq_3)

theorem supervisor_invariant_witness:
  "numbered (compute_nodes demo_module) \<and>
     (\<exists>d'. handle_plugin_request demo_spawn (Some demo_module) (Some 0) = Inr (0, Some d')) \<and> (\<exists>json. dump_state 0 demo_module = Inr json)"
proof -
  have "list_ex healthy (compute_nodes demo_module)" by (simp add: demo_module_nodes healthy_def node_ctrl_def wcb_zero_def)
  then show ?thesis
    using supervisor_invariant [OF demo_module_init rtranclp.rtrancl_refl, of demo_spawn 0 0] by (simp add: run_start_def)
qed

theorem restart_loses_descriptors_witness:
  "\<exists>s. (module_step spawn_ok)\<^sup>*\<^sup>* (run_start demo_init demo_module) s \<and> sr_restarts s = 1 \<and> length (sr_lost s) = 3 \<and>
     mset (sr_opened s) = mset (fst (module_destroy (sr_module s))) + mset (sr_lost s)"
proof -
  let ?s0 = "run_start demo_init demo_module"
  let ?ns = "(compute_nodes demo_module)[0 := (compute_nodes demo_module ! 0)\<lparr>sn_shm := Some (shm_zero\<lparr>workers := (workers shm_zero)[0 :=
      wcb_zero\<lparr>last_error := DEVICE_LOST\<rparr>]\<rparr>)\<rparr>]"
  let ?m = "shm_zero\<lparr>workers := (workers shm_zero)[0 := wcb_zero\<lparr>last_error := DEVICE_LOST\<rparr>]\<rparr>"
  let ?s1 = "?s0\<lparr>sr_module := demo_module\<lparr>compute_nodes := ?ns\<rparr>\<rparr>"
  have m: "shm_wf ?m" using shm_zero_wf by (simp add: shm_wf_def)
  have s1: "module_step spawn_ok ?s0 ?s1"
    using module_step.Memory [of 0 ?s0 shm_zero ?m spawn_ok] m by (simp add: run_start_def demo_module_nodes)
  have n1: "numbered (sr_nodes ?s1)" using numbered_step [OF s1] numbered_init [OF demo_module_init] by (simp add: run_start_def)
  have r: "restarted (sr_nodes ?s1) = [0]"
    by (simp add: restarted_def failed_def healthy_def node_ctrl_def demo_module_nodes wcb_zero_def upt_rec)
  let ?d2 = "(sr_module ?s1)\<lparr>compute_nodes := after_request respawn (sr_nodes ?s1)\<rparr>"
  obtain q where q: "handle_plugin_request respawn (Some (sr_module ?s1)) (Some 0) = Inr (q, Some ?d2)"
    using request_eq [OF numberedD [OF n1], of respawn 0] by blast
  have ok: "\<forall>k. spawn_ok (respawn k)" using respawn_ok by simp
  from module_step.Request [where P = spawn_ok and envs = respawn and s = ?s1, OF ok q] r obtain s2 where
    s2': "module_step spawn_ok ?s1 s2" "sr_restarts s2 = sr_restarts ?s1 + 1"
    by simp
  have s2: "(module_step spawn_ok)\<^sup>*\<^sup>* ?s0 s2" "sr_restarts s2 = sr_restarts ?s1 + 1"
    using rtranclp.rtrancl_into_rtrancl [OF r_into_rtranclp [of "module_step spawn_ok", OF s1] s2'(1)] s2'(2) by blast+
  have "sr_restarts ?s1 = 0" by (simp add: run_start_def)
  moreover have "\<forall>i < 3. spawn_ok (spawns demo_init i)" by (simp add: demo_init_def demo_spawn_ok)
  ultimately show ?thesis using restart_loses_descriptors [OF demo_module_init _ s2(1)] s2 by auto
qed

theorem failed_worker_recovers_witness:
  "\<exists>d1 d2. handle_plugin_request respawn (Some broken_module) (Some 0) = Inr (- 1, Some d1) \<and>
     handle_plugin_request respawn (Some d1) (Some 0) = Inr (0, Some d2)"
  using failed_worker_recovers [OF numberedD [OF broken_module_facts(1)] broken_module_facts(2), where envs = respawn and ty = 0 and envs' = respawn and ty' = 0]
    respawn_ok broken_module_facts(4) by auto

theorem restart_serves_new_sessions_only_witness:
  "\<exists>r d'. handle_plugin_request respawn (Some broken_module) (Some 0) = Inr (r, Some d') \<and>
     on_plugin_connection True (demo_client\<lparr>received_meta := Some (1, f32_zero)\<rparr>) d' = (Some 1, [40, 41, 42], [30]) \<and>
     dispatch_all [demo_dispatch] demo_buffers 64 2 (Some demo_ctx, broken_shm) = Inr ([False], Some demo_ctx, broken_shm)"
proof -
  have k: "1 < looked_at (compute_nodes broken_module)" "sn_shm (compute_nodes broken_module ! 1) = Some broken_shm"
    using looked_at_all [OF broken_module_facts(2)] by (simp_all add: broken_module_nodes)
  have c: "ctx_ok demo_ctx broken_shm" "cx_worker_id demo_ctx = of_nat 1"
    using demo_ctx_ok(1) broken_shm_facts(1) by (simp_all add: ctx_ok_def demo_ctx_def)
  let ?e = "demo_client\<lparr>received_meta := Some (1, f32_zero)\<rparr>"
  have e: "0 \<le> client_fd ?e" "received_meta ?e = Some (of_nat 1, f32_zero)" "response_sent ?e" by (simp_all add: demo_client_def)
  have fds: "memfd (respawn 1) = 40" "efd_send (respawn 1) = 41" "efd_recv (respawn 1) = 42" "client_fd ?e = 30"
    by (simp_all add: respawn_def demo_client_def)
  show ?thesis
    using restart_serves_new_sessions_only [where envs = respawn and k = 1 and ty = 0 and cenv = ?e and
        denvs = "[demo_dispatch]" and buffers = demo_buffers and frames = 64 and channels = 2,
        OF broken_module_facts(1) k(1) broken_module_facts(3) respawn_ok k(2) c e]
    unfolding fds by (simp del: dispatch_all.simps)
qed

end
