(* ===== verification/Remote.thy ===== *)
theory Remote
  imports Worker_Spec
begin

text \<open>
  The network node: the packets of \<open>Linux_DSP_accelleration.hpp\<close>, the host side \<open>RemoteDspNode\<close> of
  \<open>daemon/network_node.hpp\<close> with its jitter buffer, and the accelerator side \<open>NetworkServerNode\<close> of
  \<open>daemon/network_server_node.hpp\<close>. What the sockets and the clock answer is a parameter; the packets
  a node has sent are kept in its state.
\<close>

section \<open>Packets\<close>

text \<open>A received type may be none of the enumeration.\<close>

datatype packet_type = HANDSHAKE | AUDIO_FRAME | CONTROL_EVENT | KEEPALIVE | CLOCK_SYNC | OTHER_TYPE u32

record net_packet_header =
  magic :: u32
  pkt_type :: packet_type
  sequence_id :: u32
  payload_size :: u32
  pkt_timestamp_ns :: u64
  sample_rate :: u32
  pkt_reserved :: u32

definition layout_NetPacketHeader :: cty where
  "layout_NetPacketHeader = CStruct
     [(''magic'', CScalar 4), (''type'', CScalar 4), (''sequence_id'', CScalar 4), (''payload_size'', CScalar 4),
      (''timestamp_ns'', CScalar 8), (''sample_rate'', CScalar 4), (''reserved'', CScalar 4)]"

definition HEADER_SIZE :: nat where
  "HEADER_SIZE = c_size layout_NetPacketHeader"

lemma header_size: "HEADER_SIZE = 32"
  by (simp add: HEADER_SIZE_def layout_NetPacketHeader_def align_up_def)

definition MAGIC :: u32 where
  "MAGIC = 0x44535041"

datatype net_payload = No_Payload | Audio_Payload dsp_audio_frame | Control_Payload dsp_control_event

definition size_of_payload :: "net_payload \<Rightarrow> nat" where
  "size_of_payload p = (case p of No_Payload \<Rightarrow> 0 | Audio_Payload f \<Rightarrow> c_size layout_DspAudioFrame
     | Control_Payload e \<Rightarrow> c_size layout_DspControlEvent)"

text \<open>
  A received datagram: its length, the header at the front of the buffer and the frame behind it. Of a
  datagram that is shorter than both, the rest of the buffer is left from an earlier one.
\<close>

record datagram =
  dg_len :: int
  dg_header :: net_packet_header
  dg_frame :: dsp_audio_frame

text \<open>The datagram a sent packet arrives as; \<open>old\<close> is the frame already in the buffer.\<close>

definition arrives :: "net_packet_header \<times> net_payload \<Rightarrow> dsp_audio_frame \<Rightarrow> datagram" where
  "arrives p old = \<lparr>dg_len = int (HEADER_SIZE + size_of_payload (snd p)), dg_header = fst p,
     dg_frame = (case snd p of Audio_Payload f \<Rightarrow> f | _ \<Rightarrow> old)\<rparr>"

section \<open>The host side\<close>

definition JITTER_WINDOW :: nat where
  "JITTER_WINDOW = 32"

record remote_node =
  rn_socket_fd :: int
  seq_id :: u32
  rn_active :: bool
  rn_shm_set :: bool
  expected_seq_id :: u32
  jitter_buffer :: "dsp_audio_frame list"
  jitter_mask :: "bool list"
  clock_offset_ns :: int
  current_sample_rate :: u32
  sent_packets :: "(net_packet_header \<times> net_payload) list"

text \<open>The constructor; \<open>fd\<close> is what \<open>socket\<close> returns.\<close>

definition new_remote :: "int \<Rightarrow> u32 \<Rightarrow> remote_node" where
  "new_remote fd rate = \<lparr>rn_socket_fd = fd, seq_id = 0, rn_active = False, rn_shm_set = False, expected_seq_id = 0,
     jitter_buffer = replicate JITTER_WINDOW frame_zero, jitter_mask = replicate JITTER_WINDOW False,
     clock_offset_ns = 0, current_sample_rate = rate, sent_packets = []\<rparr>"

text \<open>Whether the socket takes the packet with a number, and when.\<close>

record net_env =
  send_result :: "u32 \<Rightarrow> bool"
  send_time :: "u32 \<Rightarrow> u64"

definition send_packet :: "net_env \<Rightarrow> packet_type \<Rightarrow> net_payload \<Rightarrow> remote_node \<Rightarrow> bool \<times> remote_node" where
  "send_packet net ty payload n =
     (let header = \<lparr>magic = MAGIC, pkt_type = ty, sequence_id = seq_id n, payload_size = of_nat (size_of_payload payload),
            pkt_timestamp_ns = send_time net (seq_id n), sample_rate = current_sample_rate n, pkt_reserved = 0\<rparr>;
          ok = send_result net (seq_id n)
      in (ok, n\<lparr>seq_id := seq_id n + 1, sent_packets := sent_packets n @ (if ok then [(header, payload)] else [])\<rparr>))"

definition remote_init :: "net_env \<Rightarrow> int \<Rightarrow> remote_node \<Rightarrow> bool \<times> remote_node" where
  "remote_init net device_index n =
     (if rn_socket_fd n < 0 then (False, n)
      else (True, snd (send_packet net HANDSHAKE No_Payload (n\<lparr>rn_active := True\<rparr>))))"

definition remote_process_stage :: "net_env \<Rightarrow> remote_node \<Rightarrow> dsp_audio_frame \<Rightarrow> u64
    \<Rightarrow> (bool \<times> dsp_audio_frame \<times> remote_node) outcome" where
  "remote_process_stage net n frame addr =
     (let (ok, n') = send_packet net AUDIO_FRAME (Audio_Payload frame) n in Inr (ok, frame, n'))"

definition remote_apply_control_event :: "net_env \<Rightarrow> remote_node \<Rightarrow> u32 \<Rightarrow> f32 \<Rightarrow> remote_node outcome" where
  "remote_apply_control_event net n param_id v =
     Inr (snd (send_packet net CONTROL_EVENT (Control_Payload \<lparr>parameter_id = param_id, evt_value = v\<rparr>) n))"

definition remote_descriptor :: dsp_node_descriptor where
  "remote_descriptor = \<lparr>node_name = ''External_Host'', node_type = DSP_ACCEL_TYPE_REMOTE, vram_capacity_mb = 1024,
     supports_zero_copy = False, supports_staging = False, max_buffer_size = 0\<rparr>"

definition remote_ops :: "net_env \<Rightarrow> remote_node node_ops" where
  "remote_ops net = \<lparr>node_init = remote_init net, get_descriptor = (\<lambda>n. remote_descriptor),
     process_stage = remote_process_stage net, apply_control_event = remote_apply_control_event net,
     allocate_buffer = (\<lambda>n s. (0, n)), upload_buffer = (\<lambda>n h d s. Inr (True, n)), free_buffer = (\<lambda>n h. n),
     set_shm_ptr = (\<lambda>n p. n\<lparr>rn_shm_set := (p \<noteq> 0)\<rparr>), set_zero_copy_bypass = (\<lambda>n e f s. n)\<rparr>"

text \<open>The descriptors the destructor closes, after the receiving thread has ended.\<close>

definition remote_destroy :: "remote_node \<Rightarrow> int list" where
  "remote_destroy n = (if 0 \<le> rn_socket_fd n then [rn_socket_fd n] else [])"

section \<open>Receiving\<close>

text \<open>\<open>while (jitter_mask[expected % 32])\<close>: each pass clears a flag, which ends the loop.\<close>

function drain_ready :: "remote_node \<Rightarrow> dsp_audio_frame ring \<Rightarrow> remote_node \<times> dsp_audio_frame ring" where
  "drain_ready n q =
     (let ready_slot = unat (expected_seq_id n mod 32) in
      if ready_slot < length (jitter_mask n) \<and> jitter_mask n ! ready_slot
      then drain_ready (n\<lparr>jitter_mask := (jitter_mask n)[ready_slot := False], expected_seq_id := expected_seq_id n + 1\<rparr>)
        (snd (push q (jitter_buffer n ! ready_slot)))
      else (n, q))"
  by pat_completeness auto

lemma clear_flag: "i < length xs \<Longrightarrow> xs ! i \<Longrightarrow> length (filter (\<lambda>b. b) (xs[i := False])) < length (filter (\<lambda>b. b) xs)"
proof (induction xs arbitrary: i)
  case (Cons a xs)
  then show ?case by (cases i) fastforce+
qed simp

termination drain_ready
  by (relation "measure (\<lambda>(n, q). length (filter (\<lambda>b. b) (jitter_mask n)))") (auto intro: clear_flag)

declare drain_ready.simps [simp del]

text \<open>The insertion of a packet within the window, which \<open>int32_t\<close> arithmetic decides.\<close>

definition store_packet :: "u32 \<Rightarrow> dsp_audio_frame \<Rightarrow> remote_node \<Rightarrow> remote_node" where
  "store_packet seq frame n =
     (let slot = unat (seq mod 32); diff = sint (seq - expected_seq_id n) in
      if 0 \<le> diff \<and> diff < int JITTER_WINDOW
      then n\<lparr>jitter_buffer := (jitter_buffer n)[slot := frame], jitter_mask := (jitter_mask n)[slot := True]\<rparr>
      else n)"

text \<open>One pass of the receiving thread; \<open>now\<close> is the clock of a synchronisation.\<close>

definition receive_packet :: "int \<Rightarrow> datagram \<Rightarrow> remote_node \<times> dsp_shared_memory \<Rightarrow> (remote_node \<times> dsp_shared_memory) outcome" where
  "receive_packet now d = (\<lambda>(n, m).
     (let h = dg_header d in
      if dg_len d < int HEADER_SIZE then Inr (n, m)
      else if magic h \<noteq> MAGIC then Inr (n, m)
      else if pkt_type h = AUDIO_FRAME \<and> rn_shm_set n then
        (let (n', q) = drain_ready (store_packet (sequence_id h) (dg_frame d) n) (out_queue m)
         in Inr (n', m\<lparr>out_queue := q\<rparr>))
      else if pkt_type h = CLOCK_SYNC then
        (let off = sint (pkt_timestamp_ns h) - now in
         if - (2 ^ 63) \<le> off \<and> off < 2 ^ 63 then Inr (n\<lparr>clock_offset_ns := off\<rparr>, m) else Inl Signed_Overflow)
      else Inr (n, m)))"

text \<open>The thread, for the datagrams that arrive while the node is active, each with its clock.\<close>

definition receive_loop :: "(int \<times> datagram) list \<Rightarrow> remote_node \<times> dsp_shared_memory \<Rightarrow> (remote_node \<times> dsp_shared_memory) outcome" where
  "receive_loop ds = for_each (\<lambda>(now, d). receive_packet now d) ds"

section \<open>The accelerator side\<close>

text \<open>
  The answer to one datagram, if any, and the local node afterwards. The result of the local stage is
  not looked at. \<open>addr\<close> is the address of the buffer's frame.
\<close>

definition server_step :: "'n node_ops \<Rightarrow> u64 \<Rightarrow> u64 \<times> datagram \<Rightarrow> 'n \<times> (net_packet_header \<times> net_payload) list
    \<Rightarrow> ('n \<times> (net_packet_header \<times> net_payload) list) outcome" where
  "server_step ops addr = (\<lambda>(now, d) (node, replies).
     (let header = dg_header d in
      if dg_len d < int HEADER_SIZE then Inr (node, replies)
      else if magic header \<noteq> MAGIC then Inr (node, replies)
      else if pkt_type header = AUDIO_FRAME then
        (case process_stage ops node (dg_frame d) addr of
           Inl e \<Rightarrow> Inl e
         | Inr (ok, frame, node') \<Rightarrow> Inr (node', replies @ [(header\<lparr>pkt_timestamp_ns := now\<rparr>, Audio_Payload frame)]))
      else if pkt_type header = HANDSHAKE then Inr (node, replies @ [(header\<lparr>pkt_type := KEEPALIVE\<rparr>, No_Payload)])
      else Inr (node, replies)))"

definition server_start :: "'n node_ops \<Rightarrow> u64 \<Rightarrow> bool \<Rightarrow> (u64 \<times> datagram) list \<Rightarrow> 'n
    \<Rightarrow> ('n \<times> (net_packet_header \<times> net_payload) list) outcome" where
  "server_start ops addr bind_ok ds node =
     (if \<not> bind_ok then Inr (node, []) else for_each (server_step ops addr) ds (node, []))"

text \<open>
  The object around the loop, \<open>NetworkServerNode\<close>, with \<open>stop\<close> called by another thread. The flag is looked at
  between two datagrams only: what happens to a server whose loop runs is a list of calls of \<open>stop\<close> and
  of datagrams, and the loop is over with the first datagram after a \<open>stop\<close>. The result is whether
  \<open>start\<close> has returned.
\<close>

record network_server_node =
  srv_socket :: int
  srv_running :: bool

definition server_new :: "int \<Rightarrow> network_server_node" where
  "server_new fd = \<lparr>srv_socket = fd, srv_running = False\<rparr>"

definition server_stop :: "network_server_node \<Rightarrow> network_server_node" where
  "server_stop srv = srv\<lparr>srv_running := False\<rparr>"

definition server_delete :: "network_server_node \<Rightarrow> int list" where
  "server_delete srv = (if 0 \<le> srv_socket srv then [srv_socket srv] else [])"

datatype server_event = Stop | Datagram u64 datagram

fun server_loop :: "'n node_ops \<Rightarrow> u64 \<Rightarrow> server_event list \<Rightarrow> network_server_node
    \<Rightarrow> 'n \<times> (net_packet_header \<times> net_payload) list
    \<Rightarrow> (bool \<times> network_server_node \<times> 'n \<times> (net_packet_header \<times> net_payload) list) outcome" where
  "server_loop ops addr [] srv st = Inr (False, srv, st)"
| "server_loop ops addr (Stop # es) srv st = server_loop ops addr es (server_stop srv) st"
| "server_loop ops addr (Datagram now d # es) srv st =
     (case server_step ops addr (now, d) st of
        Inl e \<Rightarrow> Inl e
      | Inr st' \<Rightarrow> if srv_running srv then server_loop ops addr es srv st' else Inr (True, srv, st'))"

definition server_run :: "'n node_ops \<Rightarrow> u64 \<Rightarrow> bool \<Rightarrow> server_event list \<Rightarrow> network_server_node \<Rightarrow> 'n
    \<Rightarrow> (bool \<times> network_server_node \<times> 'n \<times> (net_packet_header \<times> net_payload) list) outcome" where
  "server_run ops addr bind_ok es srv node =
     (if \<not> bind_ok then Inr (True, srv, node, []) else server_loop ops addr es (srv\<lparr>srv_running := True\<rparr>) (node, []))"

text \<open>Without a \<open>stop\<close> the loop serves every datagram and does not return.\<close>

lemma server_loop_serves:
  "srv_running srv \<Longrightarrow> server_loop ops addr (map (\<lambda>(now, d). Datagram now d) ds) srv st =
     (case for_each (server_step ops addr) ds st of Inl e \<Rightarrow> Inl e | Inr st' \<Rightarrow> Inr (False, srv, st'))"
  by (induction ds arbitrary: st) (auto split: sum.splits)

lemma server_run_start:
  "server_run ops addr True (map (\<lambda>(now, d). Datagram now d) ds) srv node =
     (case server_start ops addr True ds node of Inl e \<Rightarrow> Inl e | Inr st' \<Rightarrow> Inr (False, srv\<lparr>srv_running := True\<rparr>, st'))"
  by (simp add: server_run_def server_start_def server_loop_serves)

text \<open>A \<open>stop\<close> takes effect only with the next datagram, which is still served.\<close>

lemma server_stops_late:
  assumes "for_each (server_step ops addr) ds (node, []) = Inr st"
  defines "served \<equiv> map (\<lambda>(now, d). Datagram now d) ds"
  shows "server_run ops addr True (served @ [Stop]) srv node = Inr (False, srv\<lparr>srv_running := False\<rparr>, st)"
    "server_run ops addr True (served @ Stop # Datagram now d # es) srv node =
      (case server_step ops addr (now, d) st of Inl e \<Rightarrow> Inl e | Inr st' \<Rightarrow> Inr (True, srv\<lparr>srv_running := False\<rparr>, st'))"
proof -
  have "for_each (server_step ops addr) ds st0 = Inr st \<Longrightarrow>
      server_loop ops addr (served @ es) (srv\<lparr>srv_running := True\<rparr>) st0 = server_loop ops addr es (srv\<lparr>srv_running := True\<rparr>) st" for es st0
    unfolding served_def by (induction ds arbitrary: st0) (auto split: sum.splits)
  from this [OF assms(1)] show
    "server_run ops addr True (served @ [Stop]) srv node = Inr (False, srv\<lparr>srv_running := False\<rparr>, st)"
    "server_run ops addr True (served @ Stop # Datagram now d # es) srv node =
      (case server_step ops addr (now, d) st of Inl e \<Rightarrow> Inl e | Inr st' \<Rightarrow> Inr (True, srv\<lparr>srv_running := False\<rparr>, st'))"
    by (simp_all add: server_run_def server_stop_def split: sum.split)
qed

section \<open>The node as a back end\<close>

definition remote_ok :: "remote_node \<Rightarrow> bool" where
  "remote_ok n \<longleftrightarrow> length (jitter_buffer n) = JITTER_WINDOW \<and> length (jitter_mask n) = JITTER_WINDOW"

interpretation remote: dsp_node "remote_ops net" remote_ok remote_ok "\<lambda>k v. True"
  by unfold_locales
    (auto simp: remote_ops_def remote_init_def remote_process_stage_def remote_apply_control_event_def send_packet_def
      remote_ok_def Let_def split: if_splits)

end
