(* ===== verification/Remote_Spec.thy ===== *)
theory Remote_Spec
  imports Remote
begin

text \<open>
  What the jitter buffer of \<open>RemoteDspNode\<close> guarantees: it implements a map from sequence numbers to
  frames that is emptied from the expected number on, it delivers a window of packets in order whatever
  order they arrive in, and it delivers nothing as long as the expected number is missing, which is the
  case of every session that \<open>init\<close> starts.
\<close>

section \<open>Offsets from the expected number\<close>

lemma slot_offset: "unat ((e + of_nat j :: u32) mod 32) = (unat e + j) mod 32"
proof -
  have "unat (e + of_nat j) = (unat e + j) mod 2 ^ 32"
    by (simp add: unat_word_ariths(1) unat_of_nat take_bit_eq_mod mod_simps)
  moreover have "x mod 2 ^ 32 mod 32 = x mod (32 :: nat)" for x by (rule mod_mod_cancel) (simp add: dvd_def)
  ultimately show ?thesis by (simp add: unat_mod_distrib)
qed

lemma from_offset: "s = e + (of_nat (unat (s - e)) :: u32)"
  by simp

lemma slot_of: "unat (s mod 32) = (unat e + unat (s - e :: u32)) mod 32"
  using slot_offset [of e "unat (s - e)"] by (metis from_offset)

lemma mod32_inj: "(a + j) mod 32 = (a + k) mod 32 \<Longrightarrow> j < 32 \<Longrightarrow> k < 32 \<Longrightarrow> j = (k :: nat)"
proof -
  have le: "j = k" if "(a + j) mod 32 = (a + k) mod 32" "k < 32" "j \<le> k" for j k :: nat
  proof -
    have "32 dvd (a + k) - (a + j)" using that mod_eq_dvd_iff_nat [of "a + j" "a + k" 32] by simp
    then have "32 dvd k - j" by simp
    moreover have "k - j < 32" using that(2) by simp
    ultimately have "k - j = 0" using nat_dvd_not_less by blast
    with that(3) show ?thesis by simp
  qed
  assume "(a + j) mod 32 = (a + k) mod 32" "j < 32" "k < 32"
  then show ?thesis using le [of j k] le [of k j] by (cases "j \<le> k") simp_all
qed

lemma slot_eq:
  assumes "unat (s - e) < 32" "unat (t - e) < 32" "unat (s mod 32) = unat (t mod (32 :: u32))"
  shows "s = (t :: u32)"
proof -
  have "(unat e + unat (s - e)) mod 32 = (unat e + unat (t - e)) mod 32"
    unfolding slot_of [symmetric] by (rule assms(3))
  then have "unat (s - e) = unat (t - e)" using assms(1,2) by (rule mod32_inj)
  then have "s - e = t - e" by (simp only: word_unat_eq_iff)
  then show ?thesis by simp
qed

lemma sint_window: "0 \<le> sint (x :: u32) \<and> sint x < 32 \<longleftrightarrow> unat x < 32"
proof -
  have s: "sint x = (if uint x < 2 ^ 31 then uint x else uint x - 2 ^ 32)"
  proof (cases "uint x < 2 ^ 31")
    case True
    moreover have "0 \<le> uint x" by simp
    then have "- 2147483648 \<le> uint x" by (rule order_trans [rotated]) simp
    ultimately show ?thesis by (simp add: sint_uint signed_take_bit_int_eq_self_iff)
  next
    case False
    have u: "uint x < 2 ^ 32" using uint_lt2p [of x] by simp
    have "signed_take_bit 31 (uint x) = signed_take_bit 31 (uint x - 2 ^ 32)"
      by (simp add: signed_take_bit_eq_iff_take_bit_eq take_bit_eq_mod)
    also have "\<dots> = uint x - 2 ^ 32" using False u by (simp add: signed_take_bit_int_eq_self_iff)
    finally show ?thesis using False by (simp add: sint_uint)
  qed
  have u: "uint x < 2 ^ 32" "0 \<le> uint x" using uint_lt2p [of x] by simp_all
  have n: "unat x < 32 \<longleftrightarrow> uint x < 32"
    using nat_less_iff [OF u(2), of 32] by (simp only: unat_eq_nat_uint of_nat_numeral)
  show ?thesis
  proof (cases "uint x < 2 ^ 31")
    case True
    then have "sint x = uint x" using s by (simp only: if_True)
    then show ?thesis unfolding n using u(2) by linarith
  next
    case False
    then have "sint x = uint x - 2 ^ 32" using s by (simp only: if_False)
    then have "\<not> 0 \<le> sint x" using u(1) by linarith
    moreover have "2147483648 \<le> uint x" using False by simp
    then have "\<not> uint x < 32" by linarith
    ultimately show ?thesis unfolding n by blast
  qed
qed

lemma offset_next:
  assumes "s \<noteq> e"
  shows "unat (s - e) = Suc (unat (s - (e + 1 :: u32)))"
proof -
  have "s - e \<noteq> 0" using assms by simp
  then have "unat (s - e - 1) = unat (s - e) - 1" "0 < unat (s - e)" by (simp_all add: unat_minus_one unat_gt_0)
  moreover have d: "s - (e + 1) = s - e - 1" by simp
  ultimately show ?thesis unfolding d by simp
qed

section \<open>The abstract jitter buffer\<close>

text \<open>
  The expected number and the frames that wait for it. A packet less than 32 numbers ahead is kept; then
  the longest run of frames from the expected number on is delivered and forgotten.
\<close>

fun ready_run :: "nat \<Rightarrow> (u32 \<rightharpoonup> 'a) \<Rightarrow> u32 \<Rightarrow> 'a list" where
  "ready_run 0 P e = []"
| "ready_run (Suc k) P e = (case P e of None \<Rightarrow> [] | Some f \<Rightarrow> f # ready_run k P (e + 1))"

definition offer :: "u32 \<Rightarrow> 'a \<Rightarrow> u32 \<Rightarrow> (u32 \<rightharpoonup> 'a) \<Rightarrow> (u32 \<rightharpoonup> 'a)" where
  "offer seq f e P = (if unat (seq - e) < JITTER_WINDOW then P(seq \<mapsto> f) else P)"

definition reorder_step :: "u32 \<Rightarrow> 'a \<Rightarrow> u32 \<times> (u32 \<rightharpoonup> 'a) \<Rightarrow> 'a list \<times> u32 \<times> (u32 \<rightharpoonup> 'a)" where
  "reorder_step seq f = (\<lambda>(e, P).
     (let P' = offer seq f e P; xs = ready_run JITTER_WINDOW P' e
      in (xs, e + of_nat (length xs), \<lambda>q. if unat (q - e) < length xs then None else P' q)))"

text \<open>The frames of a node that wait, by their numbers.\<close>

definition pending :: "remote_node \<Rightarrow> u32 \<Rightarrow> dsp_audio_frame option" where
  "pending n = (\<lambda>q. if unat (q - expected_seq_id n) < JITTER_WINDOW \<and> jitter_mask n ! unat (q mod 32)
     then Some (jitter_buffer n ! unat (q mod 32)) else None)"

definition push_all :: "'a list \<Rightarrow> 'a ring \<Rightarrow> 'a ring" where
  "push_all xs q = fold (\<lambda>x r. snd (push r x)) xs q"

lemma push_all_simps [simp]: "push_all [] q = q" "push_all (x # xs) q = push_all xs (snd (push q x))"
  "push_all (xs @ ys) q = push_all ys (push_all xs q)"
  by (simp_all add: push_all_def)

lemma push_all_items:
  "ring_wf q \<Longrightarrow> items (push_all xs q) = items q @ take (ring_room q - length (items q)) xs"
proof (induction xs arbitrary: q)
  case (Cons x xs)
  consider "length (items q) = ring_room q" "push q x = (False, q)"
    | q' where "length (items q) < ring_room q" "push q x = (True, q')" "ring_wf q'"
        "items q' = items q @ [x]" "ring_room q' = ring_room q"
    using push_cases [OF Cons.prems, of x] by metis
  then show ?case
  proof cases
    case 1
    with Cons.IH [OF Cons.prems] show ?thesis by simp
  next
    case (2 q')
    then have "ring_room q - length (items q) = Suc (ring_room q' - length (items q'))" by (simp del: length_items)
    with 2 Cons.IH [of q'] show ?thesis by (simp del: length_items)
  qed
qed simp

lemma ready_run_le: "length (ready_run k P e) \<le> k"
  by (induction k P e rule: ready_run.induct) (auto split: option.splits)

lemma ready_run_last: "P (e + of_nat k) = None \<Longrightarrow> ready_run (Suc k) P e = ready_run k P e"
proof (induction k arbitrary: e)
  case (Suc k)
  then have "P (e + 1 + of_nat k) = None" by (simp add: add.assoc)
  from Suc.IH [OF this] show ?case by (simp split: option.splits)
qed simp

lemma ready_run_cong:
  "(\<And>j. j < k \<Longrightarrow> P (e + of_nat j) = Q (e + of_nat j)) \<Longrightarrow> ready_run k P e = ready_run k Q e"
proof (induction k arbitrary: e)
  case (Suc k)
  have "P (e + 1 + of_nat j) = Q (e + 1 + of_nat j)" if "j < k" for j
    using Suc.prems [of "Suc j"] that by (simp add: add.assoc)
  from Suc.IH [OF this] Suc.prems [of 0] show ?case by (simp split: option.splits)
qed simp

section \<open>The node implements it\<close>

lemma slot_lt: "unat (q mod 32 :: u32) < 32"
  by (simp add: unat_mod_distrib)

lemma store_packet_frame [simp]:
  "expected_seq_id (store_packet seq f n) = expected_seq_id n"
  "rn_shm_set (store_packet seq f n) = rn_shm_set n"
  "remote_ok (store_packet seq f n) = remote_ok n"
  by (simp_all add: store_packet_def Let_def remote_ok_def)

lemma store_packet_pending:
  assumes "remote_ok n"
  shows "pending (store_packet seq f n) = offer seq f (expected_seq_id n) (pending n)"
proof
  fix q
  let ?e = "expected_seq_id n"
  have len: "length (jitter_buffer n) = 32" "length (jitter_mask n) = 32"
    using assms by (simp_all add: remote_ok_def JITTER_WINDOW_def)
  show "pending (store_packet seq f n) q = offer seq f ?e (pending n) q"
  proof (cases "unat (seq - ?e) < 32")
    case True
    then have st: "store_packet seq f n = n\<lparr>jitter_buffer := (jitter_buffer n)[unat (seq mod 32) := f],
        jitter_mask := (jitter_mask n)[unat (seq mod 32) := True]\<rparr>"
      using sint_window [of "seq - ?e"] by (simp add: store_packet_def JITTER_WINDOW_def Let_def)
    have "q = seq \<longleftrightarrow> unat (q mod 32) = unat (seq mod 32)" if "unat (q - ?e) < 32"
      using slot_eq [OF that True] by auto
    then show ?thesis
      using True slot_lt [of seq] len
      by (auto simp: st pending_def offer_def JITTER_WINDOW_def nth_list_update)
  next
    case False
    then show ?thesis
      using sint_window [of "seq - ?e"] by (auto simp: store_packet_def offer_def JITTER_WINDOW_def Let_def)
  qed
qed

lemma pending_window: "JITTER_WINDOW \<le> unat (q - expected_seq_id n) \<Longrightarrow> pending n q = None"
  by (simp add: pending_def)

text \<open>One pass of the loop takes the expected frame out.\<close>

lemma taken_pending:
  assumes "remote_ok n" "jitter_mask n ! unat (expected_seq_id n mod 32)"
  defines "n' \<equiv> n\<lparr>jitter_mask := (jitter_mask n)[unat (expected_seq_id n mod 32) := False],
    expected_seq_id := expected_seq_id n + 1\<rparr>"
  shows "pending n' = (pending n)(expected_seq_id n := None)" "remote_ok n'"
    "pending n (expected_seq_id n) = Some (jitter_buffer n ! unat (expected_seq_id n mod 32))"
proof -
  let ?e = "expected_seq_id n"
  have len: "length (jitter_buffer n) = 32" "length (jitter_mask n) = 32"
    using assms(1) by (simp_all add: remote_ok_def JITTER_WINDOW_def)
  show "remote_ok n'" using assms(1) by (simp add: n'_def remote_ok_def)
  show "pending n ?e = Some (jitter_buffer n ! unat (?e mod 32))"
    using assms(2) by (simp add: pending_def JITTER_WINDOW_def)
  show "pending n' = (pending n)(?e := None)"
  proof
    fix q
    show "pending n' q = ((pending n)(?e := None)) q"
    proof (cases "q = ?e")
      case True
      have "?e - (?e + 1) = - 1" by simp
      then have "unat (?e - (?e + 1)) = 4294967295" by (simp only: unsigned_minus_1_eq_mask) (simp add: mask_eq_exp_minus_1)
      with True show ?thesis by (simp add: pending_def n'_def JITTER_WINDOW_def)
    next
      case False
      have next_off: "unat (q - ?e) = Suc (unat (q - (?e + 1)))" by (rule offset_next [OF False])
      show ?thesis
      proof (cases "unat (q - ?e) < 32")
        case True
        have "unat (?e - ?e) < 32" by simp
        from slot_eq [OF True this] False have "unat (q mod 32) \<noteq> unat (?e mod 32)" by auto
        with True False next_off show ?thesis by (simp add: pending_def n'_def JITTER_WINDOW_def)
      next
        case out: False
        have "unat (q mod 32) = unat (?e mod 32)" if "unat (q - (?e + 1)) < 32"
        proof -
          have "unat (q - ?e) = 32" using out that next_off by simp
          then show ?thesis using slot_of [of q ?e] slot_of [of ?e ?e] by simp
        qed
        then show ?thesis
          using False out len slot_lt [of ?e] by (auto simp: pending_def n'_def JITTER_WINDOW_def)
      qed
    qed
  qed
qed

definition forget :: "u32 \<Rightarrow> nat \<Rightarrow> (u32 \<rightharpoonup> 'a) \<Rightarrow> (u32 \<rightharpoonup> 'a)" where
  "forget e k P = (\<lambda>q. if unat (q - e) < k then None else P q)"

lemma forget_0 [simp]: "forget e 0 P = P"
  by (simp add: forget_def)

lemma forget_Suc: "forget (e + 1) k (P(e := None)) = forget e (Suc k) P" if "k < 2 ^ 32 - 1"
proof
  fix q :: u32
  show "forget (e + 1) k (P(e := None)) q = forget e (Suc k) P q"
    using offset_next [of q e] by (cases "q = e") (simp_all add: forget_def)
qed

lemma ready_run_taken:
  assumes "P e = Some f" "P (e + 32) = None"
  shows "ready_run JITTER_WINDOW P e = f # ready_run JITTER_WINDOW (P(e := None)) (e + 1)"
proof -
  have far: "e + 1 + of_nat j \<noteq> e" if "j < 31" for j
  proof -
    have "unat (of_nat (Suc j) :: u32) = Suc j" using that by (simp only: unat_of_nat) (simp add: take_bit_nat_eq_self)
    moreover have "e + 1 + of_nat j - e = of_nat (Suc j)" by simp
    ultimately have "e + 1 + of_nat j - e \<noteq> 0" by (metis nat.simps(3) unsigned_0)
    then show ?thesis by auto
  qed
  have "(P(e := None)) (e + 1 + of_nat 31) = None" using assms(2) by (simp add: add.assoc)
  then have "ready_run (Suc 31) (P(e := None)) (e + 1) = ready_run 31 (P(e := None)) (e + 1)" by (rule ready_run_last)
  then have "ready_run JITTER_WINDOW (P(e := None)) (e + 1) = ready_run 31 (P(e := None)) (e + 1)"
    by (simp add: JITTER_WINDOW_def)
  also have "\<dots> = ready_run 31 P (e + 1)" by (rule ready_run_cong) (use far in auto)
  finally show ?thesis using assms(1) by (simp add: JITTER_WINDOW_def numeral_eq_Suc)
qed

text \<open>
  The loop runs as long as the abstract run of frames, at most 32 passes, and stops where it ends. The
  other fields that a packet is judged by stay as they are.
\<close>

lemma drain_run:
  assumes "remote_ok n"
  defines "xs \<equiv> ready_run JITTER_WINDOW (pending n) (expected_seq_id n)"
  shows "snd (drain_ready n q) = push_all xs q \<and> remote_ok (fst (drain_ready n q)) \<and>
    expected_seq_id (fst (drain_ready n q)) = expected_seq_id n + of_nat (length xs) \<and>
    pending (fst (drain_ready n q)) = forget (expected_seq_id n) (length xs) (pending n) \<and>
    rn_shm_set (fst (drain_ready n q)) = rn_shm_set n"
  using assms(1) unfolding xs_def
proof (induction n q rule: drain_ready.induct)
  case (1 n q)
  let ?e = "expected_seq_id n" and ?s = "unat (expected_seq_id n mod 32)"
  let ?n' = "n\<lparr>jitter_mask := (jitter_mask n)[?s := False], expected_seq_id := ?e + 1\<rparr>"
  have len: "length (jitter_mask n) = 32" using "1.prems" by (simp add: remote_ok_def JITTER_WINDOW_def)
  show ?case
  proof (cases "jitter_mask n ! ?s")
    case False
    then have "pending n ?e = None" by (simp add: pending_def)
    then have "ready_run JITTER_WINDOW (pending n) ?e = []" by (simp add: JITTER_WINDOW_def eval_nat_numeral)
    moreover have "drain_ready n q = (n, q)" using False by (subst drain_ready.simps) (simp add: Let_def)
    ultimately show ?thesis using "1.prems" by simp
  next
    case True
    note taken = taken_pending [OF "1.prems" True]
    define P where "P = pending n"
    define f where "f = jitter_buffer n ! ?s"
    have d: "drain_ready n q = drain_ready ?n' (snd (push q f))"
      using True len slot_lt [of ?e] by (subst drain_ready.simps) (simp add: Let_def f_def)
    have P': "pending ?n' = P(?e := None)" "P ?e = Some f" by (simp_all add: P_def taken f_def)
    define ys where "ys = ready_run JITTER_WINDOW (P(?e := None)) (?e + 1)"
    have "P (?e + 32) = None" using pending_window [of "?e + 32" n] by (simp add: P_def JITTER_WINDOW_def)
    from ready_run_taken [OF P'(2) this] have run: "ready_run JITTER_WINDOW P ?e = f # ys" by (simp only: ys_def)
    have "length ys < 2 ^ 32 - 1" using ready_run_le [of JITTER_WINDOW "P(?e := None)" "?e + 1"]
      by (simp add: ys_def JITTER_WINDOW_def)
    from forget_Suc [OF this] have fg: "forget (?e + 1) (length ys) (P(?e := None)) = forget ?e (Suc (length ys)) P" .
    have "?s < length (jitter_mask n) \<and> jitter_mask n ! ?s" using True len slot_lt [of ?e] by simp
    have e': "expected_seq_id ?n' = ?e + 1" by simp
    note IH = "1.IH" [OF refl \<open>?s < length (jitter_mask n) \<and> jitter_mask n ! ?s\<close> taken(2), folded f_def]
    show ?thesis
      unfolding d P_def [symmetric] run
      using IH [unfolded P'(1) e', folded ys_def, unfolded fg] by (simp add: add.assoc)
  qed
qed

lemma drain_stops:
  "remote_ok n \<Longrightarrow> \<not> jitter_mask (fst (drain_ready n q)) ! unat (expected_seq_id (fst (drain_ready n q)) mod 32)"
proof (induction n q rule: drain_ready.induct)
  case (1 n q)
  have len: "length (jitter_mask n) = 32" using "1.prems" by (simp add: remote_ok_def JITTER_WINDOW_def)
  show ?case
  proof (cases "jitter_mask n ! unat (expected_seq_id n mod 32)")
    case True
    with "1.IH" [OF refl] taken_pending(2) [OF "1.prems" True] len slot_lt [of "expected_seq_id n"]
    show ?thesis by (subst (1 2) drain_ready.simps) (simp add: Let_def)
  next
    case False
    then show ?thesis by (subst (1 2) drain_ready.simps) (simp add: Let_def)
  qed
qed

section \<open>The receiving thread\<close>

definition audio_packet :: "datagram \<Rightarrow> bool" where
  "audio_packet d \<longleftrightarrow> int HEADER_SIZE \<le> dg_len d \<and> magic (dg_header d) = MAGIC \<and> pkt_type (dg_header d) = AUDIO_FRAME"

definition reorder :: "remote_node \<Rightarrow> u32 \<times> (u32 \<rightharpoonup> dsp_audio_frame)" where
  "reorder n = (expected_seq_id n, pending n)"

fun reorder_run :: "datagram list \<Rightarrow> u32 \<times> (u32 \<rightharpoonup> dsp_audio_frame) \<Rightarrow> dsp_audio_frame list \<times> u32 \<times> (u32 \<rightharpoonup> dsp_audio_frame)" where
  "reorder_run [] st = ([], st)"
| "reorder_run (d # ds) st = (if audio_packet d
     then (let (xs, st') = reorder_step (sequence_id (dg_header d)) (dg_frame d) st; (ys, st'') = reorder_run ds st'
           in (xs @ ys, st''))
     else reorder_run ds st)"

text \<open>The difference of the clocks that a synchronisation packet asks for has a value.\<close>

definition clock_fits :: "int \<times> datagram \<Rightarrow> bool" where
  "clock_fits = (\<lambda>(now, d). pkt_type (dg_header d) = CLOCK_SYNC \<longrightarrow>
     - (2 ^ 63) \<le> sint (pkt_timestamp_ns (dg_header d)) - now \<and> sint (pkt_timestamp_ns (dg_header d)) - now < 2 ^ 63)"

lemma receive_audio:
  assumes "remote_ok n" "rn_shm_set n" "audio_packet d"
  shows "\<exists>n' xs. receive_packet now d (n, m) = Inr (n', m\<lparr>out_queue := push_all xs (out_queue m)\<rparr>) \<and>
    reorder_step (sequence_id (dg_header d)) (dg_frame d) (reorder n) = (xs, reorder n') \<and> remote_ok n' \<and> rn_shm_set n'"
proof -
  let ?n = "store_packet (sequence_id (dg_header d)) (dg_frame d) n"
  have ok: "remote_ok ?n" using assms(1) by simp
  obtain n' q' where d: "drain_ready ?n (out_queue m) = (n', q')" by fastforce
  have "receive_packet now d (n, m) = Inr (n', m\<lparr>out_queue := q'\<rparr>)"
    using assms(2,3) d by (simp add: receive_packet_def audio_packet_def)
  moreover from drain_run [OF ok, of "out_queue m"]
  have "reorder_step (sequence_id (dg_header d)) (dg_frame d) (reorder n) =
      (ready_run JITTER_WINDOW (pending ?n) (expected_seq_id n), reorder n')"
    by (simp add: d reorder_def reorder_step_def Let_def store_packet_pending [OF assms(1)] forget_def)
  ultimately show ?thesis
    using drain_run [OF ok, of "out_queue m"] assms(2) by (simp add: d)
qed

lemma receive_other:
  assumes "remote_ok n" "rn_shm_set n" "\<not> audio_packet d" "clock_fits (now, d)"
  shows "\<exists>n'. receive_packet now d (n, m) = Inr (n', m) \<and> reorder n' = reorder n \<and> remote_ok n' \<and> rn_shm_set n'"
  using assms
  by (auto simp: receive_packet_def audio_packet_def clock_fits_def reorder_def pending_def remote_ok_def Let_def)

lemma receive_loop_run:
  assumes "remote_ok n" "rn_shm_set n" "list_all clock_fits ds"
  shows "\<exists>n' xs. receive_loop ds (n, m) = Inr (n', m\<lparr>out_queue := push_all xs (out_queue m)\<rparr>) \<and>
    reorder_run (map snd ds) (reorder n) = (xs, reorder n') \<and> remote_ok n' \<and> rn_shm_set n'"
  using assms
proof (induction ds arbitrary: n m)
  case Nil
  then show ?case by (simp add: receive_loop_def)
next
  case (Cons a ds)
  obtain now d where a: "a = (now, d)" by fastforce
  have fits: "clock_fits (now, d)" "list_all clock_fits ds" using Cons.prems(3) a by simp_all
  show ?case
  proof (cases "audio_packet d")
    case True
    from receive_audio [OF Cons.prems(1,2) True, of now m] obtain n1 xs where
      r: "receive_packet now d (n, m) = Inr (n1, m\<lparr>out_queue := push_all xs (out_queue m)\<rparr>)"
      and st: "reorder_step (sequence_id (dg_header d)) (dg_frame d) (reorder n) = (xs, reorder n1)"
      and ok: "remote_ok n1" "rn_shm_set n1" by blast
    from Cons.IH [OF ok fits(2), of "m\<lparr>out_queue := push_all xs (out_queue m)\<rparr>"] r st True show ?thesis
      by (auto simp: a receive_loop_def)
  next
    case False
    from receive_other [OF Cons.prems(1,2) False fits(1), of m] obtain n1 where
      r: "receive_packet now d (n, m) = Inr (n1, m)" "reorder n1 = reorder n"
      and ok: "remote_ok n1" "rn_shm_set n1" by blast
    from Cons.IH [OF ok fits(2), of m] r False show ?thesis by (simp add: a receive_loop_def)
  qed
qed

section \<open>A window of packets\<close>

text \<open>
  A window: the frames \<open>F 0\<close>, \<open>F 1\<close>, and so on under the numbers from \<open>e\<close> on. Of those that have
  arrived, whose offsets are \<open>S\<close>, the ones from \<open>j\<close> on still wait.
\<close>

definition held :: "u32 \<Rightarrow> (nat \<Rightarrow> 'a) \<Rightarrow> nat set \<Rightarrow> nat \<Rightarrow> u32 \<Rightarrow> 'a option" where
  "held e F S j = (\<lambda>q. if unat (q - e) \<in> S \<and> j \<le> unat (q - e) then Some (F (unat (q - e))) else None)"

lemma unat_of_small: "j \<le> 64 \<Longrightarrow> unat (of_nat j :: u32) = j"
  by (simp only: unat_of_nat) (simp add: take_bit_nat_eq_self)

lemma unat_offset: "j \<le> 64 \<Longrightarrow> unat (e + of_nat j - e :: u32) = j"
  by (simp add: unat_of_small)

lemma offset_shift:
  assumes "j \<le> 32" "k \<le> 32"
  shows "unat (q - (e + of_nat j :: u32)) < k \<longleftrightarrow> j \<le> unat (q - e) \<and> unat (q - e) < j + k"
proof -
  define w where "w = q - e"
  have "unat (of_nat j :: u32) = j" using assms(1) by (intro unat_of_small) simp
  moreover have "unat w < 4294967296" by simp
  ultimately have "unat (w - of_nat j) < k \<longleftrightarrow> j \<le> unat w \<and> unat w < j + k"
    using assms by (auto simp: unat_sub_if')
  moreover have "q - (e + of_nat j) = w - of_nat j" by (simp add: w_def)
  ultimately show ?thesis by (simp only: w_def)
qed

lemma offer_held:
  assumes "i < 32" "j \<le> i \<or> i \<in> S" "j \<le> 32"
  shows "offer (e + of_nat i) (F i) (e + of_nat j) (held e F S j) = held e F (insert i S) j"
proof -
  have i: "unat (e + of_nat i - e) = i" by (rule unat_offset) (use assms(1) in simp)
  have w: "unat (e + of_nat i - (e + of_nat j)) < 32 \<longleftrightarrow> j \<le> i"
    using offset_shift [of j 32 "e + of_nat i" e] assms(1,3) unfolding i by simp
  have q: "q = e + of_nat i \<longleftrightarrow> unat (q - e) = i" for q
    using i by (metis from_offset)
  show ?thesis
  proof
    fix q
    show "offer (e + of_nat i) (F i) (e + of_nat j) (held e F S j) q = held e F (insert i S) j q"
    proof (cases "q = e + of_nat i")
      case True
      have h: "held e F T j q = (if i \<in> T \<and> j \<le> i then Some (F i) else None)" for T
        unfolding held_def True i by (rule refl)
      show ?thesis unfolding offer_def JITTER_WINDOW_def w using assms(2) h True by (cases "j \<le> i") (auto simp: insert_absorb)
    next
      case False
      then have "unat (q - e) \<noteq> i" using q by simp
      with False show ?thesis by (simp add: offer_def held_def)
    qed
  qed
qed

lemma ready_held:
  assumes "j \<le> i" "i \<le> j'" "{i..<j'} \<subseteq> S" "j' \<notin> S" "j' \<le> 32" "j' - i \<le> k"
  shows "ready_run k (held e F S j) (e + of_nat i) = map F [i..<j']"
  using assms
proof (induction k arbitrary: i)
  case (Suc k)
  have i: "unat (e + of_nat i - e) = i" by (rule unat_offset) (use Suc.prems in simp)
  show ?case
  proof (cases "i = j'")
    case True
    then show ?thesis using Suc.prems(4) i by (simp add: held_def)
  next
    case False
    then have "i < j'" "i \<in> S" using Suc.prems(2,3) by auto
    moreover have "ready_run k (held e F S j) (e + of_nat (Suc i)) = map F [Suc i..<j']"
      by (rule Suc.IH) (use Suc.prems \<open>i < j'\<close> in auto)
    moreover have "e + of_nat i + 1 = e + of_nat (Suc i)" by simp
    ultimately have "ready_run k (held e F S j) (e + of_nat i + 1) = map F [Suc i..<j']" by (simp only:)
    moreover have "held e F S j (e + of_nat i) = Some (F i)" using Suc.prems(1) \<open>i \<in> S\<close> i by (simp add: held_def)
    ultimately show ?thesis using \<open>i < j'\<close> by (simp add: upt_conv_Cons)
  qed
qed simp

lemma forget_held:
  assumes "j \<le> j'" "j' \<le> 32"
  shows "forget (e + of_nat j) (j' - j) (held e F S j) = held e F S j'"
proof
  fix q
  show "forget (e + of_nat j) (j' - j) (held e F S j) q = held e F S j' q"
    using offset_shift [of j "j' - j" q e] assms by (auto simp: forget_def held_def)
qed

lemma reorder_step_held:
  assumes "S \<subseteq> {..<k}" "k \<le> 32" "j \<le> k" "{..<j} \<subseteq> S" "i < k"
  shows "\<exists>j'. reorder_step (e + of_nat i) (F i) (e + of_nat j, held e F S j) =
      (map F [j..<j'], e + of_nat j', held e F (insert i S) j') \<and>
    j \<le> j' \<and> j' \<le> k \<and> {..<j'} \<subseteq> insert i S \<and> j' \<notin> insert i S"
proof -
  let ?S = "insert i S"
  define j' where "j' = (LEAST x. j \<le> x \<and> x \<notin> ?S)"
  have ex: "j \<le> k \<and> k \<notin> ?S" using assms(1,3,5) by auto
  have j': "j \<le> j'" "j' \<notin> ?S" using LeastI [of "\<lambda>x. j \<le> x \<and> x \<notin> ?S", OF ex] by (simp_all add: j'_def)
  have "j' \<le> k" unfolding j'_def by (rule Least_le) (rule ex)
  have below: "x \<in> ?S" if "j \<le> x" "x < j'" for x
    using not_less_Least [of x "\<lambda>x. j \<le> x \<and> x \<notin> ?S"] that by (auto simp: j'_def)
  have sub: "{j..<j'} \<subseteq> ?S"
  proof
    fix x
    assume "x \<in> {j..<j'}"
    then show "x \<in> ?S" using below [of x] by simp
  qed
  have le: "i < 32" "j \<le> 32" "j' \<le> 32" using assms(2,3,5) \<open>j' \<le> k\<close> by simp_all
  have o: "offer (e + of_nat i) (F i) (e + of_nat j) (held e F S j) = held e F ?S j"
  proof (rule offer_held)
    show "j \<le> i \<or> i \<in> S" using assms(4) by (cases "j \<le> i") auto
  qed (use le in simp_all)
  have r: "ready_run JITTER_WINDOW (held e F ?S j) (e + of_nat j) = map F [j..<j']"
    by (rule ready_held) (use j' sub le in \<open>simp_all add: JITTER_WINDOW_def\<close>)
  have "e + of_nat j + of_nat (j' - j) = e + of_nat j'" using j'(1) by (simp add: of_nat_diff)
  then have "reorder_step (e + of_nat i) (F i) (e + of_nat j, held e F S j) = (map F [j..<j'], e + of_nat j', held e F ?S j')"
    using forget_held [OF j'(1) le(3), of e F ?S]
    unfolding reorder_step_def Let_def prod.case o r by (simp add: forget_def)
  moreover have "{..<j'} \<subseteq> ?S" using below assms(4) by (metis insertI2 lessThan_iff not_le_imp_less subset_eq)
  ultimately show ?thesis using j' \<open>j' \<le> k\<close> by blast
qed

definition packet_offset :: "u32 \<Rightarrow> datagram \<Rightarrow> nat" where
  "packet_offset e d = unat (sequence_id (dg_header d) - e)"

definition window_packet :: "u32 \<Rightarrow> nat \<Rightarrow> (nat \<Rightarrow> dsp_audio_frame) \<Rightarrow> datagram \<Rightarrow> bool" where
  "window_packet e k F d \<longleftrightarrow> audio_packet d \<and> packet_offset e d < k \<and> dg_frame d = F (packet_offset e d)"

lemma reorder_run_window:
  assumes "list_all (window_packet e k F) ds" "k \<le> 32" "S \<subseteq> {..<k}" "j \<le> k" "{..<j} \<subseteq> S" "j \<notin> S"
  shows "\<exists>j'. reorder_run ds (e + of_nat j, held e F S j) =
      (map F [j..<j'], e + of_nat j', held e F (S \<union> packet_offset e ` set ds) j') \<and>
    j \<le> j' \<and> j' \<le> k \<and> {..<j'} \<subseteq> S \<union> packet_offset e ` set ds \<and> j' \<notin> S \<union> packet_offset e ` set ds"
  using assms
proof (induction ds arbitrary: S j)
  case Nil
  then show ?case by auto
next
  case (Cons d ds)
  let ?i = "packet_offset e d"
  have d: "audio_packet d" "?i < k" "dg_frame d = F ?i" "list_all (window_packet e k F) ds"
    using Cons.prems(1) window_packet_def [of e k F d] by simp_all
  have seq: "sequence_id (dg_header d) = e + of_nat ?i" by (simp add: packet_offset_def)
  from reorder_step_held [OF Cons.prems(3,2,4,5) d(2), of e F] obtain j1 where
    st: "reorder_step (e + of_nat ?i) (F ?i) (e + of_nat j, held e F S j) =
      (map F [j..<j1], e + of_nat j1, held e F (insert ?i S) j1)"
    and j1: "j \<le> j1" "j1 \<le> k" "{..<j1} \<subseteq> insert ?i S" "j1 \<notin> insert ?i S" by blast
  have "insert ?i S \<subseteq> {..<k}" using Cons.prems(3) d(2) by simp
  from Cons.IH [OF d(4) Cons.prems(2) this j1(2,3,4)] obtain j' where
    run: "reorder_run ds (e + of_nat j1, held e F (insert ?i S) j1) =
      (map F [j1..<j'], e + of_nat j', held e F (insert ?i S \<union> packet_offset e ` set ds) j')"
    and j': "j1 \<le> j'" "j' \<le> k" "{..<j'} \<subseteq> insert ?i S \<union> packet_offset e ` set ds"
      "j' \<notin> insert ?i S \<union> packet_offset e ` set ds" by blast
  have sets: "insert ?i S \<union> packet_offset e ` set ds = S \<union> packet_offset e ` set (d # ds)" by simp
  have "[j..<j1] @ [j1..<j'] = [j..<j']" using upt_add_eq_append [of j j1 "j' - j1"] j1(1) j'(1) by simp
  then have app: "map F [j..<j1] @ map F [j1..<j'] = map F [j..<j']" by (metis map_append)
  have "reorder_run (d # ds) (e + of_nat j, held e F S j) =
      (map F [j..<j'], e + of_nat j', held e F (S \<union> packet_offset e ` set (d # ds)) j')"
    unfolding reorder_run.simps if_P [OF d(1)] seq d(3) st Let_def prod.case run sets app by (rule refl)
  then show ?case using j1(1) j' unfolding sets by (intro exI [of _ j'] conjI) (assumption | linarith)+
qed

lemma held_empty: "held e F {} 0 = (\<lambda>q. None)"
  by (simp add: held_def)

lemma window_clock: "list_all (window_packet e k F) (map snd ds) \<Longrightarrow> list_all clock_fits ds"
  by (induction ds) (auto simp: window_packet_def audio_packet_def clock_fits_def)

lemma window_in_order:
  assumes "remote_ok n" "rn_shm_set n" "jitter_mask n = replicate JITTER_WINDOW False" "k \<le> JITTER_WINDOW"
    and "list_all (window_packet (expected_seq_id n) k F) (map snd ds)"
    and "packet_offset (expected_seq_id n) ` set (map snd ds) = {..<k}"
  shows "\<exists>n'. receive_loop ds (n, m) = Inr (n', m\<lparr>out_queue := push_all (map F [0..<k]) (out_queue m)\<rparr>) \<and>
    expected_seq_id n' = expected_seq_id n + of_nat k \<and> remote_ok n' \<and> rn_shm_set n'"
proof -
  let ?e = "expected_seq_id n"
  have "pending n = held ?e F {} 0"
    using slot_lt by (auto simp: held_empty pending_def assms(3) JITTER_WINDOW_def)
  then have r: "reorder n = (?e + of_nat 0, held ?e F {} 0)" by (simp add: reorder_def)
  have k: "k \<le> 32" using assms(4) by (simp add: JITTER_WINDOW_def)
  from reorder_run_window [OF assms(5) k, of "{}" 0] obtain j' where
    run: "reorder_run (map snd ds) (reorder n) = (map F [0..<j'], ?e + of_nat j', held ?e F (packet_offset ?e ` set (map snd ds)) j')"
    and j': "j' \<le> k" "j' \<notin> packet_offset ?e ` set (map snd ds)" unfolding r by auto
  have "j' = k" using j' unfolding assms(6) by simp
  with receive_loop_run [OF assms(1,2) window_clock [OF assms(5)], of m] run show ?thesis by (auto simp: reorder_def)
qed

section \<open>A missing packet\<close>

lemma reorder_run_missing:
  assumes "P e = None" "\<And>d. d \<in> set ds \<Longrightarrow> audio_packet d \<Longrightarrow> sequence_id (dg_header d) \<noteq> e"
  shows "\<exists>P'. reorder_run ds (e, P) = ([], e, P') \<and> P' e = None"
  using assms
proof (induction ds arbitrary: P)
  case (Cons d ds)
  show ?case
  proof (cases "audio_packet d")
    case True
    let ?P = "offer (sequence_id (dg_header d)) (dg_frame d) e P"
    have "sequence_id (dg_header d) \<noteq> e" using Cons.prems(2) [of d] True by simp
    then have none: "?P e = None" using Cons.prems(1) by (auto simp: offer_def)
    then have "ready_run JITTER_WINDOW ?P e = []" by (simp add: JITTER_WINDOW_def numeral_eq_Suc)
    then have "reorder_step (sequence_id (dg_header d)) (dg_frame d) (e, P) = ([], e, ?P)"
      by (simp add: reorder_step_def)
    with Cons.IH [of ?P] none Cons.prems(2) True show ?thesis by auto
  next
    case False
    with Cons.IH [of P] Cons.prems show ?thesis by auto
  qed
qed simp

lemma missing_stalls:
  assumes "remote_ok n" "rn_shm_set n" "list_all clock_fits ds" "pending n (expected_seq_id n) = None"
    and "\<And>d. d \<in> snd ` set ds \<Longrightarrow> audio_packet d \<Longrightarrow> sequence_id (dg_header d) \<noteq> expected_seq_id n"
  shows "\<exists>n'. receive_loop ds (n, m) = Inr (n', m) \<and> expected_seq_id n' = expected_seq_id n \<and>
    pending n' (expected_seq_id n') = None"
proof -
  have "\<exists>P'. reorder_run (map snd ds) (expected_seq_id n, pending n) = ([], expected_seq_id n, P') \<and> P' (expected_seq_id n) = None"
    by (rule reorder_run_missing) (use assms(4,5) in auto)
  with receive_loop_run [OF assms(1-3), of m] show ?thesis by (auto simp: reorder_def)
qed

section \<open>A session of the host with the accelerator\<close>

text \<open>What the host sends after \<open>init\<close>: frames and control events.\<close>

datatype host_action = Send_Frame dsp_audio_frame | Send_Control u32 f32

fun host_call :: "net_env \<Rightarrow> host_action \<Rightarrow> remote_node \<Rightarrow> remote_node outcome" where
  "host_call net (Send_Frame frame) n = (case process_stage (remote_ops net) n frame 0 of
     Inl e \<Rightarrow> Inl e | Inr (ok, frame', n') \<Rightarrow> Inr n')"
| "host_call net (Send_Control param_id v) n = apply_control_event (remote_ops net) n param_id v"

definition host_calls :: "net_env \<Rightarrow> host_action list \<Rightarrow> remote_node \<Rightarrow> remote_node outcome" where
  "host_calls net cs = for_each (host_call net) cs"

text \<open>A packet that cannot be taken for the first one the host expects.\<close>

definition harmless :: "net_packet_header \<times> net_payload \<Rightarrow> bool" where
  "harmless p \<longleftrightarrow> pkt_type (fst p) \<noteq> CLOCK_SYNC \<and> (pkt_type (fst p) = AUDIO_FRAME \<longrightarrow> sequence_id (fst p) \<noteq> 0)"

definition arrivals_of :: "(net_packet_header \<times> net_payload) list \<Rightarrow> datagram list \<Rightarrow> bool" where
  "arrivals_of ps ds \<longleftrightarrow> (\<forall>d \<in> set ds. \<exists>p old. p \<in> set ps \<and> d = arrives p old)"

lemma host_call_sends:
  "\<exists>n'. host_call net c n = Inr n' \<and> seq_id n' = seq_id n + 1 \<and> reorder n' = reorder n \<and> remote_ok n' = remote_ok n \<and>
     rn_shm_set n' = rn_shm_set n \<and> (seq_id n \<noteq> 0 \<and> list_all harmless (sent_packets n) \<longrightarrow> list_all harmless (sent_packets n'))"
  by (cases c) (auto simp: remote_ops_def remote_process_stage_def remote_apply_control_event_def send_packet_def
    reorder_def pending_def remote_ok_def harmless_def Let_def)

lemma seq_nonzero: "0 < i \<Longrightarrow> i < 2 ^ 32 \<Longrightarrow> (of_nat i :: u32) \<noteq> 0"
proof
  assume i: "0 < i" "i < 2 ^ 32" "(of_nat i :: u32) = 0"
  have "unat (of_nat i :: u32) = i" using i(2) by (simp add: unat_of_nat take_bit_nat_eq_self)
  with i(1,3) show False by simp
qed

lemma host_calls_send:
  assumes "seq_id n = of_nat i" "0 < i" "i + length cs < 2 ^ 32" "list_all harmless (sent_packets n)"
  shows "\<exists>n'. host_calls net cs n = Inr n' \<and> reorder n' = reorder n \<and> remote_ok n' = remote_ok n \<and>
    rn_shm_set n' = rn_shm_set n \<and> list_all harmless (sent_packets n')"
  using assms
proof (induction cs arbitrary: n i)
  case Nil
  then show ?case by (simp add: host_calls_def)
next
  case (Cons c cs)
  have "seq_id n \<noteq> 0" using Cons.prems(1-3) seq_nonzero [of i] by simp
  with host_call_sends [of net c n] Cons.prems(4) obtain n1 where
    n1: "host_call net c n = Inr n1" "seq_id n1 = seq_id n + 1" "reorder n1 = reorder n" "remote_ok n1 = remote_ok n"
      "rn_shm_set n1 = rn_shm_set n" "list_all harmless (sent_packets n1)" by blast
  have "seq_id n1 = of_nat (Suc i)" using n1(2) Cons.prems(1) by simp
  from Cons.IH [OF this _ _ n1(6)] Cons.prems(3) n1 show ?case by (auto simp: host_calls_def)
qed

lemma arrives_header [simp]: "dg_header (arrives p old) = fst p"
  by (simp add: arrives_def)

lemma server_step_harmless:
  assumes "server_step ops addr (now, arrives p old) (node, replies) = Inr (node', replies')" "harmless p"
    "list_all harmless replies"
  shows "list_all harmless replies'"
  using assms by (auto simp: server_step_def harmless_def Let_def split: if_splits sum.splits)

lemma server_replies_harmless:
  assumes "server_start ops addr bind_ok ds node = Inr (node', replies)" "arrivals_of ps (map snd ds)" "list_all harmless ps"
  shows "list_all harmless replies"
proof (cases bind_ok)
  case False
  with assms(1) show ?thesis by (simp add: server_start_def)
next
  case True
  then have "for_each (server_step ops addr) ds (node, []) = Inr (node', replies)"
    using assms(1) by (simp add: server_start_def)
  then have "list_all harmless (snd (node', replies))"
  proof (rule for_each_inv)
    fix x s s'
    assume x: "x \<in> set ds" "list_all harmless (snd s)" "server_step ops addr x s = Inr s'"
    obtain now d nd rs nd' rs' where s: "x = (now, d)" "s = (nd, rs)" "s' = (nd', rs')" by (metis surj_pair)
    obtain p old where p: "p \<in> set ps" "d = arrives p old" using assms(2) x(1) s(1) by (force simp: arrivals_of_def)
    have "harmless p" using p(1) assms(3) by (simp add: list_all_iff)
    from server_step_harmless [OF _ this, of ops addr now old nd rs nd' rs'] x s p show "list_all harmless (snd s')" by simp
  qed simp
  then show ?thesis by simp
qed

lemma remote_session:
  assumes "0 \<le> fd" "ptr \<noteq> 0" "Suc (length cs) < 2 ^ 32"
    and "n = snd (node_init (remote_ops net) device_index (set_shm_ptr (remote_ops net) (new_remote fd rate) ptr))"
    and "host_calls net cs n = Inr n'"
    and "arrivals_of (sent_packets n') (map snd requests)"
    and "server_start ops addr bind_ok requests node = Inr (node', replies)"
    and "arrivals_of replies (map snd ds)"
  shows "\<exists>n''. receive_loop ds (n', m) = Inr (n'', m)"
proof -
  have n: "seq_id n = of_nat 1" "list_all harmless (sent_packets n)" "remote_ok n" "rn_shm_set n"
    "reorder n = (0, \<lambda>q. None)"
    using assms(1,2) slot_lt
    by (auto simp: assms(4) remote_ops_def remote_init_def new_remote_def send_packet_def harmless_def remote_ok_def
      reorder_def pending_def JITTER_WINDOW_def Let_def)
  from host_calls_send [OF n(1) _ _ n(2), of cs net] assms(3,5) n(3-5)
  have n': "reorder n' = (0, \<lambda>q. None)" "remote_ok n'" "rn_shm_set n'" "list_all harmless (sent_packets n')" by auto
  have "list_all harmless replies" by (rule server_replies_harmless [OF assms(7,6) n'(4)])
  then have h: "harmless (dg_header d, No_Payload)" if "d \<in> snd ` set ds" for d
    using assms(8) that by (fastforce simp: arrivals_of_def list_all_iff harmless_def)
  have e: "expected_seq_id n' = 0" "pending n' 0 = None" using n'(1) by (simp_all add: reorder_def)
  have "list_all clock_fits ds" using h by (force simp: list_all_iff clock_fits_def harmless_def)
  from missing_stalls [OF n'(2,3) this, of m] e h show ?thesis by (fastforce simp: audio_packet_def harmless_def)
qed

section \<open>The properties\<close>

definition demo_header :: "u32 \<Rightarrow> net_packet_header" where
  "demo_header s = \<lparr>magic = MAGIC, pkt_type = AUDIO_FRAME, sequence_id = s, payload_size = 0, pkt_timestamp_ns = 0,
     sample_rate = 48000, pkt_reserved = 0\<rparr>"

definition demo_frame :: "nat \<Rightarrow> dsp_audio_frame" where
  "demo_frame i = frame_zero\<lparr>timestamp_ns := of_nat i\<rparr>"

definition demo_arrival :: "nat \<Rightarrow> int \<times> datagram" where
  "demo_arrival i = (0, arrives (demo_header (of_nat i), Audio_Payload (demo_frame i)) frame_zero)"

definition demo_remote :: remote_node where
  "demo_remote = (new_remote 3 48000)\<lparr>rn_shm_set := True\<rparr>"

lemma demo_remote_facts [simp]:
  "remote_ok demo_remote" "rn_shm_set demo_remote" "jitter_mask demo_remote = replicate JITTER_WINDOW False"
  "expected_seq_id demo_remote = 0"
  by (simp_all add: demo_remote_def new_remote_def remote_ok_def)

lemma demo_arrival_facts [simp]:
  "clock_fits (demo_arrival i)" "audio_packet (snd (demo_arrival i))" "dg_frame (snd (demo_arrival i)) = demo_frame i"
  "sequence_id (dg_header (snd (demo_arrival i))) = of_nat i"
  by (simp_all add: demo_arrival_def clock_fits_def audio_packet_def arrives_def demo_header_def HEADER_SIZE_def)

text \<open>
  C14: the receiving thread of \<open>RemoteDspNode\<close>, with its array of 32 slots, its flags and the signed
  comparison of 32-bit numbers that wrap, implements a map from sequence numbers to frames: over any
  datagrams it pushes to the output queue exactly the frames the map delivers, in that order, and its
  slots, flags and expected number represent the map afterwards.
\<close>

theorem receiver_refines_reordering:
  assumes "remote_ok n" "rn_shm_set n" "list_all clock_fits ds"
  shows "\<exists>n' xs. receive_loop ds (n, m) = Inr (n', m\<lparr>out_queue := push_all xs (out_queue m)\<rparr>) \<and>
    reorder_run (map snd ds) (reorder n) = (xs, reorder n') \<and> remote_ok n'"
  using receive_loop_run [OF assms, of m] by blast

theorem receiver_refines_reordering_witness:
  "\<exists>n' xs. receive_loop [demo_arrival 1, demo_arrival 0] (demo_remote, shm_zero) =
      Inr (n', shm_zero\<lparr>out_queue := push_all xs (out_queue shm_zero)\<rparr>) \<and>
    reorder_run (map snd [demo_arrival 1, demo_arrival 0]) (reorder demo_remote) = (xs, reorder n') \<and> remote_ok n'"
  by (rule receiver_refines_reordering) simp_all

text \<open>
  C34: the loop that drains the jitter buffer ends: it makes as many passes as frames are ready, at most
  32, pushes one frame in each, moves the expected number past them, and its condition is false
  afterwards.
\<close>

theorem drain_terminates_within_window:
  assumes "remote_ok n"
  shows "\<exists>xs n'. drain_ready n q = (n', push_all xs q) \<and> length xs \<le> JITTER_WINDOW \<and>
    expected_seq_id n' = expected_seq_id n + of_nat (length xs) \<and>
    \<not> jitter_mask n' ! unat (expected_seq_id n' mod 32)"
  using drain_run [OF assms, of q] drain_stops [OF assms, of q] ready_run_le by (metis prod.collapse)

theorem drain_terminates_within_window_witness:
  "\<exists>xs n'. drain_ready (store_packet 0 (demo_frame 0) demo_remote) (new_ring 4 frame_zero) = (n', push_all xs (new_ring 4 frame_zero)) \<and>
    length xs \<le> JITTER_WINDOW \<and>
    expected_seq_id n' = expected_seq_id (store_packet 0 (demo_frame 0) demo_remote) + of_nat (length xs) \<and>
    \<not> jitter_mask n' ! unat (expected_seq_id n' mod 32)"
  by (rule drain_terminates_within_window) simp

text \<open>
  C15: packets of a window of at most 32 numbers that all arrive, in any order and with any repetitions,
  are delivered in the order of their numbers: the output queue receives the frames \<open>F 0\<close> to \<open>F (k - 1)\<close>,
  each once, as far as it has room, also where the numbers wrap around.
\<close>

theorem window_delivered_in_order:
  assumes "remote_ok n" "rn_shm_set n" "jitter_mask n = replicate JITTER_WINDOW False" "k \<le> JITTER_WINDOW"
    and "list_all (window_packet (expected_seq_id n) k F) (map snd ds)"
    and "packet_offset (expected_seq_id n) ` set (map snd ds) = {..<k}"
    and "ring_wf (out_queue m)"
  shows "\<exists>n' m'. receive_loop ds (n, m) = Inr (n', m') \<and> expected_seq_id n' = expected_seq_id n + of_nat k \<and>
    items (out_queue m') = items (out_queue m) @
      take (ring_room (out_queue m) - length (items (out_queue m))) (map F [0..<k])"
  using window_in_order [OF assms(1-6), of m] push_all_items [OF assms(7), of "map F [0..<k]"] by auto

theorem window_delivered_in_order_witness:
  "\<exists>n' m'. receive_loop [demo_arrival 2, demo_arrival 1, demo_arrival 2, demo_arrival 0] (demo_remote, shm_zero) =
      Inr (n', m') \<and> expected_seq_id n' = expected_seq_id demo_remote + of_nat 3 \<and>
    items (out_queue m') = items (out_queue shm_zero) @
      take (ring_room (out_queue shm_zero) - length (items (out_queue shm_zero))) (map demo_frame [0..<3])"
proof (rule window_delivered_in_order)
  show "ring_wf (out_queue shm_zero)" by (simp add: shm_zero_def IPC_QUEUE_DEPTH_def)
qed (auto simp: window_packet_def packet_offset_def JITTER_WINDOW_def)

text \<open>
  A session delivers nothing. The packet that \<open>init\<close> sends takes sequence number 0, so after it every
  frame and control event has another number, the accelerator answers the handshake with a packet the
  host does not count, and the host waits for the frame with number 0: whatever of the answers arrives,
  in whatever order, the output queue stays as it is (for fewer than \<open>2 ^ 32 - 1\<close> packets).
\<close>

theorem remote_session_delivers_nothing:
  assumes "0 \<le> fd" "ptr \<noteq> 0" "Suc (length cs) < 2 ^ 32"
    and "n = snd (node_init (remote_ops net) device_index (set_shm_ptr (remote_ops net) (new_remote fd rate) ptr))"
    and "host_calls net cs n = Inr n'"
    and "arrivals_of (sent_packets n') (map snd requests)"
    and "server_start ops addr bind_ok requests node = Inr (node', replies)"
    and "arrivals_of replies (map snd ds)"
  shows "\<exists>n''. receive_loop ds (n', m) = Inr (n'', m)"
  by (rule remote_session [OF assms])

definition demo_net :: net_env where
  "demo_net = \<lparr>send_result = (\<lambda>s. True), send_time = (\<lambda>s. 0)\<rparr>"

definition demo_opened :: remote_node where
  "demo_opened = snd (node_init (remote_ops demo_net) 0 (set_shm_ptr (remote_ops demo_net) (new_remote 3 48000) 1))"

definition demo_called :: remote_node where
  "demo_called = (case host_calls demo_net [Send_Frame (demo_frame 0)] demo_opened of Inr n \<Rightarrow> n | Inl e \<Rightarrow> demo_opened)"

definition demo_requests :: "(u64 \<times> datagram) list" where
  "demo_requests = map (\<lambda>p. (0, arrives p frame_zero)) (sent_packets demo_called)"

definition demo_replies :: "(net_packet_header \<times> net_payload) list" where
  "demo_replies = (case server_start npu_ops 0 True demo_requests new_npu_backend of Inr (nd, rs) \<Rightarrow> rs | Inl e \<Rightarrow> [])"

theorem remote_session_delivers_nothing_witness:
  "length demo_replies = 2 \<and>
    (\<exists>n''. receive_loop (map (\<lambda>p. (0, arrives p frame_zero)) demo_replies) (demo_called, shm_zero) = Inr (n'', shm_zero))"
proof -
  note defs = demo_called_def demo_opened_def remote_ops_def remote_init_def new_remote_def send_packet_def demo_net_def
    host_calls_def remote_process_stage_def
  have c: "host_calls demo_net [Send_Frame (demo_frame 0)] demo_opened = Inr demo_called"
    by (simp add: defs)
  have sent: "sent_packets demo_called =
      [(\<lparr>magic = MAGIC, pkt_type = HANDSHAKE, sequence_id = 0, payload_size = 0, pkt_timestamp_ns = 0,
         sample_rate = 48000, pkt_reserved = 0\<rparr>, No_Payload),
       (\<lparr>magic = MAGIC, pkt_type = AUDIO_FRAME, sequence_id = 1, payload_size = of_nat (c_size layout_DspAudioFrame),
         pkt_timestamp_ns = 0, sample_rate = 48000, pkt_reserved = 0\<rparr>, Audio_Payload (demo_frame 0))]"
    by (simp add: defs size_of_payload_def)
  obtain rs where rs: "server_start npu_ops 0 True demo_requests new_npu_backend = Inr (new_npu_backend, rs)" "length rs = 2"
    by (simp add: demo_requests_def sent server_start_def server_step_def arrives_def npu_ops_def)
  have r: "demo_replies = rs" by (simp add: demo_replies_def rs)
  have "\<exists>n''. receive_loop (map (\<lambda>p. (0, arrives p frame_zero)) demo_replies) (demo_called, shm_zero) = Inr (n'', shm_zero)"
    by (rule remote_session_delivers_nothing
        [OF _ _ _ demo_opened_def c _ rs(1), where ds = "map (\<lambda>p. (0, arrives p frame_zero)) demo_replies"])
      (force simp: arrivals_of_def demo_requests_def r)+
  then show ?thesis using rs(2) r by simp
qed

end
