(* ===== verification/Remote_Net.thy ===== *)
theory Remote_Net
  imports Remote_Spec
begin

text \<open>
  The host, the network and the accelerator running at the same time: calls of the host, datagrams that
  arrive late, twice, out of order or never at either end, and the processes of the host's machine that
  use the shared memory meanwhile, as one step relation.
\<close>

section \<open>The system\<close>

text \<open>The packets a side has sent stay in the network and may arrive at any time, any number of times.\<close>

record 'n network =
  nw_host :: remote_node
  nw_mem :: dsp_shared_memory
  nw_server :: 'n
  nw_replies :: "(net_packet_header \<times> net_payload) list"
  nw_calls :: nat

definition network_start :: "net_env \<Rightarrow> int \<Rightarrow> u32 \<Rightarrow> u64 \<Rightarrow> int \<Rightarrow> dsp_shared_memory \<Rightarrow> 'n \<Rightarrow> 'n network" where
  "network_start net fd rate ptr device_index m node =
     \<lparr>nw_host = snd (node_init (remote_ops net) device_index (set_shm_ptr (remote_ops net) (new_remote fd rate) ptr)),
      nw_mem = m, nw_server = node, nw_replies = [], nw_calls = 0\<rparr>"

inductive network_step :: "'n node_ops \<Rightarrow> net_env \<Rightarrow> 'n network \<Rightarrow> 'n network \<Rightarrow> bool" for ops net where
  Host_Call: "host_call net c (nw_host s) = Inr h \<Longrightarrow>
    network_step ops net s (s\<lparr>nw_host := h, nw_calls := Suc (nw_calls s)\<rparr>)"
| Host_Receive: "p \<in> set (nw_replies s) \<Longrightarrow> receive_packet now (arrives p old) (nw_host s, nw_mem s) = Inr (h, m) \<Longrightarrow>
    network_step ops net s (s\<lparr>nw_host := h, nw_mem := m\<rparr>)"
| Server_Receive: "p \<in> set (sent_packets (nw_host s)) \<Longrightarrow>
    server_step ops addr (now, arrives p old) (nw_server s, nw_replies s) = Inr (node, replies) \<Longrightarrow>
    network_step ops net s (s\<lparr>nw_server := node, nw_replies := replies\<rparr>)"
| Others: "network_step ops net s (s\<lparr>nw_mem := m\<rparr>)"

section \<open>The invariant\<close>

text \<open>
  The host waits for the frame with number 0, and no packet that is or ever was under way can be taken
  for it.
\<close>

definition waiting :: "'n network \<Rightarrow> bool" where
  "waiting s \<longleftrightarrow> seq_id (nw_host s) = of_nat (Suc (nw_calls s)) \<and> list_all harmless (sent_packets (nw_host s)) \<and>
     list_all harmless (nw_replies s) \<and> remote_ok (nw_host s) \<and> rn_shm_set (nw_host s) \<and>
     expected_seq_id (nw_host s) = 0 \<and> pending (nw_host s) 0 = None"

lemma drain_ready_rest:
  "seq_id (fst (drain_ready n q)) = seq_id n \<and> sent_packets (fst (drain_ready n q)) = sent_packets n \<and>
   rn_shm_set (fst (drain_ready n q)) = rn_shm_set n"
proof (induction n q rule: drain_ready.induct)
  case (1 n q)
  then show ?case by (subst (1 2 3) drain_ready.simps) (simp add: Let_def)
qed

lemma receive_packet_rest:
  assumes "receive_packet now d (n, m) = Inr (n', m')"
  shows "seq_id n' = seq_id n" "sent_packets n' = sent_packets n" "rn_shm_set n' = rn_shm_set n"
  using assms drain_ready_rest [of "store_packet (sequence_id (dg_header d)) (dg_frame d) n" "out_queue m"]
  by (auto simp: receive_packet_def store_packet_def Let_def split: if_splits prod.splits)

lemma waiting_start:
  "0 \<le> fd \<Longrightarrow> ptr \<noteq> 0 \<Longrightarrow> waiting (network_start net fd rate ptr device_index m node)"
  by (auto simp: waiting_def network_start_def remote_ops_def remote_init_def new_remote_def send_packet_def harmless_def
      remote_ok_def pending_def JITTER_WINDOW_def Let_def)

text \<open>A reply that arrives is kept back: the memory stays as it is.\<close>

lemma waiting_receive:
  assumes "waiting s" "p \<in> set (nw_replies s)"
  shows "\<exists>h. receive_packet now (arrives p old) (nw_host s, nw_mem s) = Inr (h, nw_mem s) \<and> waiting (s\<lparr>nw_host := h\<rparr>)"
proof -
  let ?n = "nw_host s" and ?d = "arrives p old"
  have p: "harmless p" using assms by (simp add: waiting_def list_all_iff)
  have n: "remote_ok ?n" "rn_shm_set ?n" "expected_seq_id ?n = 0" "pending ?n (expected_seq_id ?n) = None"
    using assms(1) by (simp_all add: waiting_def)
  have c: "list_all clock_fits [(now, ?d)]" using p by (simp add: clock_fits_def harmless_def)
  have a: "sequence_id (dg_header d) \<noteq> expected_seq_id ?n" if "d \<in> snd ` set [(now, ?d)]" "audio_packet d" for d
    using that p n(3) by (simp add: audio_packet_def harmless_def)
  from missing_stalls [OF n(1,2) c n(4) a, of "nw_mem s"] obtain h where
    h: "receive_loop [(now, ?d)] (?n, nw_mem s) = Inr (h, nw_mem s)" "expected_seq_id h = 0" "pending h (expected_seq_id h) = None"
    by (auto simp: n(3))
  then have r: "receive_packet now ?d (?n, nw_mem s) = Inr (h, nw_mem s)" by (auto simp: receive_loop_def split: sum.splits)
  from receive_loop_run [OF n(1,2) c, of "nw_mem s"] h(1) have "remote_ok h" by auto
  with r h(2,3) receive_packet_rest [OF r] assms(1) show ?thesis by (simp add: waiting_def)
qed

lemma waiting_step:
  "network_step ops net s s' \<Longrightarrow> waiting s \<Longrightarrow> Suc (nw_calls s) < 2 ^ 32 \<Longrightarrow> waiting s'"
proof (induction rule: network_step.induct)
  case (Host_Call c s h)
  from host_call_sends [of net c "nw_host s"] Host_Call.hyps have
    h: "seq_id h = seq_id (nw_host s) + 1" "reorder h = reorder (nw_host s)" "remote_ok h = remote_ok (nw_host s)"
      "rn_shm_set h = rn_shm_set (nw_host s)"
      "seq_id (nw_host s) \<noteq> 0 \<and> list_all harmless (sent_packets (nw_host s)) \<longrightarrow> list_all harmless (sent_packets h)"
    by auto
  have "seq_id (nw_host s) \<noteq> 0" using Host_Call.prems seq_nonzero [of "Suc (nw_calls s)"] unfolding waiting_def by simp
  with h Host_Call.prems(1) show ?case by (auto simp: waiting_def reorder_def)
next
  case (Host_Receive p s now old h m)
  from waiting_receive [OF Host_Receive.prems(1) Host_Receive.hyps(1), of now old] Host_Receive.hyps(2) Host_Receive.prems(1)
  show ?case by (auto simp: waiting_def)
next
  case (Server_Receive p s addr now old node replies)
  have "harmless p" using Server_Receive by (simp add: waiting_def list_all_iff)
  from server_step_harmless [OF Server_Receive.hyps(2) this] Server_Receive.prems(1) show ?case by (simp add: waiting_def)
next
  case (Others s m)
  then show ?case by (simp add: waiting_def)
qed

lemma calls_increase: "network_step ops net s s' \<Longrightarrow> nw_calls s \<le> nw_calls s'"
  by (induction rule: network_step.induct) simp_all

lemma waiting_run:
  "(network_step ops net)\<^sup>*\<^sup>* s s' \<Longrightarrow> waiting s \<Longrightarrow> Suc (nw_calls s') < 2 ^ 32 \<Longrightarrow> waiting s'"
proof (induction rule: rtranclp_induct)
  case (step s1 s2)
  with calls_increase [OF step.hyps(2)] waiting_step [OF step.hyps(2)] show ?case by simp
qed simp

section \<open>No answer is delivered\<close>

text \<open>
  C16: Nothing the accelerator answers is ever delivered, however the calls of the host, the accelerator and
  the network interleave and whatever the local node of the accelerator computes: the packet that \<open>init\<close>
  sends takes sequence number 0, the accelerator answers it with a packet the host does not count, and
  every frame and control event has a later number. In every reachable state (for fewer than \<open>2 ^ 32 - 1\<close>
  calls) the arrival of any reply leaves the shared memory, and so the plugin's output queue, as it is,
  and the host waits for number 0 still.
\<close>

theorem network_never_delivers:
  assumes "0 \<le> fd" "ptr \<noteq> 0" "(network_step ops net)\<^sup>*\<^sup>* (network_start net fd rate ptr device_index m node) s"
    and "Suc (nw_calls s) < 2 ^ 32" "p \<in> set (nw_replies s)"
  shows "\<exists>h. receive_packet now (arrives p old) (nw_host s, nw_mem s) = Inr (h, nw_mem s) \<and> expected_seq_id h = 0"
  using waiting_receive [OF waiting_run [OF assms(3) waiting_start [OF assms(1,2)] assms(4)] assms(5), of now old]
  by (auto simp: waiting_def)

text \<open>A session with a frame that is processed, answered and kept back.\<close>

definition demo_network :: "npu_backend network" where
  "demo_network = network_start demo_net 3 48000 1 0 shm_zero new_npu_backend"

definition demo_sent :: "net_packet_header \<times> net_payload" where
  "demo_sent = (\<lparr>magic = MAGIC, pkt_type = AUDIO_FRAME, sequence_id = 1, payload_size = of_nat (c_size layout_DspAudioFrame),
     pkt_timestamp_ns = 0, sample_rate = 48000, pkt_reserved = 0\<rparr>, Audio_Payload (demo_frame 0))"

theorem network_never_delivers_witness:
  "\<exists>s p h. (network_step npu_ops demo_net)\<^sup>*\<^sup>* demo_network s \<and> pkt_type (fst p) = AUDIO_FRAME \<and> p \<in> set (nw_replies s) \<and>
     receive_packet 0 (arrives p frame_zero) (nw_host s, nw_mem s) = Inr (h, nw_mem s)"
proof -
  note defs = demo_network_def network_start_def remote_ops_def remote_init_def new_remote_def send_packet_def demo_net_def
    remote_process_stage_def demo_sent_def size_of_payload_def
  obtain h where h: "host_call demo_net (Send_Frame (demo_frame 0)) (nw_host demo_network) = Inr h" "demo_sent \<in> set (sent_packets h)"
    by (simp add: defs)
  let ?s1 = "demo_network\<lparr>nw_host := h, nw_calls := Suc (nw_calls demo_network)\<rparr>"
  obtain r where r: "server_step npu_ops 0 (0, arrives demo_sent frame_zero) (nw_server ?s1, nw_replies ?s1) = Inr (new_npu_backend, [r])"
    "pkt_type (fst r) = AUDIO_FRAME"
    by (simp add: demo_sent_def server_step_def arrives_def npu_ops_def demo_network_def network_start_def size_of_payload_def)
  let ?s2 = "?s1\<lparr>nw_server := new_npu_backend, nw_replies := [r]\<rparr>"
  have sent: "demo_sent \<in> set (sent_packets (nw_host ?s1))" using h(2) by simp
  have run: "(network_step npu_ops demo_net)\<^sup>*\<^sup>* demo_network ?s2"
    using network_step.Host_Call [OF h(1), of npu_ops] network_step.Server_Receive [OF sent r(1), of demo_net]
    by (meson rtranclp.rtrancl_into_rtrancl rtranclp.rtrancl_refl)
  have c: "Suc (nw_calls ?s2) < 2 ^ 32" "r \<in> set (nw_replies ?s2)" by (simp_all add: demo_network_def network_start_def)
  from network_never_delivers [OF _ _ run [unfolded demo_network_def] _ _, of r 0 frame_zero, folded demo_network_def, OF _ _ c] run r(2) c(2)
  show ?thesis by fastforce
qed

end
