(* ===== verification/Sdk_Api.thy ===== *)
theory Sdk_Api
  imports Sdk_Spec
begin

text \<open>
  The interface \<open>sdk/include/dsp_accel_sdk.h\<close> as its clients use it: the operations as a record, the
  contract both libraries keep as the locale \<open>sdk_interface\<close>, and its instance for the C++ library.
  The environment of a call, what the system and the clock answer, has the type \<open>'e\<close>.
\<close>

record ('e, 'c) sdk_api =
  api_connect :: "'e \<Rightarrow> DspWorkloadType \<Rightarrow> f32 \<Rightarrow> dsp_shared_memory \<Rightarrow> 'c option outcome"
  api_disconnect :: "'c \<Rightarrow> int list"
  api_dispatch :: "'e \<Rightarrow> 'c \<Rightarrow> f32 list list \<Rightarrow> int \<Rightarrow> int \<Rightarrow> dsp_shared_memory \<Rightarrow> (bool \<times> 'c \<times> dsp_shared_memory) outcome"
  api_read_output :: "'e \<Rightarrow> 'c \<Rightarrow> f32 list list \<Rightarrow> int \<Rightarrow> int \<Rightarrow> dsp_shared_memory
    \<Rightarrow> (bool \<times> f32 list list \<times> 'c \<times> dsp_shared_memory) outcome"

section \<open>The contract\<close>

text \<open>The frame that carries a caller's block, and the buffers that have received \<open>n\<close> samples of each channel of a frame.\<close>

definition carries :: "f32 list list \<Rightarrow> int \<Rightarrow> int \<Rightarrow> dsp_audio_frame \<Rightarrow> bool" where
  "carries buffers frames channels f \<longleftrightarrow> frame_bounded f \<and> int (unat (frame_count f)) = frames \<and>
     int (unat (channel_count f)) = channels \<and>
     (\<forall>ch < nat channels. channel_block (samples f) ch (nat frames) = take (nat frames) (buffers ! ch))"

definition delivers :: "nat \<Rightarrow> dsp_audio_frame \<Rightarrow> int \<Rightarrow> f32 list list \<Rightarrow> bool" where
  "delivers n f channels buffers \<longleftrightarrow> (\<forall>ch < min (unat (channel_count f)) (nat channels).
     n \<le> length (buffers ! ch) \<and> take n (buffers ! ch) = channel_block (samples f) ch n)"

text \<open>A call with counts within a frame and buffers that hold that much.\<close>

definition block_call :: "f32 list list \<Rightarrow> int \<Rightarrow> int \<Rightarrow> bool" where
  "block_call buffers frames channels \<longleftrightarrow> 0 \<le> frames \<and> frames \<le> 256 \<and> 0 \<le> channels \<and> channels \<le> 8 \<and>
     nat channels \<le> length buffers \<and> (\<forall>ch < nat channels. nat frames \<le> length (buffers ! ch))"

text \<open>
  A read-back overruns when it copies more samples of the oldest processed block than a buffer of the
  caller holds; \<open>copied frames f\<close> is how many samples of block \<open>f\<close> are copied when the caller asks for \<open>frames\<close>.
\<close>

definition read_overruns :: "(int \<Rightarrow> dsp_audio_frame \<Rightarrow> nat) \<Rightarrow> f32 list list \<Rightarrow> int \<Rightarrow> int \<Rightarrow> dsp_shared_memory \<Rightarrow> bool" where
  "read_overruns copied buffers frames channels m \<longleftrightarrow> (case items (out_queue m) of [] \<Rightarrow> False
     | f # fs \<Rightarrow> \<exists>ch < min (unat (channel_count f)) (nat channels). length (buffers ! ch) < copied frames f)"

text \<open>Using a context neither opens nor closes descriptors.\<close>

locale sdk_interface =
  fixes api :: "('e, 'c) sdk_api"
    and env_ok :: "'e \<Rightarrow> bool"
    and ok :: "'c \<Rightarrow> dsp_shared_memory \<Rightarrow> bool"
    and copied :: "int \<Rightarrow> dsp_audio_frame \<Rightarrow> nat"
  assumes connect_law: "\<lbrakk>shm_wf m; api_connect api e ty cost m = Inr (Some c)\<rbrakk> \<Longrightarrow> ok c m"
    and wf_law: "ok c m \<Longrightarrow> shm_wf m"
    and dispatch_law: "\<lbrakk>ok c m; env_ok e; block_call buffers frames channels\<rbrakk> \<Longrightarrow>
      \<exists>b c' m'. api_dispatch api e c buffers frames channels m = Inr (b, c', m') \<and> ok c' m' \<and> out_queue m' = out_queue m \<and>
        (b \<longrightarrow> (\<exists>f. items (in_queue m') = items (in_queue m) @ [f] \<and> carries buffers frames channels f))"
    and read_law: "\<lbrakk>ok c m; env_ok e; block_call buffers frames channels; queue_bounded (out_queue m)\<rbrakk> \<Longrightarrow>
      (\<exists>b buffers' c' m'. api_read_output api e c buffers frames channels m = Inr (b, buffers', c', m') \<and> ok c' m' \<and> in_queue m' = in_queue m \<and>
        map length buffers' = map length buffers \<and>
        (if b then (\<exists>f. items (out_queue m) = f # items (out_queue m') \<and> delivers (copied frames f) f channels buffers')
         else buffers' = buffers \<and> items (out_queue m') = items (out_queue m))) \<or>
      api_read_output api e c buffers frames channels m = Inl Out_Of_Bounds \<and> read_overruns copied buffers frames channels m"
    and dispatch_fds: "api_dispatch api e c buffers frames channels m = Inr (b, c', m') \<Longrightarrow> api_disconnect api c' = api_disconnect api c"
    and read_fds: "api_read_output api e c buffers frames channels m = Inr (b, buffers', c', m') \<Longrightarrow>
      api_disconnect api c' = api_disconnect api c"

section \<open>The C++ library\<close>

record cpp_env =
  ce_linux :: bool
  ce_connect :: connect_env
  ce_dispatch :: dispatch_env
  ce_readback :: readback_env

definition cpp_api :: "(cpp_env, sdk_ctx) sdk_api" where
  "cpp_api = \<lparr>api_connect = (\<lambda>e ty cost m. case sdk_connect (ce_linux e) (ce_connect e) ty cost m of
       Inl err \<Rightarrow> Inl err | Inr (ctx, fds) \<Rightarrow> Inr ctx),
     api_disconnect = (\<lambda>c. fst (sdk_disconnect (Some c))),
     api_dispatch = (\<lambda>e c buffers frames channels m.
       case sdk_dispatch (ce_linux e) (ce_dispatch e) (Some c) buffers frames channels m of
         Inl err \<Rightarrow> Inl err
       | Inr (b, ctx, m', sent) \<Rightarrow> (case ctx of None \<Rightarrow> Inl Null_Deref | Some c' \<Rightarrow> Inr (b, c', m'))),
     api_read_output = (\<lambda>e c buffers frames channels m.
       case sdk_read_output (ce_linux e) (ce_readback e) (Some c) buffers frames channels m of
         Inl err \<Rightarrow> Inl err
       | Inr (b, buffers', ctx, m') \<Rightarrow> (case ctx of None \<Rightarrow> Inl Null_Deref | Some c' \<Rightarrow> Inr (b, buffers', c', m')))\<rparr>"

definition cpp_ok :: "sdk_ctx \<Rightarrow> dsp_shared_memory \<Rightarrow> bool" where
  "cpp_ok c m \<longleftrightarrow> shm_wf m \<and> (cx_shm c \<longrightarrow> unat (cx_worker_id c) < 8)"

lemma block_call_ok: "block_call buffers frames channels \<Longrightarrow> call_ok buffers frames channels"
  by (auto simp: block_call_def call_ok_def clamp_frames_def clamp_channels_def list_all_length)

lemma cpp_ctx: "cpp_ok c m \<Longrightarrow> cx_shm c \<Longrightarrow> ctx_ok c m"
  by (simp add: cpp_ok_def ctx_ok_def)

lemma block_carries:
  assumes "block_of now buffers frames channels f" "block_call buffers frames channels"
  shows "carries buffers frames channels f"
proof -
  have "clamp_frames frames = nat frames" "clamp_channels channels = nat channels"
    using assms(2) by (auto simp: block_call_def clamp_frames_def clamp_channels_def)
  with assms show ?thesis by (simp add: block_of_def carries_def block_call_def)
qed

lemma cpp_connect_ok:
  assumes "shm_wf m" "sdk_connect linux e ty cost m = Inr (Some c, fds)"
  shows "cpp_ok c m"
proof -
  obtain m1 m2 m3 where f: "fd_messages e = (m1, m2, m3)" by (cases "fd_messages e")
  have w: "length (workers m) = 8" using assms(1) by (simp add: shm_wf_def)
  have "unat w < 8" if "control_block m (uint w) = Inr b" for w :: u32 and b
  proof -
    have "uint w < 8" using that w by (simp add: control_block_ok)
    with nat_less_iff [of "uint w" 8] show ?thesis by (simp only: unat_eq_nat_uint of_nat_numeral uint_ge_0 simp_thms)
  qed
  then show ?thesis using assms f
    by (auto simp: sdk_connect_def cpp_ok_def new_ctx_def close_all_eq Let_def split: if_splits option.splits sum.splits)
qed

lemma cpp_dispatch_ok:
  assumes "cpp_ok c m" "block_call buffers frames channels"
  shows "\<exists>b c' m' sent. sdk_dispatch linux env (Some c) buffers frames channels m = Inr (b, Some c', m', sent) \<and> cpp_ok c' m' \<and>
    out_queue m' = out_queue m \<and> (b \<longrightarrow> (\<exists>f. items (in_queue m') = items (in_queue m) @ [f] \<and> carries buffers frames channels f))"
proof (cases "cx_shm c \<and> linux")
  case False
  then show ?thesis using assms(1) by (auto simp: sdk_dispatch_def)
next
  case True
  then have ctx: "ctx_ok c m" "cx_shm c" using cpp_ctx [OF assms(1)] by simp_all
  let ?c1 = "watchdog (heartbeat (ctx_block c m)) c"
  consider (err) "last_error (ctx_block c m) \<noteq> NO_ERROR"
    | (stalled) "last_error (ctx_block c m) = NO_ERROR" "10 < heartbeat_stalled_count ?c1"
    | (healthy) "last_error (ctx_block c m) = NO_ERROR" "\<not> 10 < heartbeat_stalled_count ?c1" by blast
  then show ?thesis
  proof cases
    case err
    then show ?thesis using True assms(1) ctx_control_block [OF ctx(1)] by (auto simp: sdk_dispatch_def)
  next
    case stalled
    then show ?thesis using True assms(1) dispatch_refused [OF ctx(1) stalled(2,1), of env buffers frames channels]
      by (auto simp: cpp_ok_def)
  next
    case healthy
    from dispatch_step [OF ctx(1) healthy(1) block_call_ok [OF assms(2)] healthy(2), of env] obtain b c' m' sent where
      d: "sdk_dispatch True env (Some c) buffers frames channels m = Inr (b, Some c', m', sent)"
      and m': "shm_wf m'" "m'\<lparr>in_queue := in_queue m\<rparr> = m" "b = (sent = 1)"
      and it: "if length (items (in_queue m)) = 15 then m' = m \<and> sent = 0 \<and> xrun_count c' = xrun_count c + 1
        else (\<exists>f. items (in_queue m') = items (in_queue m) @ [f] \<and> block_of (now_ns env) buffers frames channels f) \<and>
          sent = (if signal_ok env then 1 else 0) \<and>
          dispatched_blocks c' = dispatched_blocks c + (if signal_ok env then 1 else 0) \<and>
          xrun_count c' = xrun_count c + (if signal_ok env then 0 else 1)" by blast
    have "out_queue m' = out_queue m" using m'(2) by (metis dsp_shared_memory.select_convs(3) dsp_shared_memory.update_convs(2) dsp_shared_memory.surjective)
    moreover have "cpp_ok c' m'" using dispatch_context [OF d ctx(1) healthy(1)] m'(1) assms(1) ctx(2) by (auto simp: cpp_ok_def)
    moreover have "b \<longrightarrow> (\<exists>f. items (in_queue m') = items (in_queue m) @ [f] \<and> carries buffers frames channels f)"
      using it m'(3) block_carries [OF _ assms(2)] by (auto split: if_splits)
    ultimately show ?thesis using True d by auto
  qed
qed

lemma map_length_eqI:
  "length xs = length ys \<Longrightarrow> (\<And>i. i < length ys \<Longrightarrow> length (xs ! i) = length (ys ! i)) \<Longrightarrow> map length xs = map length ys"
  by (rule nth_equalityI) simp_all

lemma frame_channel_length:
  assumes "frame_bounded f" "ch < unat (channel_count f)"
  shows "length (channel_block (samples f) ch (unat (frame_count f))) = unat (frame_count f)"
proof -
  have n: "unat (frame_count f) \<le> MAX_FRAMES" "length (samples f) = MAX_SAMPLES" "ch < MAX_CHANNELS"
    using assms by (auto simp: frame_bounded_def frame_wf_def)
  from channel_fits [OF n(3,1)] n(2) show ?thesis by (simp add: channel_block_def)
qed

lemma received_lengths:
  assumes "frame_bounded f" "k \<le> unat (channel_count f)" "\<forall>ch < k. unat (frame_count f) \<le> length (buffers ! ch)"
  shows "map length (received f k buffers) = map length buffers"
proof (rule map_length_eqI)
  fix ch
  assume "ch < length buffers"
  then show "length (received f k buffers ! ch) = length (buffers ! ch)"
    using assms(2,3) frame_channel_length [OF assms(1), of ch] by (simp add: received_def Let_def)
qed (simp add: received_def Let_def)

lemma received_delivers:
  assumes "k = min (unat (channel_count f)) (nat channels)" "k \<le> length buffers" "frame_bounded f"
  shows "delivers (unat (frame_count f)) f channels (received f k buffers)"
  unfolding delivers_def
proof (intro allI impI)
  fix ch
  assume ch: "ch < min (unat (channel_count f)) (nat channels)"
  then have "ch < length buffers" using assms(1,2) by linarith
  moreover have "length (channel_block (samples f) ch (unat (frame_count f))) = unat (frame_count f)"
    using ch by (intro frame_channel_length [OF assms(3)]) simp
  ultimately show "unat (frame_count f) \<le> length (received f k buffers ! ch) \<and>
      take (unat (frame_count f)) (received f k buffers ! ch) = channel_block (samples f) ch (unat (frame_count f))"
    using ch assms(1) by (simp add: received_def Let_def)
qed

text \<open>It copies as many samples as the processed block has, whatever the caller asks for.\<close>

definition cpp_copied :: "int \<Rightarrow> dsp_audio_frame \<Rightarrow> nat" where
  "cpp_copied frames f = unat (frame_count f)"

lemma cpp_read_ok:
  assumes "cpp_ok c m" "block_call buffers frames channels" "queue_bounded (out_queue m)"
  shows "(\<exists>b buffers' c' m'. sdk_read_output linux env (Some c) buffers frames channels m = Inr (b, buffers', Some c', m') \<and> cpp_ok c' m' \<and> in_queue m' = in_queue m \<and>
    map length buffers' = map length buffers \<and>
    (if b then (\<exists>f. items (out_queue m) = f # items (out_queue m') \<and> delivers (cpp_copied frames f) f channels buffers')
     else buffers' = buffers \<and> items (out_queue m') = items (out_queue m))) \<or>
    sdk_read_output linux env (Some c) buffers frames channels m = Inl Out_Of_Bounds \<and> read_overruns cpp_copied buffers frames channels m"
proof (cases "cx_shm c \<and> linux \<and> 0 < poll_result env \<and> items (out_queue m) \<noteq> []")
  case False
  have wf: "ring_wf (out_queue m)" using assms(1) by (simp add: cpp_ok_def shm_wf_def ring_of_def)
  have "peek_read (out_queue m) = None" if "items (out_queue m) = []"
    using that peek_read_iff [OF wf] by (simp split: if_splits)
  with False have "sdk_read_output linux env (Some c) buffers frames channels m = Inr (False, buffers, Some c, m)"
    using not_le by (auto simp: sdk_read_output_def)
  with assms(1) show ?thesis by auto
next
  case True
  then have ctx: "ctx_ok c m" "0 < poll_result env" using cpp_ctx [OF assms(1)] by simp_all
  obtain f fs where f: "items (out_queue m) = f # fs" using True by (cases "items (out_queue m)") auto
  have fb: "frame_bounded f" using assms(3) by (simp add: queue_bounded_def f)
  define k where "k = min (unat (channel_count f)) (nat channels)"
  have ch: "0 \<le> channels" "channels < 2 ^ 31" "k \<le> length buffers"
    using assms(2) by (auto simp: block_call_def k_def)
  note r = read_step [where frames = frames, OF ctx f fb ch(1,2) k_def ch(3)]
  show ?thesis
  proof (cases "\<forall>ch < k. unat (frame_count f) \<le> length (buffers ! ch)")
    case False
    then have "read_overruns cpp_copied buffers frames channels m"
      by (auto simp: read_overruns_def f cpp_copied_def k_def not_le)
    with False r True show ?thesis by simp
  next
    case len: True
    with r obtain c' q where
      r: "sdk_read_output True env (Some c) buffers frames channels m = Inr (True, received f k buffers, Some c', m\<lparr>out_queue := q\<rparr>)"
        "items q = fs" "shm_wf (m\<lparr>out_queue := q\<rparr>)" by auto
    have "cx_worker_id c' = cx_worker_id c"
      using r(1) True by (auto simp: sdk_read_output_def measure_roundtrip_def Let_def split: option.splits sum.splits if_splits)
    then have "cpp_ok c' (m\<lparr>out_queue := q\<rparr>)" using r(3) assms(1) True by (simp add: cpp_ok_def)
    moreover have "map length (received f k buffers) = map length buffers"
      by (rule received_lengths [OF fb _ len]) (simp add: k_def)
    moreover note received_delivers [OF k_def ch(3) fb]
    ultimately show ?thesis using r True f by (auto simp: cpp_copied_def)
  qed
qed

text \<open>The descriptors of a context, which only \<open>connect\<close> and \<open>disconnect\<close> change.\<close>

definition ctx_fds :: "sdk_ctx \<Rightarrow> int list" where
  "ctx_fds c = [cx_shm_fd c, cx_eventfd_send c, cx_eventfd_recv c, cx_socket_fd c]"

lemma disconnect_fds: "fst (sdk_disconnect (Some c)) = filter (\<lambda>fd. 0 \<le> fd) (ctx_fds c)"
  by (simp add: sdk_disconnect_def close_all_eq ctx_fds_def)

lemma ctx_fds_simps [simp]:
  "ctx_fds (watchdog hb c) = ctx_fds c" "ctx_fds (measure_roundtrip t f c) = ctx_fds c"
  "ctx_fds (c\<lparr>xrun_count := x\<rparr>) = ctx_fds c" "ctx_fds (c\<lparr>dispatched_blocks := x\<rparr>) = ctx_fds c"
  by (simp_all add: ctx_fds_def watchdog_def measure_roundtrip_def Let_def)

lemma cpp_dispatch_fds:
  "sdk_dispatch linux env (Some c) buffers frames channels m = Inr (b, Some c', m', sent) \<Longrightarrow> ctx_fds c' = ctx_fds c"
  unfolding sdk_dispatch_def Let_def
  by (fastforce split: if_split_asm sum.split_asm option.split_asm)

lemma cpp_read_fds:
  "sdk_read_output linux env (Some c) buffers frames channels m = Inr (b, buffers', Some c', m') \<Longrightarrow> ctx_fds c' = ctx_fds c"
  unfolding sdk_read_output_def Let_def
  by (fastforce split: if_split_asm sum.split_asm option.split_asm)

interpretation cpp: sdk_interface cpp_api "\<lambda>e. True" cpp_ok cpp_copied
proof
  fix e c c' m m' b buffers buffers' frames channels ty cost
  show "api_dispatch cpp_api e c buffers frames channels m = Inr (b, c', m') \<Longrightarrow> api_disconnect cpp_api c' = api_disconnect cpp_api c"
    using cpp_dispatch_fds by (fastforce simp: cpp_api_def disconnect_fds split: sum.split_asm option.split_asm)
  show "api_read_output cpp_api e c buffers frames channels m = Inr (b, buffers', c', m') \<Longrightarrow>
      api_disconnect cpp_api c' = api_disconnect cpp_api c"
    using cpp_read_fds by (fastforce simp: cpp_api_def disconnect_fds split: sum.split_asm option.split_asm)
  show "shm_wf m \<Longrightarrow> api_connect cpp_api e ty cost m = Inr (Some c) \<Longrightarrow> cpp_ok c m"
    using cpp_connect_ok by (auto simp: cpp_api_def split: sum.splits)
  show "cpp_ok c m \<Longrightarrow> shm_wf m" by (simp add: cpp_ok_def)
  assume "cpp_ok c m" "block_call buffers frames channels"
  note asm = this
  show "\<exists>b c' m'. api_dispatch cpp_api e c buffers frames channels m = Inr (b, c', m') \<and> cpp_ok c' m' \<and> out_queue m' = out_queue m \<and>
      (b \<longrightarrow> (\<exists>f. items (in_queue m') = items (in_queue m) @ [f] \<and> carries buffers frames channels f))"
    using cpp_dispatch_ok [OF asm, of "ce_linux e" "ce_dispatch e"] by (auto simp: cpp_api_def)
  assume "queue_bounded (out_queue m)"
  from cpp_read_ok [OF asm this, of "ce_linux e" "ce_readback e"]
  show "(\<exists>b buffers' c' m'. api_read_output cpp_api e c buffers frames channels m = Inr (b, buffers', c', m') \<and> cpp_ok c' m' \<and> in_queue m' = in_queue m \<and>
      map length buffers' = map length buffers \<and>
      (if b then (\<exists>f. items (out_queue m) = f # items (out_queue m') \<and> delivers (cpp_copied frames f) f channels buffers')
     else buffers' = buffers \<and> items (out_queue m') = items (out_queue m))) \<or>
     api_read_output cpp_api e c buffers frames channels m = Inl Out_Of_Bounds \<and> read_overruns cpp_copied buffers frames channels m"
  proof (elim disjE exE conjE)
    fix b buffers' c' m'
    assume r: "sdk_read_output (ce_linux e) (ce_readback e) (Some c) buffers frames channels m = Inr (b, buffers', Some c', m')"
      and p: "cpp_ok c' m'" "in_queue m' = in_queue m" "map length buffers' = map length buffers"
        "if b then (\<exists>f. items (out_queue m) = f # items (out_queue m') \<and> delivers (cpp_copied frames f) f channels buffers')
          else buffers' = buffers \<and> items (out_queue m') = items (out_queue m)"
    have "api_read_output cpp_api e c buffers frames channels m = Inr (b, buffers', c', m')" by (simp add: cpp_api_def r)
    with p show ?thesis by blast
  qed (simp add: cpp_api_def)
qed

end
