(* ===== verification/Sdk_C.thy ===== *)
theory Sdk_C
  imports Sdk_Api
begin

text \<open>
  The C library \<open>sdk/src/dsp_accel_sdk.c\<close>, a second implementation of the plugin's interface
  (\<open>sdk/include/dsp_accel_sdk.h\<close>): its session with the daemon, dispatch and read-back, with what each
  guarantees and where it differs from the C++ library: it does not fall back to a context without
  shared memory, checks neither the number of channels nor negative counts, and does not close the
  descriptors of a handshake that fails half way.
\<close>

section \<open>The session\<close>

record sdk_c_ctx =
  cc_type :: DspWorkloadType
  cc_socket_fd :: int
  cc_shm_fd :: int
  cc_e_send :: int
  cc_e_recv :: int
  cc_shm :: bool

text \<open>\<open>recv_fd\<close>: the type of the control message is checked.\<close>

fun c_recv_fd :: "rights_message \<Rightarrow> int" where
  "c_recv_fd No_Message = - 1"
| "c_recv_fd No_Rights = - 1"
| "c_recv_fd (Rights fd) = fd"

record c_connect_env =
  c_sock :: int
  c_connect_ok :: bool
  c_response_ok :: bool
  c_messages :: "rights_message \<times> rights_message \<times> rights_message"
  c_calloc_ok :: bool
  c_map_ok :: bool

text \<open>The descriptors closed and whether the memory is unmapped.\<close>

definition c_disconnect :: "sdk_c_ctx option \<Rightarrow> int list \<times> bool" where
  "c_disconnect ctx = (case ctx of None \<Rightarrow> ([], False)
     | Some c \<Rightarrow> ((if 0 \<le> cc_shm_fd c then [cc_shm_fd c] else []) @ (if 0 \<le> cc_e_send c then [cc_e_send c] else [])
         @ (if 0 \<le> cc_e_recv c then [cc_e_recv c] else []) @ (if 0 \<le> cc_socket_fd c then [cc_socket_fd c] else []), cc_shm c))"

text \<open>
  The context, or \<open>None\<close> for null, and the descriptors closed on the way. The result of the allocation
  is not checked. A mapping that failed is not undone.
\<close>

definition c_connect :: "c_connect_env \<Rightarrow> DspWorkloadType \<Rightarrow> (sdk_c_ctx option \<times> int list) outcome" where
  "c_connect env ty =
     (let sock = c_sock env in
      if sock < 0 then Inr (None, [])
      else if \<not> c_connect_ok env then Inr (None, [sock])
      else if \<not> c_response_ok env then Inr (None, [sock])
      else let (m1, m2, m3) = c_messages env; shm_fd = c_recv_fd m1; e_send = c_recv_fd m2; e_recv = c_recv_fd m3 in
        if shm_fd < 0 \<or> e_send < 0 \<or> e_recv < 0 then Inr (None, [sock])
        else if \<not> c_calloc_ok env then Inl Null_Deref
        else let ctx = \<lparr>cc_type = ty, cc_socket_fd = sock, cc_shm_fd = shm_fd, cc_e_send = e_send, cc_e_recv = e_recv,
               cc_shm = c_map_ok env\<rparr> in
          if \<not> c_map_ok env then Inr (None, fst (c_disconnect (Some ctx))) else Inr (Some ctx, []))"

section \<open>Dispatch\<close>

text \<open>The number of samples of \<open>frames * sizeof(float)\<close>, where \<open>frames\<close> is converted to \<open>size_t\<close>.\<close>

definition copy_count :: "int \<Rightarrow> nat" where
  "copy_count frames = unat (of_int frames * 4 :: u64) div 4"

definition c_put_channel :: "f32 list list \<Rightarrow> nat \<Rightarrow> nat \<Rightarrow> f32 list \<Rightarrow> f32 list outcome" where
  "c_put_channel buffers n c dst =
     (if length buffers \<le> c then Inl Out_Of_Bounds else memcpy_at dst (c * 256) (buffers ! c) n)"

text \<open>
  The frame lives on the stack: of the parts that are not assigned, \<open>stack\<close> is what was there. The
  number of signals is that of the writes that succeed.
\<close>

definition c_dispatch :: "dsp_audio_frame \<Rightarrow> bool \<Rightarrow> sdk_c_ctx option \<Rightarrow> f32 list list \<Rightarrow> int \<Rightarrow> int \<Rightarrow> dsp_shared_memory
    \<Rightarrow> (bool \<times> dsp_shared_memory \<times> nat) outcome" where
  "c_dispatch stack write_ok ctx buffers frames channels m =
     (case ctx of
        None \<Rightarrow> Inr (False, m, 0)
      | Some c \<Rightarrow>
        (if \<not> cc_shm c \<or> 256 < frames then Inr (False, m, 0)
         else case for_each (c_put_channel buffers (copy_count frames)) [0..<nat channels] (samples stack) of
             Inl e \<Rightarrow> Inl e
           | Inr xs \<Rightarrow>
              (let frame = stack\<lparr>frame_count := of_int frames, channel_count := of_int channels, samples := xs\<rparr>;
                   (ok, q) = push (in_queue m) frame; m' = m\<lparr>in_queue := q\<rparr> in
               if \<not> ok then Inr (False, m', 0)
               else if \<not> write_ok then Inr (False, m', 0) else Inr (True, m', 1))))"

section \<open>Read back\<close>

definition c_get_channel :: "f32 list \<Rightarrow> nat \<Rightarrow> nat \<Rightarrow> f32 list list \<Rightarrow> f32 list list outcome" where
  "c_get_channel src n c buffers =
     (if length buffers \<le> c \<or> length src < c * 256 then Inl Out_Of_Bounds
      else case memcpy_at (buffers ! c) 0 (drop (c * 256) src) n of
          Inl e \<Rightarrow> Inl e
        | Inr d \<Rightarrow> Inr (buffers[c := d]))"

definition c_read_output :: "int \<Rightarrow> sdk_c_ctx option \<Rightarrow> f32 list list \<Rightarrow> int \<Rightarrow> int \<Rightarrow> dsp_shared_memory
    \<Rightarrow> (bool \<times> f32 list list \<times> dsp_shared_memory) outcome" where
  "c_read_output res ctx buffers frames channels m =
     (case ctx of
        None \<Rightarrow> Inr (False, buffers, m)
      | Some c \<Rightarrow>
        (if \<not> cc_shm c \<or> res \<le> 0 then Inr (False, buffers, m)
         else let (r, q) = pop (out_queue m); m' = m\<lparr>out_queue := q\<rparr> in
           case r of
             None \<Rightarrow> Inr (False, buffers, m')
           | Some out_frame \<Rightarrow>
              (case for_each (c_get_channel (samples out_frame) (copy_count frames)) [0..<nat channels] buffers of
                 Inl e \<Rightarrow> Inl e
               | Inr bufs \<Rightarrow> Inr (True, bufs, m'))))"

section \<open>Descriptors\<close>

text \<open>The descriptors the system hands out, and those of them that a handshake without all three loses.\<close>

definition c_received :: "c_connect_env \<Rightarrow> int list" where
  "c_received env = (let (m1, m2, m3) = c_messages env in [c_recv_fd m1, c_recv_fd m2, c_recv_fd m3])"

definition c_obtained :: "c_connect_env \<Rightarrow> int list" where
  "c_obtained env = c_sock env # (if 0 \<le> c_sock env \<and> c_connect_ok env \<and> c_response_ok env then c_received env else [])"

definition c_leaked :: "c_connect_env \<Rightarrow> int list" where
  "c_leaked env = (if 0 \<le> c_sock env \<and> c_connect_ok env \<and> c_response_ok env \<and> list_ex (\<lambda>fd. fd < 0) (c_received env)
     then filter (\<lambda>fd. 0 \<le> fd) (c_received env) else [])"

text \<open>
  C38: The descriptors that \<open>connect\<close> and a later \<open>disconnect\<close> of the C library close are the valid
  ones it was given, each once, except in one case: when one of the three descriptors of the worker does
  not arrive, the others are never closed. A context is returned exactly when every step succeeded.
\<close>

theorem c_connect_descriptors:
  assumes "c_connect env ty = Inr (r, cl)"
  shows "mset (cl @ fst (c_disconnect r)) + mset (c_leaked env) = mset (filter (\<lambda>fd. 0 \<le> fd) (c_obtained env)) \<and>
    (r \<noteq> None \<longleftrightarrow> 0 \<le> c_sock env \<and> c_connect_ok env \<and> c_response_ok env \<and>
       list_all (\<lambda>fd. 0 \<le> fd) (c_received env) \<and> c_calloc_ok env \<and> c_map_ok env)"
proof -
  obtain m1 m2 m3 where f: "c_messages env = (m1, m2, m3)" by (cases "c_messages env")
  consider (sock) "c_sock env < 0" | (conn) "0 \<le> c_sock env" "\<not> c_connect_ok env"
    | (resp) "0 \<le> c_sock env" "c_connect_ok env" "\<not> c_response_ok env"
    | (fds) "0 \<le> c_sock env" "c_connect_ok env" "c_response_ok env" by fastforce
  then show ?thesis
  proof cases
    case fds
    then show ?thesis using assms f
      by (auto simp: c_connect_def c_disconnect_def c_leaked_def c_obtained_def c_received_def Let_def split: if_splits)
  qed (use assms in \<open>auto simp: c_connect_def c_disconnect_def c_leaked_def c_obtained_def\<close>)
qed

definition demo_c_connect :: c_connect_env where
  "demo_c_connect = \<lparr>c_sock = 3, c_connect_ok = True, c_response_ok = True,
     c_messages = (Rights 4, No_Rights, Rights 6), c_calloc_ok = True, c_map_ok = True\<rparr>"

theorem c_connect_descriptors_witness:
  "\<exists>cl. c_connect demo_c_connect DSP_ACCEL_TYPE_REMOTE = Inr (None, cl) \<and> mset cl + {#4, 6#} = {#3, 4, 6#}"
proof -
  have "\<exists>cl. c_connect demo_c_connect DSP_ACCEL_TYPE_REMOTE = Inr (None, cl)"
    by (simp add: c_connect_def demo_c_connect_def)
  then obtain cl where c: "c_connect demo_c_connect DSP_ACCEL_TYPE_REMOTE = Inr (None, cl)" by blast
  from c_connect_descriptors [OF c] c show ?thesis
    by (intro exI [of _ cl])
      (simp add: c_disconnect_def c_leaked_def c_obtained_def c_received_def demo_c_connect_def add_mset_commute)
qed

section \<open>Calls within a frame\<close>

lemma copy_count_nonneg:
  assumes "0 \<le> frames" "frames \<le> 256"
  shows "copy_count frames = nat frames"
proof -
  have "(of_int frames * 4 :: u64) = of_nat (nat frames * 4)" using assms by simp
  moreover have "unat (of_nat (nat frames * 4) :: u64) = nat frames * 4"
    by (rule unat_of_nat_u64) (use assms in simp)
  ultimately show ?thesis by (simp add: copy_count_def)
qed

lemma c_put_channels:
  assumes "cc \<le> length buffers" "cc \<le> MAX_CHANNELS"
  shows "for_each (c_put_channel buffers n) [0..<cc] dst = put_channels (\<lambda>ch. buffers ! ch) n cc dst"
proof -
  have "for_each (c_put_channel buffers n) js d = for_each (\<lambda>ch d. memcpy_at d (unat ((of_nat ch :: u32) * 256)) (buffers ! ch) n) js d"
    if "set js \<subseteq> {0..<cc}" for js d
    using that
  proof (induction js arbitrary: d)
    case (Cons j js)
    then have "j < cc" by simp
    then have "c_put_channel buffers n j d = memcpy_at d (unat ((of_nat j :: u32) * 256)) (buffers ! j) n"
      using assms channel_offset_u32 [of j] by (simp add: c_put_channel_def MAX_FRAMES_def)
    with Cons show ?case by (simp split: sum.splits)
  qed simp
  then show ?thesis by (simp add: put_channels_def)
qed

lemma c_dispatch_ok:
  assumes "shm_wf m" "frame_wf stack" "block_call buffers frames channels"
  shows "\<exists>b m' sent. c_dispatch stack w (Some c) buffers frames channels m = Inr (b, m', sent) \<and> shm_wf m' \<and>
    out_queue m' = out_queue m \<and> (b \<longrightarrow> (\<exists>f. items (in_queue m') = items (in_queue m) @ [f] \<and> carries buffers frames channels f))"
proof (cases "cc_shm c")
  case False
  with assms(1) show ?thesis by (auto simp: c_dispatch_def)
next
  case True
  have fr: "0 \<le> frames" "frames \<le> 256" "0 \<le> channels" "channels \<le> 8" using assms(3) by (simp_all add: block_call_def)
  have b: "length (samples stack) = MAX_SAMPLES" "nat frames \<le> MAX_FRAMES" "nat channels \<le> MAX_CHANNELS"
    using assms(2) fr by (auto simp: frame_wf_def MAX_FRAMES_def MAX_CHANNELS_def)
  have "nat frames \<le> length (buffers ! ch)" if "ch < nat channels" for ch using assms(3) that by (simp add: block_call_def)
  from put_channels_ok [where src = "\<lambda>ch. buffers ! ch", OF b this] obtain xs where
    xs: "put_channels (\<lambda>ch. buffers ! ch) (nat frames) (nat channels) (samples stack) = Inr xs" "length xs = MAX_SAMPLES"
      "\<forall>ch < nat channels. channel_block xs ch (nat frames) = take (nat frames) (buffers ! ch)" by blast
  have put: "for_each (c_put_channel buffers (copy_count frames)) [0..<nat channels] (samples stack) = Inr xs"
    using c_put_channels [of "nat channels" buffers "nat frames"] assms(3) b(3) xs(1) copy_count_nonneg [OF fr(1,2)]
    by (simp add: block_call_def)
  let ?f = "stack\<lparr>frame_count := of_int frames, channel_count := of_int channels, samples := xs\<rparr>"
  have cnt: "unat (of_int frames :: u32) = nat frames" "unat (of_int channels :: u32) = nat channels"
    using fr by (auto intro: unat_of_int_u32)
  have f: "carries buffers frames channels ?f" "frame_wf ?f"
    using fr xs b cnt by (simp_all add: carries_def frame_bounded_def frame_wf_def del: of_nat_unat)
  have q: "ring_of frame_wf IPC_QUEUE_DEPTH (in_queue m)" using assms(1) by (simp add: shm_wf_def)
  obtain ok q' where p: "push (in_queue m) ?f = (ok, q')" by fastforce
  have "shm_wf (m\<lparr>in_queue := q'\<rparr>)" using assms(1) ring_of_push [OF q f(2) p] by (simp add: shm_wf_def)
  moreover have "items q' = items (in_queue m) @ [?f]" if ok
    using spsc.enq_inv [OF ring_ofD(1) [OF q] p] that by simp
  moreover have "c_dispatch stack w (Some c) buffers frames channels m = Inr (ok \<and> w, m\<lparr>in_queue := q'\<rparr>, if ok \<and> w then 1 else 0)"
    using True fr(2) put p by (cases ok; cases w) (simp_all add: c_dispatch_def Let_def)
  ultimately show ?thesis using f(1) by auto
qed

text \<open>The caller's buffers after \<open>k\<close> channels of \<open>n\<close> samples each.\<close>

definition c_filled :: "f32 list \<Rightarrow> nat \<Rightarrow> nat \<Rightarrow> f32 list list \<Rightarrow> f32 list list" where
  "c_filled src n k buffers =
     map (\<lambda>ch. if ch < k then channel_block src ch n @ drop n (buffers ! ch) else buffers ! ch) [0..<length buffers]"

lemma c_get_channels:
  assumes "length src = MAX_SAMPLES" "n \<le> MAX_FRAMES" "k \<le> length buffers" "k \<le> MAX_CHANNELS"
    and "\<forall>ch < k. n \<le> length (buffers ! ch)"
  shows "for_each (c_get_channel src n) [0..<k] buffers = Inr (c_filled src n k buffers)"
  using assms(3-5)
proof (induction k)
  case 0
  then show ?case by (simp add: c_filled_def map_nth)
next
  case (Suc k)
  have fit: "k * MAX_FRAMES + n \<le> MAX_SAMPLES" using channel_fits [of k n] Suc.prems assms(2) by simp
  let ?r = "c_filled src n k buffers"
  have r: "length ?r = length buffers" "?r ! k = buffers ! k" using Suc.prems by (simp_all add: c_filled_def)
  have "c_get_channel src n k ?r = Inr (?r[k := channel_block src k n @ drop n (buffers ! k)])"
    using Suc.prems r fit assms(1) by (auto simp: c_get_channel_def memcpy_at_def channel_block_def MAX_FRAMES_def)
  moreover have "?r[k := channel_block src k n @ drop n (buffers ! k)] = c_filled src n (Suc k) buffers"
    using Suc.prems by (intro nth_equalityI) (auto simp: c_filled_def nth_list_update less_Suc_eq)
  ultimately show ?case using Suc.IH Suc.prems by (simp add: for_each_append)
qed

text \<open>It copies as many samples as the caller asks for, whatever the processed block has.\<close>

definition c_copied :: "int \<Rightarrow> dsp_audio_frame \<Rightarrow> nat" where
  "c_copied frames f = nat frames"

lemma c_read_ok:
  assumes "shm_wf m" "block_call buffers frames channels"
  shows "\<exists>b buffers' m'. c_read_output res (Some c) buffers frames channels m = Inr (b, buffers', m') \<and> shm_wf m' \<and> in_queue m' = in_queue m \<and>
    map length buffers' = map length buffers \<and>
    (if b then (\<exists>f. items (out_queue m) = f # items (out_queue m') \<and> delivers (c_copied frames f) f channels buffers')
     else buffers' = buffers \<and> items (out_queue m') = items (out_queue m))"
proof (cases "cc_shm c \<and> 0 < res")
  case False
  then have "c_read_output res (Some c) buffers frames channels m = Inr (False, buffers, m)"
    by (simp add: c_read_output_def not_less)
  with assms(1) show ?thesis by auto
next
  case True
  have q: "ring_of frame_wf IPC_QUEUE_DEPTH (out_queue m)" using assms(1) by (simp add: shm_wf_def)
  have fr: "0 \<le> frames" "frames \<le> 256" "0 \<le> channels" "channels \<le> 8" using assms(2) by (simp_all add: block_call_def)
  obtain r q' where p: "pop (out_queue m) = (r, q')" by fastforce
  have wf: "shm_wf (m\<lparr>out_queue := q'\<rparr>)" using assms(1) ring_of_pop [OF q p] by (simp add: shm_wf_def)
  show ?thesis
  proof (cases r)
    case None
    then have "c_read_output res (Some c) buffers frames channels m = Inr (False, buffers, m\<lparr>out_queue := q'\<rparr>)"
      using True p by (simp add: c_read_output_def)
    moreover have "q' = out_queue m" using p None by (simp add: pop_def Let_def split: if_split_asm)
    ultimately show ?thesis using wf by auto
  next
    case (Some f)
    have it: "items (out_queue m) = f # items q'" using spsc.deq_inv [OF ring_ofD(1) [OF q] p] Some by simp
    have "frame_wf f" using ring_of_items [OF q] it by simp
    then have b: "length (samples f) = MAX_SAMPLES" "nat frames \<le> MAX_FRAMES" "nat channels \<le> length buffers" "nat channels \<le> MAX_CHANNELS"
      "\<forall>ch < nat channels. nat frames \<le> length (buffers ! ch)"
      using fr assms(2) by (auto simp: frame_wf_def MAX_FRAMES_def MAX_CHANNELS_def block_call_def)
    let ?r = "c_filled (samples f) (nat frames) (nat channels) buffers"
    have len: "length (channel_block (samples f) ch (nat frames)) = nat frames" if "ch < nat channels" for ch
      using channel_fits [of ch "nat frames"] that b(1,2,4) by (simp add: channel_block_def)
    have "delivers (nat frames) f channels ?r"
      using len b(3) by (auto simp: delivers_def c_filled_def)
    moreover have "length (?r ! ch) = length (buffers ! ch)" if "ch < length buffers" for ch
      using that b(5) len by (simp add: c_filled_def)
    then have "map length ?r = map length buffers"
      by (intro map_length_eqI) (simp_all add: c_filled_def)
    moreover have "c_read_output res (Some c) buffers frames channels m = Inr (True, ?r, m\<lparr>out_queue := q'\<rparr>)"
      using True p Some c_get_channels [OF b] copy_count_nonneg [OF fr(1,2)] by (simp add: c_read_output_def)
    ultimately show ?thesis using wf it by (auto simp: c_copied_def)
  qed
qed

section \<open>The contract\<close>

record c_env =
  ce_c_connect :: c_connect_env
  ce_stack :: dsp_audio_frame
  ce_write_ok :: bool
  ce_poll :: int

definition c_api :: "(c_env, sdk_c_ctx) sdk_api" where
  "c_api = \<lparr>api_connect = (\<lambda>e ty cost m. case c_connect (ce_c_connect e) ty of Inl err \<Rightarrow> Inl err | Inr (ctx, fds) \<Rightarrow> Inr ctx),
     api_disconnect = (\<lambda>c. fst (c_disconnect (Some c))),
     api_dispatch = (\<lambda>e c buffers frames channels m.
       case c_dispatch (ce_stack e) (ce_write_ok e) (Some c) buffers frames channels m of
         Inl err \<Rightarrow> Inl err | Inr (b, m', sent) \<Rightarrow> Inr (b, c, m')),
     api_read_output = (\<lambda>e c buffers frames channels m.
       case c_read_output (ce_poll e) (Some c) buffers frames channels m of
         Inl err \<Rightarrow> Inl err | Inr (b, buffers', m') \<Rightarrow> Inr (b, buffers', c, m'))\<rparr>"

interpretation clib: sdk_interface c_api "\<lambda>e :: c_env. frame_wf (ce_stack e)" "\<lambda>c m. shm_wf m" c_copied
proof
  fix e :: c_env and c m buffers frames channels
  assume asm: "shm_wf m" "frame_wf (ce_stack e)" "block_call buffers frames channels"
  show "\<exists>b c' m'. api_dispatch c_api e c buffers frames channels m = Inr (b, c', m') \<and> shm_wf m' \<and> out_queue m' = out_queue m \<and>
      (b \<longrightarrow> (\<exists>f. items (in_queue m') = items (in_queue m) @ [f] \<and> carries buffers frames channels f))"
    using c_dispatch_ok [OF asm, of "ce_write_ok e" c] by (auto simp: c_api_def)
  from c_read_ok [OF asm(1,3), of "ce_poll e" c] obtain b buffers' m' where
    r: "c_read_output (ce_poll e) (Some c) buffers frames channels m = Inr (b, buffers', m')"
    and p: "shm_wf m'" "in_queue m' = in_queue m" "map length buffers' = map length buffers"
      "if b then (\<exists>f. items (out_queue m) = f # items (out_queue m') \<and> delivers (c_copied frames f) f channels buffers')
        else buffers' = buffers \<and> items (out_queue m') = items (out_queue m)"
    by blast
  have "api_read_output c_api e c buffers frames channels m = Inr (b, buffers', c, m')" by (simp add: c_api_def r)
  with p show "(\<exists>b buffers' c' m'. api_read_output c_api e c buffers frames channels m = Inr (b, buffers', c', m') \<and> shm_wf m' \<and> in_queue m' = in_queue m \<and>
      map length buffers' = map length buffers \<and>
      (if b then (\<exists>f. items (out_queue m) = f # items (out_queue m') \<and> delivers (c_copied frames f) f channels buffers')
     else buffers' = buffers \<and> items (out_queue m') = items (out_queue m))) \<or>
     api_read_output c_api e c buffers frames channels m = Inl Out_Of_Bounds \<and> read_overruns c_copied buffers frames channels m"
    by blast
qed (auto simp: c_api_def split: sum.splits)

section \<open>Calls outside a frame\<close>

lemma unat_of_int_u64: "0 \<le> i \<Longrightarrow> i < 2 ^ 64 \<Longrightarrow> unat (of_int i :: u64) = nat i"
  by (simp add: unat_eq_nat_uint uint_word_of_int take_bit_int_eq_self)

lemma copy_count_negative:
  assumes "- (2 ^ 31) \<le> frames" "frames < 0"
  shows "MAX_SAMPLES < copy_count frames"
proof -
  have "(of_int frames * 4 :: u64) = of_int (2 ^ 64 + frames * 4)" by simp
  moreover have "unat (of_int (2 ^ 64 + frames * 4) :: u64) = nat (2 ^ 64 + frames * 4)"
    by (rule unat_of_int_u64) (use assms in simp_all)
  ultimately have "unat (of_int frames * 4 :: u64) = nat (2 ^ 64 + frames * 4)" by (simp only:)
  moreover have "4 * 2049 \<le> nat (2 ^ 64 + frames * 4)" using assms by simp
  ultimately have "2049 \<le> copy_count frames" unfolding copy_count_def by (metis div_le_mono nonzero_mult_div_cancel_left zero_neq_numeral)
  then show ?thesis by (simp add: MAX_SAMPLES_def)
qed

lemma c_put_overrun:
  assumes "length dst = MAX_SAMPLES" "j < cc" "MAX_SAMPLES < j * 256 + n"
  shows "for_each (c_put_channel buffers n) [0..<cc] dst = Inl Out_Of_Bounds"
proof -
  have err: "for_each (c_put_channel buffers n) js d = Inl Out_Of_Bounds" if "j \<in> set js" "length d = MAX_SAMPLES" for js d
    using that
  proof (induction js arbitrary: d)
    case (Cons i js)
    show ?case
    proof (cases "c_put_channel buffers n i d")
      case (Inl e)
      then have "e = Out_Of_Bounds" by (auto simp: c_put_channel_def memcpy_at_def split: if_splits)
      with Inl show ?thesis by simp
    next
      case (Inr d')
      then have "length d' = MAX_SAMPLES" "i \<noteq> j"
        using Cons.prems(2) assms(3) by (auto simp: c_put_channel_def memcpy_at_def split: if_splits)
      with Cons.IH [of d'] Cons.prems(1) Inr show ?thesis by auto
    qed
  qed simp
  show ?thesis by (rule err) (use assms in auto)
qed

lemma c_dispatch_overrun:
  assumes "cc_shm c" "frame_wf stack" "- (2 ^ 31) \<le> frames" "frames \<le> 256" "frames \<noteq> 0" "0 < channels" "frames < 0 \<or> 8 < channels"
  shows "c_dispatch stack w (Some c) buffers frames channels m = Inl Out_Of_Bounds"
proof -
  obtain j where j: "j < nat channels" "MAX_SAMPLES < j * 256 + copy_count frames"
  proof (cases "frames < 0")
    case True
    with that [of 0] copy_count_negative assms(3,6) show ?thesis by simp
  next
    case False
    with that [of 8] copy_count_nonneg [of frames] assms(4,5,7) show ?thesis by (simp add: MAX_SAMPLES_def)
  qed
  have "length (samples stack) = MAX_SAMPLES" using assms(2) by (simp add: frame_wf_def)
  from c_put_overrun [OF this j] assms(1,4) show ?thesis by (simp add: c_dispatch_def)
qed

text \<open>
  The C library's dispatch trusts its counts: with a negative number of frames, or with more than the
  eight channels of a frame, the copy to the frame on the stack runs out of bounds, whatever the
  buffers; the only count that is checked is \<open>frames > 256\<close>. (The C++ library clamps both to the frame.)
\<close>

theorem c_dispatch_unchecked_counts:
  assumes "cc_shm c" "frame_wf stack" "c_int frames" "c_int channels" "frames \<noteq> 0" "0 < channels" "frames < 0 \<or> 8 < channels"
  shows "c_dispatch stack w (Some c) buffers frames channels m = (if 256 < frames then Inr (False, m, 0) else Inl Out_Of_Bounds)"
proof (cases "256 < frames")
  case True
  with assms(1) show ?thesis by (simp add: c_dispatch_def)
next
  case False
  with assms show ?thesis by (simp add: c_dispatch_overrun c_int_def)
qed

definition demo_c_ctx :: sdk_c_ctx where
  "demo_c_ctx = \<lparr>cc_type = DSP_ACCEL_TYPE_REMOTE, cc_socket_fd = 3, cc_shm_fd = 4, cc_e_send = 5, cc_e_recv = 6, cc_shm = True\<rparr>"

theorem c_dispatch_unchecked_counts_witness:
  "c_dispatch frame_zero True (Some demo_c_ctx) (replicate 9 (replicate 64 f32_zero)) 64 9 shm_zero = Inl Out_Of_Bounds"
  using c_dispatch_unchecked_counts [of demo_c_ctx frame_zero 64 9 True "replicate 9 (replicate 64 f32_zero)" shm_zero]
  by (simp add: demo_c_ctx_def c_int_def)

end
