(* ===== verification/Plugin.thy ===== *)
theory Plugin
  imports Sdk_C
begin

text \<open>
  The example CLAP plugin \<open>clap/plugin_example/src/plugin.cpp\<close>: its instance data, the calls of the
  host's plugin life cycle, the processing of a block with the accelerator and the fallback on the CPU,
  and its factory. The library it calls is any \<open>sdk_api\<close>. The arrays of the host's buffers are taken
  to be distinct; a pointer the code never sets is an array without samples.
\<close>

section \<open>Data\<close>

record clap_audio_buffer =
  data32 :: "f32 list list"
  ab_channel_count :: u32

record clap_process =
  frames_count :: u32
  audio_inputs :: "clap_audio_buffer list"
  audio_outputs :: "clap_audio_buffer list"

text \<open>The host: the extensions it offers, and the calls of \<open>changed\<close> it receives are counted apart.\<close>

record clap_host =
  host_extension :: "string \<Rightarrow> bool"

record 'c my_plugin =
  mp_host :: clap_host
  host_dsp_accel :: bool
  mp_sdk_ctx :: "'c option"

definition CLAP_EXT_DSP_ACCEL :: string where
  "CLAP_EXT_DSP_ACCEL = ''com.example.dsp_accel''"

definition CLAP_EXT_DSP_ACCEL_METADATA :: string where
  "CLAP_EXT_DSP_ACCEL_METADATA = ''com.example.dsp_accel_metadata''"

datatype clap_dsp_workload_type = DSP_TYPE_MASSIVELY_PARALLEL | DSP_TYPE_TENSOR_ML | DSP_TYPE_SEQUENTIAL_FEEDBACK

section \<open>The life cycle\<close>

definition plugin_init :: "'c my_plugin \<Rightarrow> bool \<times> 'c my_plugin" where
  "plugin_init p = (True, p\<lparr>mp_sdk_ctx := None, host_dsp_accel := host_extension (mp_host p) CLAP_EXT_DSP_ACCEL\<rparr>)"

text \<open>The descriptors closed; the instance is deleted.\<close>

definition plugin_destroy :: "('e, 'c) sdk_api \<Rightarrow> 'c my_plugin \<Rightarrow> int list" where
  "plugin_destroy api p = (case mp_sdk_ctx p of None \<Rightarrow> [] | Some c \<Rightarrow> api_disconnect api c)"

text \<open>
  The instance and whether the host's latency extension was told of a change. The name of that
  extension belongs to the CLAP headers. The context of an earlier activation is overwritten.
\<close>

definition plugin_activate :: "('e, 'c) sdk_api \<Rightarrow> string \<Rightarrow> 'e \<Rightarrow> 'c my_plugin \<Rightarrow> dsp_shared_memory
    \<Rightarrow> (bool \<times> 'c my_plugin \<times> bool) outcome" where
  "plugin_activate api ext_latency e p m =
     (case api_connect api e DSP_ACCEL_TYPE_MASSIVELY_PARALLEL (flit binary32 150) m of
        Inl err \<Rightarrow> Inl err
      | Inr ctx \<Rightarrow> Inr (True, p\<lparr>mp_sdk_ctx := ctx\<rparr>, ctx \<noteq> None \<and> host_extension (mp_host p) ext_latency))"

definition plugin_deactivate :: "('e, 'c) sdk_api \<Rightarrow> 'c my_plugin \<Rightarrow> 'c my_plugin \<times> int list" where
  "plugin_deactivate api p = (case mp_sdk_ctx p of None \<Rightarrow> (p, []) | Some c \<Rightarrow> (p\<lparr>mp_sdk_ctx := None\<rparr>, api_disconnect api c))"

section \<open>Processing on the CPU\<close>

definition HALF :: f32 where
  "HALF = flit binary32 (1 / 2)"

text \<open>One sample: the input may be missing.\<close>

definition fallback_sample :: "f32 list option \<Rightarrow> nat \<Rightarrow> f32 list \<Rightarrow> f32 list outcome" where
  "fallback_sample in_data f out_data =
     (if length out_data \<le> f then Inl Out_Of_Bounds
      else case in_data of
          None \<Rightarrow> Inr (out_data[f := f32_zero])
        | Some xs \<Rightarrow> if length xs \<le> f then Inl Out_Of_Bounds else Inr (out_data[f := fmul binary32 (xs ! f) HALF]))"

definition channel_at :: "clap_audio_buffer \<Rightarrow> nat \<Rightarrow> f32 list outcome" where
  "channel_at b ch = (if length (data32 b) \<le> ch then Inl Out_Of_Bounds else Inr (data32 b ! ch))"

definition fallback_channel :: "nat \<Rightarrow> clap_audio_buffer \<Rightarrow> nat \<Rightarrow> clap_audio_buffer \<Rightarrow> clap_audio_buffer outcome" where
  "fallback_channel frames inb ch outb =
     (case channel_at outb ch of
        Inl e \<Rightarrow> Inl e
      | Inr out_data \<Rightarrow>
        (case (if ch < unat (ab_channel_count inb)
               then (case channel_at inb ch of Inl e \<Rightarrow> Inl e | Inr xs \<Rightarrow> Inr (Some xs)) else Inr None) of
           Inl e \<Rightarrow> Inl e
         | Inr in_data \<Rightarrow>
            (case for_each (fallback_sample in_data) [0..<frames] out_data of
               Inl e \<Rightarrow> Inl e
             | Inr d \<Rightarrow> Inr (outb\<lparr>data32 := (data32 outb)[ch := d]\<rparr>))))"

definition fallback_buffer :: "clap_process \<Rightarrow> nat \<Rightarrow> clap_audio_buffer list \<Rightarrow> clap_audio_buffer list outcome" where
  "fallback_buffer pr i outs =
     (if i < length (audio_inputs pr) then
        (case for_each (fallback_channel (unat (frames_count pr)) (audio_inputs pr ! i)) [0..<unat (ab_channel_count (outs ! i))] (outs ! i) of
           Inl e \<Rightarrow> Inl e
         | Inr b \<Rightarrow> Inr (outs[i := b]))
      else Inr outs)"

definition cpu_fallback :: "clap_process \<Rightarrow> clap_process outcome" where
  "cpu_fallback pr =
     (case for_each (fallback_buffer pr) [0..<length (audio_outputs pr)] (audio_outputs pr) of
        Inl e \<Rightarrow> Inl e
      | Inr outs \<Rightarrow> Inr (pr\<lparr>audio_outputs := outs\<rparr>))"

section \<open>Processing on the accelerator\<close>

text \<open>The eight channel pointers, of which the first \<open>ch_count\<close> are set.\<close>

definition channel_ptrs :: "clap_audio_buffer \<Rightarrow> (nat \<times> f32 list list) outcome" where
  "channel_ptrs b =
     (let ch_count = unat (if ab_channel_count b < 8 then ab_channel_count b else 8) in
      if length (data32 b) < ch_count then Inl Out_Of_Bounds
      else Inr (ch_count, take ch_count (data32 b) @ replicate (8 - ch_count) []))"

definition hardware_path :: "('e, 'c) sdk_api \<Rightarrow> 'e \<Rightarrow> 'c \<Rightarrow> clap_process \<Rightarrow> dsp_shared_memory
    \<Rightarrow> (bool \<times> clap_process \<times> 'c \<times> dsp_shared_memory) outcome" where
  "hardware_path api e c pr m =
     (case (if audio_inputs pr = [] then Inr (0, replicate 8 []) else channel_ptrs (hd (audio_inputs pr))) of
        Inl err \<Rightarrow> Inl err
      | Inr (ch_count, ptrs) \<Rightarrow>
        (case api_dispatch api e c ptrs (sint (frames_count pr)) (int ch_count) m of
           Inl err \<Rightarrow> Inl err
         | Inr (sent, c1, m1) \<Rightarrow>
           (if sent \<and> audio_outputs pr \<noteq> [] then
              (let out = hd (audio_outputs pr) in
               case channel_ptrs out of
                 Inl err \<Rightarrow> Inl err
               | Inr (out_ch, out_ptrs) \<Rightarrow>
                 (case api_read_output api e c1 out_ptrs (sint (frames_count pr)) (int out_ch) m1 of
                    Inl err \<Rightarrow> Inl err
                  | Inr (processed_by_hw, bufs, c2, m2) \<Rightarrow>
                     Inr (processed_by_hw,
                       pr\<lparr>audio_outputs := out\<lparr>data32 := take out_ch bufs @ drop out_ch (data32 out)\<rparr> # tl (audio_outputs pr)\<rparr>, c2, m2)))
            else Inr (False, pr, c1, m1))))"

definition plugin_process :: "('e, 'c) sdk_api \<Rightarrow> 'e \<Rightarrow> 'c my_plugin \<Rightarrow> clap_process \<Rightarrow> dsp_shared_memory
    \<Rightarrow> (clap_process \<times> 'c my_plugin \<times> dsp_shared_memory) outcome" where
  "plugin_process api e p pr m =
     (case (case mp_sdk_ctx p of
              None \<Rightarrow> Inr (False, pr, p, m)
            | Some c \<Rightarrow> (case hardware_path api e c pr m of
                 Inl err \<Rightarrow> Inl err
               | Inr (b, pr', c', m') \<Rightarrow> Inr (b, pr', p\<lparr>mp_sdk_ctx := Some c'\<rparr>, m'))) of
        Inl err \<Rightarrow> Inl err
      | Inr (processed_by_hw, pr', p', m') \<Rightarrow>
        (if processed_by_hw then Inr (pr', p', m')
         else case cpu_fallback pr' of Inl err \<Rightarrow> Inl err | Inr pr'' \<Rightarrow> Inr (pr'', p', m')))"

section \<open>Metadata and factory\<close>

definition plugin_get_workload_type :: clap_dsp_workload_type where
  "plugin_get_workload_type = DSP_TYPE_MASSIVELY_PARALLEL"

definition plugin_get_estimated_cost :: f32 where
  "plugin_get_estimated_cost = flit binary32 150"

definition plugin_get_extension :: "string \<Rightarrow> (clap_dsp_workload_type \<times> f32) option" where
  "plugin_get_extension ident = (if ident = CLAP_EXT_DSP_ACCEL_METADATA
     then Some (plugin_get_workload_type, plugin_get_estimated_cost) else None)"

definition plugin_factory_create_plugin :: "clap_host \<Rightarrow> string \<Rightarrow> 'c my_plugin option" where
  "plugin_factory_create_plugin host plugin_id =
     (if plugin_id \<noteq> ''com.example.dsp_test_plugin'' then None
      else Some \<lparr>mp_host = host, host_dsp_accel = False, mp_sdk_ctx = None\<rparr>)"

record clap_plugin_descriptor =
  desc_id :: string
  desc_name :: string
  desc_vendor :: string
  desc_version :: string
  desc_description :: string

definition plugin_factory_get_plugin_count :: nat where
  "plugin_factory_get_plugin_count = 1"

text \<open>The same for every index.\<close>

definition plugin_factory_get_plugin_descriptor :: "nat \<Rightarrow> clap_plugin_descriptor" where
  "plugin_factory_get_plugin_descriptor index =
     \<lparr>desc_id = ''com.example.dsp_test_plugin'', desc_name = ''DSP Accel Dummy'', desc_vendor = ''Example'',
      desc_version = ''1.0.0'', desc_description = ''Hardware Accel Test Plugin''\<rparr>"

lemma factory_creates_what_it_describes:
  "plugin_factory_create_plugin host (desc_id (plugin_factory_get_plugin_descriptor i)) \<noteq> None"
  by (simp add: plugin_factory_create_plugin_def plugin_factory_get_plugin_descriptor_def)

end
