(* ===== verification/Plugin_Spec.thy ===== *)
theory Plugin_Spec
  imports Plugin
begin

text \<open>
  What the example plugin computes: the fallback on the CPU, a block with either library, a block that is
  longer than a frame, and that a run of the host's life cycle closes what it opened.
\<close>

section \<open>The fallback\<close>

text \<open>A loop that fills the first \<open>n\<close> elements of an array inside a state \<open>wrap d\<close>.\<close>

lemma for_each_fill:
  assumes "n \<le> length d"
    and "\<And>i d'. i < n \<Longrightarrow> length d' = length d \<Longrightarrow> d' ! i = d ! i \<Longrightarrow> body i (wrap d') = Inr (wrap (d'[i := g i]))"
  shows "for_each body [0..<n] (wrap d) = Inr (wrap (map g [0..<n] @ drop n d))"
  using assms
proof (induction n)
  case (Suc n)
  let ?d = "map g [0..<n] @ drop n d"
  have d: "length ?d = length d" "?d ! n = d ! n" using Suc.prems(1) by (simp_all add: nth_append)
  have "?d[n := g n] = map g [0..<Suc n] @ drop (Suc n) d"
    using Suc.prems(1) by (simp add: list_update_append flip: Cons_nth_drop_Suc)
  with Suc.IH Suc.prems Suc.prems(2) [of n, OF _ d] show ?case by (simp add: for_each_append)
qed simp

definition buffer_ok :: "nat \<Rightarrow> clap_audio_buffer \<Rightarrow> bool" where
  "buffer_ok n b \<longleftrightarrow> unat (ab_channel_count b) \<le> length (data32 b) \<and> (\<forall>ch < unat (ab_channel_count b). n \<le> length (data32 b ! ch))"

text \<open>Every buffer has the channels it names, each with the samples of the block.\<close>

definition process_ok :: "clap_process \<Rightarrow> bool" where
  "process_ok pr \<longleftrightarrow> list_all (buffer_ok (unat (frames_count pr))) (audio_inputs pr) \<and>
     list_all (buffer_ok (unat (frames_count pr))) (audio_outputs pr)"

text \<open>An output channel after the fallback: half of the input channel, or silence where there is none.\<close>

definition halved_channel :: "nat \<Rightarrow> clap_audio_buffer \<Rightarrow> clap_audio_buffer \<Rightarrow> nat \<Rightarrow> f32 list" where
  "halved_channel n inb outb ch =
     (if ch < unat (ab_channel_count inb) then map (\<lambda>x. fmul binary32 x HALF) (take n (data32 inb ! ch))
      else replicate n f32_zero) @ drop n (data32 outb ! ch)"

definition halved :: "nat \<Rightarrow> clap_audio_buffer \<Rightarrow> clap_audio_buffer \<Rightarrow> clap_audio_buffer" where
  "halved n inb outb = outb\<lparr>data32 := map (halved_channel n inb outb) [0..<unat (ab_channel_count outb)]
     @ drop (unat (ab_channel_count outb)) (data32 outb)\<rparr>"

text \<open>Outputs without an input of the same number stay as they are.\<close>

definition halved_outputs :: "clap_process \<Rightarrow> clap_process" where
  "halved_outputs pr = pr\<lparr>audio_outputs :=
     map (\<lambda>i. if i < length (audio_inputs pr)
              then halved (unat (frames_count pr)) (audio_inputs pr ! i) (audio_outputs pr ! i) else audio_outputs pr ! i)
       [0..<length (audio_outputs pr)]\<rparr>"

lemma fallback_samples:
  assumes "n \<le> length out_data" "\<And>xs. in_data = Some xs \<Longrightarrow> n \<le> length xs"
  shows "for_each (fallback_sample in_data) [0..<n] out_data = Inr ((case in_data of None \<Rightarrow> replicate n f32_zero
    | Some xs \<Rightarrow> map (\<lambda>x. fmul binary32 x HALF) (take n xs)) @ drop n out_data)"
proof -
  let ?g = "\<lambda>f. case in_data of None \<Rightarrow> f32_zero | Some xs \<Rightarrow> fmul binary32 (xs ! f) HALF"
  have "for_each (fallback_sample in_data) [0..<n] out_data = Inr (map ?g [0..<n] @ drop n out_data)"
    by (rule for_each_fill [where wrap = "\<lambda>d. d", OF assms(1)])
      (use assms in \<open>fastforce simp: fallback_sample_def split: option.splits\<close>)
  moreover have "map ?g [0..<n] = (case in_data of None \<Rightarrow> replicate n f32_zero | Some xs \<Rightarrow> map (\<lambda>x. fmul binary32 x HALF) (take n xs))"
    using assms(2) by (cases in_data) (auto intro!: nth_equalityI)
  ultimately show ?thesis by simp
qed

lemma fallback_channels:
  assumes "buffer_ok n inb" "buffer_ok n outb"
  shows "for_each (fallback_channel n inb) [0..<unat (ab_channel_count outb)] outb = Inr (halved n inb outb)"
proof -
  let ?k = "unat (ab_channel_count outb)" and ?w = "\<lambda>d. outb\<lparr>data32 := d\<rparr>"
  have "for_each (fallback_channel n inb) [0..<?k] (?w (data32 outb)) =
      Inr (?w (map (halved_channel n inb outb) [0..<?k] @ drop ?k (data32 outb)))"
  proof (rule for_each_fill)
    fix ch d
    assume ch: "ch < ?k" "length d = length (data32 outb)" "d ! ch = data32 outb ! ch"
    then have o: "ch < length d" "n \<le> length (d ! ch)" using assms(2) by (auto simp: buffer_ok_def)
    have i: "ch < length (data32 inb)" "n \<le> length (data32 inb ! ch)" if "ch < unat (ab_channel_count inb)"
      using assms(1) that by (auto simp: buffer_ok_def)
    show "fallback_channel n inb ch (?w d) = Inr (?w (d[ch := halved_channel n inb outb ch]))"
    proof (cases "ch < unat (ab_channel_count inb)")
      case True
      with o i ch(3) fallback_samples [of n "data32 outb ! ch" "Some (data32 inb ! ch)"] show ?thesis
        by (simp add: fallback_channel_def channel_at_def halved_channel_def)
    next
      case False
      with o ch(3) fallback_samples [of n "data32 outb ! ch" None] show ?thesis
        by (simp add: fallback_channel_def channel_at_def halved_channel_def)
    qed
  qed (use assms(2) in \<open>simp add: buffer_ok_def\<close>)
  then show ?thesis by (simp add: halved_def)
qed

lemma cpu_fallback_halves:
  assumes "process_ok pr"
  shows "cpu_fallback pr = Inr (halved_outputs pr)"
proof -
  let ?n = "unat (frames_count pr)" and ?outs = "audio_outputs pr" and ?ins = "audio_inputs pr"
  let ?g = "\<lambda>i. if i < length ?ins then halved ?n (?ins ! i) (?outs ! i) else ?outs ! i"
  have "for_each (fallback_buffer pr) [0..<length ?outs] ?outs = Inr (map ?g [0..<length ?outs] @ drop (length ?outs) ?outs)"
  proof (rule for_each_fill [where wrap = "\<lambda>d. d"])
    fix i d
    assume i: "i < length ?outs" "length d = length ?outs" "d ! i = ?outs ! i"
    then have "buffer_ok ?n (d ! i)" using assms by (simp add: process_ok_def list_all_length)
    moreover have "buffer_ok ?n (?ins ! i)" if "i < length ?ins" using assms that by (simp add: process_ok_def list_all_length)
    moreover have "d[i := ?outs ! i] = d" using i(3) by (metis list_update_id)
    ultimately show "fallback_buffer pr i d = Inr (d[i := ?g i])"
      using i by (simp add: fallback_buffer_def fallback_channels)
  qed simp
  then show ?thesis by (simp add: cpu_fallback_def halved_outputs_def)
qed

section \<open>A block with a library\<close>

text \<open>
  The block was queued for the worker and the first output holds the oldest processed block, of which the
  library copies \<open>copied frames g\<close> samples of each channel, all of them within the output's channels.
\<close>

definition by_hardware :: "(int \<Rightarrow> dsp_audio_frame \<Rightarrow> nat) \<Rightarrow> clap_process \<Rightarrow> clap_process \<Rightarrow> dsp_shared_memory
    \<Rightarrow> dsp_shared_memory \<Rightarrow> bool" where
  "by_hardware copied pr pr' m m' \<longleftrightarrow> (\<exists>out out' rest f g. audio_outputs pr = out # rest \<and> audio_outputs pr' = out' # rest \<and>
     items (in_queue m') = items (in_queue m) @ [f] \<and> int (unat (frame_count f)) = sint (frames_count pr) \<and>
     (audio_inputs pr \<noteq> [] \<longrightarrow> (\<forall>ch < min 8 (unat (ab_channel_count (hd (audio_inputs pr)))).
        channel_block (samples f) ch (unat (frames_count pr)) = take (unat (frames_count pr)) (data32 (hd (audio_inputs pr)) ! ch))) \<and>
     items (out_queue m) = g # items (out_queue m') \<and>
     delivers (copied (int (unat (frames_count pr))) g) g (int (min 8 (unat (ab_channel_count out)))) (data32 out'))"

text \<open>The oldest processed block does not fit into a channel of the first output.\<close>

definition output_overruns :: "(int \<Rightarrow> dsp_audio_frame \<Rightarrow> nat) \<Rightarrow> clap_process \<Rightarrow> dsp_shared_memory \<Rightarrow> bool" where
  "output_overruns copied pr m \<longleftrightarrow> (case audio_outputs pr of [] \<Rightarrow> False
     | out # rest \<Rightarrow> read_overruns copied (data32 out) (int (unat (frames_count pr))) (int (min 8 (unat (ab_channel_count out)))) m)"

lemma sint_nonneg: "unat (x :: u32) < 2 ^ 31 \<Longrightarrow> sint x = int (unat x)"
proof -
  assume "unat x < 2 ^ 31"
  then have "int (unat x) < int (2 ^ 31)" by (simp only: of_nat_less_iff)
  then have "uint x < 2 ^ 31" by simp
  moreover have "0 \<le> uint x" by simp
  then have "- 2147483648 \<le> uint x" by (rule order_trans [rotated]) simp
  ultimately show ?thesis by (simp add: sint_uint signed_take_bit_int_eq_self_iff)
qed

lemma sint_small: "unat (x :: u32) \<le> 256 \<Longrightarrow> sint x = int (unat x)"
  by (rule sint_nonneg) simp

lemma channel_ptrs_set:
  assumes "buffer_ok n b" "k = min 8 (unat (ab_channel_count b))"
  shows "channel_ptrs b = Inr (k, take k (data32 b) @ replicate (8 - k) [])" "k \<le> length (data32 b)"
proof -
  have k: "unat (if ab_channel_count b < 8 then ab_channel_count b else 8) = k"
    using assms(2) by (simp add: word_less_nat_alt min_def)
  show l: "k \<le> length (data32 b)" using assms by (auto simp: buffer_ok_def min_def)
  show "channel_ptrs b = Inr (k, take k (data32 b) @ replicate (8 - k) [])"
    using l by (simp add: channel_ptrs_def k)
qed

lemma channel_ptrs_call:
  assumes "buffer_ok n b" "n \<le> 256" "k = min 8 (unat (ab_channel_count b))"
  shows "block_call (take k (data32 b) @ replicate (8 - k) []) (int n) (int k)"
proof -
  have k8: "k \<le> 8" using assms(3) by simp
  note l = channel_ptrs_set(2) [OF assms(1,3)]
  have "n \<le> length ((take k (data32 b) @ replicate (8 - k) []) ! ch)" if "ch < k" for ch
    using that l assms(1,3) by (auto simp: nth_append buffer_ok_def)
  then show ?thesis using assms(2) l k8 by (simp add: block_call_def)
qed

lemma write_back_ok:
  assumes "buffer_ok n out" "k = min 8 (unat (ab_channel_count out))" "k \<le> length (data32 out)"
    and "map length bufs = map length (take k (data32 out) @ replicate (8 - k) [])"
  shows "buffer_ok n (out\<lparr>data32 := take k bufs @ drop k (data32 out)\<rparr>)"
proof -
  have l: "length bufs = length (take k (data32 out) @ replicate (8 - k) [])" using assms(4) by (metis length_map)
  then have b: "k \<le> length bufs" using assms(2,3) by simp
  have "map length (take k bufs) = map length (take k (data32 out))"
    using assms(3,4) by (simp add: take_map flip: take_map [of k length bufs])
  then have "map length (take k bufs @ drop k (data32 out)) = map length (data32 out)"
    by (metis append_take_drop_id map_append)
  then have "length (take k bufs @ drop k (data32 out)) = length (data32 out)"
    and "\<And>ch. ch < length (data32 out) \<Longrightarrow> length ((take k bufs @ drop k (data32 out)) ! ch) = length (data32 out ! ch)"
    by (metis length_map, metis length_map nth_map)
  then show ?thesis using assms(1) by (simp add: buffer_ok_def)
qed

lemma input_ptrs:
  assumes "process_ok pr" "unat (frames_count pr) \<le> 256"
  shows "\<exists>k ptrs. (if audio_inputs pr = [] then Inr (0, replicate 8 []) else channel_ptrs (hd (audio_inputs pr))) = Inr (k, ptrs) \<and>
    block_call ptrs (int (unat (frames_count pr))) (int k) \<and>
    (audio_inputs pr \<noteq> [] \<longrightarrow> k = min 8 (unat (ab_channel_count (hd (audio_inputs pr)))) \<and>
       (\<forall>ch < k. ptrs ! ch = data32 (hd (audio_inputs pr)) ! ch))"
proof (cases "audio_inputs pr")
  case Nil
  have "int (unat (frames_count pr)) \<le> 256" using assms(2) by linarith
  with Nil show ?thesis by (simp add: block_call_def)
next
  case (Cons inb rest)
  then have "buffer_ok (unat (frames_count pr)) inb" using assms(1) by (simp add: process_ok_def)
  note p = channel_ptrs_set [OF this refl] channel_ptrs_call [OF this assms(2) refl]
  from p(2) have "\<forall>ch < min 8 (unat (ab_channel_count inb)).
      (take (min 8 (unat (ab_channel_count inb))) (data32 inb) @ replicate (8 - min 8 (unat (ab_channel_count inb))) []) ! ch = data32 inb ! ch"
    by (simp add: nth_append)
  with Cons p(1,3) show ?thesis by (metis list.distinct(1) list.sel(1))
qed

context sdk_interface
begin

text \<open>Reading back to an output.\<close>

lemma read_back_block:
  assumes "ok c m" "env_ok e" "buffer_ok n out" "n \<le> 256" "queue_bounded (out_queue m)"
  shows "\<exists>j ptrs. channel_ptrs out = Inr (j, ptrs) \<and>
    ((\<exists>b bufs c' m' out'. api_read_output api e c ptrs (int n) (int j) m = Inr (b, bufs, c', m') \<and> ok c' m' \<and> in_queue m' = in_queue m \<and>
      api_disconnect api c' = api_disconnect api c \<and>
      out\<lparr>data32 := take j bufs @ drop j (data32 out)\<rparr> = out' \<and> buffer_ok n out' \<and>
      (if b then (\<exists>g. items (out_queue m) = g # items (out_queue m') \<and>
         delivers (copied (int n) g) g (int (min 8 (unat (ab_channel_count out)))) (data32 out')) else out' = out)) \<or>
     api_read_output api e c ptrs (int n) (int j) m = Inl Out_Of_Bounds \<and>
     read_overruns copied (data32 out) (int n) (int (min 8 (unat (ab_channel_count out)))) m)"
proof -
  define j where "j = min 8 (unat (ab_channel_count out))"
  define ptrs where "ptrs = take j (data32 out) @ replicate (8 - j) []"
  note op = channel_ptrs_set [OF assms(3) j_def, folded ptrs_def] channel_ptrs_call [OF assms(3,4) j_def, folded ptrs_def]
  from read_law [OF assms(1,2) op(3) assms(5)] show ?thesis
  proof (elim disjE exE conjE)
    assume r: "api_read_output api e c ptrs (int n) (int j) m = Inl Out_Of_Bounds" "read_overruns copied ptrs (int n) (int j) m"
    have "read_overruns copied (data32 out) (int n) (int j) m"
      using r(2) op(2) by (auto simp: read_overruns_def ptrs_def nth_append split: list.splits)
    with op(1) r(1) show ?thesis unfolding j_def [symmetric] by blast
  next
    fix b bufs c' m'
    assume r: "api_read_output api e c ptrs (int n) (int j) m = Inr (b, bufs, c', m')" "ok c' m'" "in_queue m' = in_queue m"
        "map length bufs = map length ptrs"
      and del: "if b then (\<exists>f. items (out_queue m) = f # items (out_queue m') \<and> delivers (copied (int n) f) f (int j) bufs)
        else bufs = ptrs \<and> items (out_queue m') = items (out_queue m)"
    let ?out = "out\<lparr>data32 := take j bufs @ drop j (data32 out)\<rparr>"
    have ok': "buffer_ok n ?out" using write_back_ok [OF assms(3) j_def op(2)] r(4) by (simp add: ptrs_def)
    have "j \<le> length bufs" using r(4) op(2) by (metis length_map length_append length_take min.absorb2 ptrs_def le_add1)
    then have "delivers k g (int j) bufs \<Longrightarrow> delivers k g (int j) (data32 ?out)" for k g by (simp add: delivers_def nth_append)
    moreover have "bufs = ptrs \<Longrightarrow> ?out = out" using op(2) by (simp add: ptrs_def)
    ultimately have "if b then (\<exists>g. items (out_queue m) = g # items (out_queue m') \<and> delivers (copied (int n) g) g (int j) (data32 ?out))
        else ?out = out" using del by (auto split: if_splits)
    with op(1) r(1-3) read_fds [OF r(1)] ok' show ?thesis unfolding j_def [symmetric] by blast
  qed
qed

lemma hardware_block:
  assumes "ok c m" "env_ok e" "process_ok pr" "unat (frames_count pr) \<le> 256" "queue_bounded (out_queue m)"
  shows "(\<exists>b pr' c' m'. hardware_path api e c pr m = Inr (b, pr', c', m') \<and> ok c' m' \<and>
    api_disconnect api c' = api_disconnect api c \<and> process_ok pr' \<and>
    (if b then by_hardware copied pr pr' m m' else pr' = pr)) \<or>
    hardware_path api e c pr m = Inl Out_Of_Bounds \<and> output_overruns copied pr m"
proof -
  let ?n = "unat (frames_count pr)"
  note n = sint_small [OF assms(4)]
  from input_ptrs [OF assms(3,4)] obtain k ptrs where
    p: "(if audio_inputs pr = [] then Inr (0, replicate 8 []) else channel_ptrs (hd (audio_inputs pr))) = Inr (k, ptrs)"
      "block_call ptrs (int ?n) (int k)"
    and ins: "audio_inputs pr \<noteq> [] \<longrightarrow> k = min 8 (unat (ab_channel_count (hd (audio_inputs pr)))) \<and>
       (\<forall>ch < k. ptrs ! ch = data32 (hd (audio_inputs pr)) ! ch)" by blast
  from dispatch_law [OF assms(1,2) p(2)] obtain sent c1 m1 where
    d: "api_dispatch api e c ptrs (int ?n) (int k) m = Inr (sent, c1, m1)" "ok c1 m1" "out_queue m1 = out_queue m"
    and q: "sent \<Longrightarrow> \<exists>f. items (in_queue m1) = items (in_queue m) @ [f] \<and> carries ptrs (int ?n) (int k) f" by blast
  show ?thesis
  proof (cases "sent \<and> audio_outputs pr \<noteq> []")
    case False
    then show ?thesis using p d dispatch_fds [OF d(1)] assms(3) n by (auto simp: hardware_path_def)
  next
    case True
    then obtain out rest where o: "audio_outputs pr = out # rest" by (cases "audio_outputs pr") auto
    have outb: "buffer_ok ?n out" "queue_bounded (out_queue m1)"
      using assms(3,5) o d(3) by (simp_all add: process_ok_def)
    from read_back_block [OF d(2) assms(2) outb(1) assms(4) outb(2)] obtain j optrs where
      cp: "channel_ptrs out = Inr (j, optrs)" and
      r: "(\<exists>b bufs c2 m2 out'. api_read_output api e c1 optrs (int ?n) (int j) m1 = Inr (b, bufs, c2, m2) \<and> ok c2 m2 \<and> in_queue m2 = in_queue m1 \<and>
          api_disconnect api c2 = api_disconnect api c1 \<and>
          out\<lparr>data32 := take j bufs @ drop j (data32 out)\<rparr> = out' \<and> buffer_ok ?n out' \<and>
          (if b then (\<exists>g. items (out_queue m1) = g # items (out_queue m2) \<and>
             delivers (copied (int ?n) g) g (int (min 8 (unat (ab_channel_count out)))) (data32 out')) else out' = out)) \<or>
        api_read_output api e c1 optrs (int ?n) (int j) m1 = Inl Out_Of_Bounds \<and>
        read_overruns copied (data32 out) (int ?n) (int (min 8 (unat (ab_channel_count out)))) m1" by blast
    have ov: "read_overruns copied bs fr ch m1 = read_overruns copied bs fr ch m" for bs fr ch
      by (simp add: read_overruns_def d(3))
    from r show ?thesis
    proof (elim disjE exE conjE)
      assume "api_read_output api e c1 optrs (int ?n) (int j) m1 = Inl Out_Of_Bounds"
        "read_overruns copied (data32 out) (int ?n) (int (min 8 (unat (ab_channel_count out)))) m1"
      then show ?thesis using p(1) d(1) True o cp n ov by (simp add: hardware_path_def output_overruns_def)
    next
      fix b bufs c2 m2 out'
      assume r: "api_read_output api e c1 optrs (int ?n) (int j) m1 = Inr (b, bufs, c2, m2)" "ok c2 m2" "in_queue m2 = in_queue m1"
          "api_disconnect api c2 = api_disconnect api c1"
          "out\<lparr>data32 := take j bufs @ drop j (data32 out)\<rparr> = out'" "buffer_ok ?n out'"
        and del: "if b then (\<exists>g. items (out_queue m1) = g # items (out_queue m2) \<and>
          delivers (copied (int ?n) g) g (int (min 8 (unat (ab_channel_count out)))) (data32 out')) else out' = out"
      let ?pr = "pr\<lparr>audio_outputs := out' # rest\<rparr>"
      have h: "hardware_path api e c pr m = Inr (b, ?pr, c2, m2)"
        using p(1) d(1) True o cp r(1,5) n by (simp add: hardware_path_def)
      have "by_hardware copied pr ?pr m m2" if b
      proof -
        obtain f where f: "items (in_queue m1) = items (in_queue m) @ [f]" "carries ptrs (int ?n) (int k) f" using q True by blast
        show ?thesis using o f r(3) n del d(3) ins that by (auto simp: by_hardware_def carries_def)
      qed
      moreover have "?pr = pr" if "\<not> b" using that del o by simp
      moreover have "process_ok ?pr" using assms(3) o r(6) by (simp add: process_ok_def)
      ultimately show ?thesis using h r(2,4) dispatch_fds [OF d(1)] by (cases b) auto
    qed
  qed
qed

lemma process_block:
  assumes "ok c m" "env_ok e" "process_ok pr" "unat (frames_count pr) \<le> 256" "queue_bounded (out_queue m)" "mp_sdk_ctx p = Some c"
  shows "(\<exists>pr' c' m'. plugin_process api e p pr m = Inr (pr', p\<lparr>mp_sdk_ctx := Some c'\<rparr>, m') \<and> ok c' m' \<and>
    (pr' = halved_outputs pr \<or> by_hardware copied pr pr' m m')) \<or>
    plugin_process api e p pr m = Inl Out_Of_Bounds \<and> output_overruns copied pr m"
  using hardware_block [OF assms(1-5)]
proof (elim disjE exE conjE)
  fix b pr' c' m'
  assume h: "hardware_path api e c pr m = Inr (b, pr', c', m')" "ok c' m'" "if b then by_hardware copied pr pr' m m' else pr' = pr"
  then show ?thesis
    using cpu_fallback_halves [OF assms(3)] assms(6) by (cases b) (auto simp: plugin_process_def)
qed (use assms(6) in \<open>simp add: plugin_process_def\<close>)

end

section \<open>The life cycle\<close>

text \<open>What the host does with an instance, and the descriptors opened and closed by it.\<close>

datatype 'e host_event = Activate 'e | Deactivate | Process_Block 'e clap_process

definition held_fds :: "('e, 'c) sdk_api \<Rightarrow> 'c my_plugin \<Rightarrow> int list" where
  "held_fds api p = (case mp_sdk_ctx p of None \<Rightarrow> [] | Some c \<Rightarrow> api_disconnect api c)"

fun host_step :: "('e, 'c) sdk_api \<Rightarrow> string \<Rightarrow> 'e host_event \<Rightarrow> 'c my_plugin \<times> dsp_shared_memory \<times> int list \<times> int list
    \<Rightarrow> ('c my_plugin \<times> dsp_shared_memory \<times> int list \<times> int list) outcome" where
  "host_step api ext (Activate e) (p, m, opened, cl) =
     (case plugin_activate api ext e p m of
        Inl err \<Rightarrow> Inl err | Inr (b, p', told) \<Rightarrow> Inr (p', m, opened @ held_fds api p', cl))"
| "host_step api ext Deactivate (p, m, opened, cl) =
     (let (p', fds) = plugin_deactivate api p in Inr (p', m, opened, cl @ fds))"
| "host_step api ext (Process_Block e pr) (p, m, opened, cl) =
     (case plugin_process api e p pr m of Inl err \<Rightarrow> Inl err | Inr (pr', p', m') \<Rightarrow> Inr (p', m', opened, cl))"

text \<open>The host activates an inactive plugin only, and processes with and deactivates an active one only.\<close>

fun alternating :: "bool \<Rightarrow> 'e host_event list \<Rightarrow> bool" where
  "alternating active [] = True"
| "alternating active (Activate e # evs) = (\<not> active \<and> alternating True evs)"
| "alternating active (Deactivate # evs) = (active \<and> alternating False evs)"
| "alternating active (Process_Block e pr # evs) = (active \<and> alternating True evs)"

context sdk_interface
begin

lemma process_keeps_fds:
  assumes "plugin_process api e p pr m = Inr (pr', p', m')"
  shows "held_fds api p' = held_fds api p"
proof (cases "mp_sdk_ctx p")
  case None
  with assms show ?thesis by (simp add: plugin_process_def split: sum.split_asm)
next
  case (Some c)
  with assms obtain b pr1 c1 where h: "hardware_path api e c pr m = Inr (b, pr1, c1, m')" and p': "p' = p\<lparr>mp_sdk_ctx := Some c1\<rparr>"
    by (force simp: plugin_process_def split: sum.split_asm if_split_asm)
  have "api_disconnect api c1 = api_disconnect api c"
    using h dispatch_fds read_fds by (fastforce simp: hardware_path_def Let_def split: sum.split_asm if_split_asm)
  then show ?thesis by (simp add: held_fds_def p' Some)
qed

lemma host_run_fds:
  assumes "for_each (host_step api ext) evs (p, m, opened, cl) = Inr (p', m', opened', cl')"
    and "alternating active evs" "\<not> active \<Longrightarrow> mp_sdk_ctx p = None" "opened = cl @ held_fds api p"
  shows "opened' = cl' @ held_fds api p'"
  using assms
proof (induction evs arbitrary: p m opened cl active)
  case (Cons ev evs)
  from Cons.prems(1) obtain p1 m1 o1 c1 where
    s: "host_step api ext ev (p, m, opened, cl) = Inr (p1, m1, o1, c1)"
    and r: "for_each (host_step api ext) evs (p1, m1, o1, c1) = Inr (p', m', opened', cl')"
    by (auto split: sum.split_asm)
  show ?case
  proof (cases ev)
    case (Activate e)
    then have "alternating True evs" "mp_sdk_ctx p = None" using Cons.prems(2,3) by auto
    moreover have "o1 = c1 @ held_fds api p1"
      using s Activate Cons.prems(4) \<open>mp_sdk_ctx p = None\<close> by (auto simp: held_fds_def split: sum.split_asm)
    ultimately show ?thesis using Cons.IH [OF r] by blast
  next
    case Deactivate
    then have "alternating False evs" using Cons.prems(2) by auto
    moreover have "mp_sdk_ctx p1 = None" "o1 = c1 @ held_fds api p1"
      using s Deactivate Cons.prems(4) by (auto simp: held_fds_def plugin_deactivate_def split: option.split_asm)
    ultimately show ?thesis using Cons.IH [OF r] by blast
  next
    case (Process_Block e pr)
    then have "alternating True evs" using Cons.prems(2) by auto
    moreover have "o1 = c1 @ held_fds api p1"
      using s Process_Block Cons.prems(4) process_keeps_fds by (force split: sum.split_asm)
    ultimately show ?thesis using Cons.IH [OF r] by blast
  qed
qed simp

lemma life_cycle:
  assumes "alternating False evs"
    and "for_each (host_step api ext) evs (snd (plugin_init p), m, [], []) = Inr (p', m', opened, cl)"
  shows "cl @ plugin_destroy api p' = opened"
  using host_run_fds [OF assms(2,1)] by (simp add: plugin_init_def held_fds_def plugin_destroy_def)

end

section \<open>A block longer than a frame\<close>

lemma call_ok_long:
  assumes "buffer_ok n b" "256 < n" "n < 2 ^ 31" "k = min 8 (unat (ab_channel_count b))"
  shows "call_ok (take k (data32 b) @ replicate (8 - k) []) (int n) (int k)"
proof -
  have "k \<le> 8" "k \<le> length (data32 b)" "\<forall>ch < k. n \<le> length (data32 b ! ch)"
    using assms(1,4) by (auto simp: buffer_ok_def)
  moreover from this have "clamp_channels (int k) = k" "clamp_frames (int n) = 256"
    using assms(2) by (simp_all add: clamp_channels_def clamp_frames_def)
  ultimately show ?thesis using assms(2) by (auto simp: call_ok_def list_all_length nth_append)
qed

text \<open>A healthy context of the C++ library with room for a block and a processed one waiting.\<close>

definition answering :: "cpp_env \<Rightarrow> sdk_ctx \<Rightarrow> dsp_shared_memory \<Rightarrow> bool" where
  "answering e c m \<longleftrightarrow> ce_linux e \<and> ctx_ok c m \<and> last_error (ctx_block c m) = NO_ERROR \<and>
     \<not> 10 < heartbeat_stalled_count (watchdog (heartbeat (ctx_block c m)) c) \<and>
     length (items (in_queue m)) \<noteq> 15 \<and> signal_ok (ce_dispatch e) \<and> 0 < poll_result (ce_readback e) \<and>
     items (out_queue m) \<noteq> [] \<and> frame_bounded (hd (items (out_queue m)))"

lemma answering_dispatch:
  assumes "answering e c m" "call_ok buffers frames channels"
  shows "\<exists>c1 m1. sdk_dispatch True (ce_dispatch e) (Some c) buffers frames channels m = Inr (True, Some c1, m1, 1) \<and>
    ctx_ok c1 m1 \<and> out_queue m1 = out_queue m"
proof -
  from assms(1) have a: "ctx_ok c m" "last_error (ctx_block c m) = NO_ERROR"
    "\<not> 10 < heartbeat_stalled_count (watchdog (heartbeat (ctx_block c m)) c)"
    "length (items (in_queue m)) \<noteq> 15" "signal_ok (ce_dispatch e)" by (simp_all add: answering_def)
  from dispatch_step [OF a(1,2) assms(2) a(3), of "ce_dispatch e"] a(4,5) obtain c1 m1 where
    d: "sdk_dispatch True (ce_dispatch e) (Some c) buffers frames channels m = Inr (True, Some c1, m1, 1)"
    and m1: "shm_wf m1" "m1\<lparr>in_queue := in_queue m\<rparr> = m" by auto
  from dispatch_context [OF d a(1,2)] m1(1) a(1) have "ctx_ok c1 m1" by (simp add: ctx_ok_def)
  moreover have "out_queue m1 = out_queue m"
    using m1(2) by (metis dsp_shared_memory.select_convs(3) dsp_shared_memory.update_convs(2) dsp_shared_memory.surjective)
  ultimately show ?thesis using d by blast
qed

text \<open>
  The C++ library answers and the oldest processed block is longer than a channel of the output: the
  read-back writes past its end.
\<close>

lemma overrun_block:
  assumes "answering e c m" "process_ok pr" "unat (frames_count pr) \<le> 256" "output_overruns cpp_copied pr m" "mp_sdk_ctx p = Some c"
  shows "plugin_process cpp_api e p pr m = Inl Out_Of_Bounds"
proof -
  let ?n = "unat (frames_count pr)"
  note n = sint_small [OF assms(3)]
  obtain out rest where o: "audio_outputs pr = out # rest" using assms(4) by (auto simp: output_overruns_def split: list.splits)
  then have ob: "buffer_ok ?n out" using assms(2) by (simp add: process_ok_def)
  define j where "j = min 8 (unat (ab_channel_count out))"
  define optrs where "optrs = take j (data32 out) @ replicate (8 - j) []"
  note op = channel_ptrs_set [OF ob j_def, folded optrs_def]
  obtain f fs where f: "items (out_queue m) = f # fs" "frame_bounded f"
    and over: "\<exists>ch < min (unat (channel_count f)) j. length (data32 out ! ch) < unat (frame_count f)"
    using assms(1,4) o by (auto simp: answering_def output_overruns_def read_overruns_def cpp_copied_def j_def split: list.splits)
  from input_ptrs [OF assms(2,3)] obtain k ptrs where
    p: "(if audio_inputs pr = [] then Inr (0, replicate 8 []) else channel_ptrs (hd (audio_inputs pr))) = Inr (k, ptrs)"
      "block_call ptrs (int ?n) (int k)" by blast
  from answering_dispatch [OF assms(1) block_call_ok [OF p(2)]] obtain c1 m1 where
    d: "sdk_dispatch True (ce_dispatch e) (Some c) ptrs (int ?n) (int k) m = Inr (True, Some c1, m1, 1)"
      "ctx_ok c1 m1" "out_queue m1 = out_queue m" by blast
  have a: "ce_linux e" "0 < poll_result (ce_readback e)" using assms(1) by (simp_all add: answering_def)
  have f1: "items (out_queue m1) = f # fs" using f(1) d(3) by simp
  have jb: "0 \<le> int j" "int j < 2 ^ 31" "min (unat (channel_count f)) (nat (int j)) \<le> length optrs"
    using op(2) by (auto simp: j_def optrs_def)
  have neg: "\<not> (\<forall>ch < min (unat (channel_count f)) (nat (int j)). unat (frame_count f) \<le> length (optrs ! ch))"
    using over op(2) by (auto simp: optrs_def nth_append not_le)
  from read_step [where frames = "int ?n", OF d(2) a(2) f1 f(2) jb(1,2) refl jb(3)]
  have "sdk_read_output True (ce_readback e) (Some c1) optrs (int ?n) (int j) m1 = Inl Out_Of_Bounds"
    unfolding if_not_P [OF neg] .
  then show ?thesis using p(1) d(1) o op(1) n a(1) assms(5) by (simp add: plugin_process_def hardware_path_def cpp_api_def)
qed

lemma drop_received:
  assumes "frame_bounded f" "k \<le> unat (channel_count f)" "ch < length buffers" "ch < k \<Longrightarrow> 256 \<le> length (buffers ! ch)"
  shows "drop 256 (received f k buffers ! ch) = drop 256 (buffers ! ch)"
proof (cases "ch < k")
  case True
  have n: "unat (frame_count f) \<le> 256" using assms(1) by (simp add: frame_bounded_def MAX_FRAMES_def)
  have l: "length (channel_block (samples f) ch (unat (frame_count f))) = unat (frame_count f)"
    by (rule frame_channel_length [OF assms(1)]) (use True assms(2) in simp)
  show ?thesis using True n l assms(3) by (simp add: received_def Let_def)
next
  case False
  with assms(3) show ?thesis by (simp add: received_def Let_def)
qed

lemma long_block:
  assumes "answering e c m" "process_ok pr" "256 < unat (frames_count pr)" "unat (frames_count pr) < 2 ^ 31"
    and "audio_inputs pr = inb # ins" "audio_outputs pr = out # rest" "mp_sdk_ctx p = Some c"
  shows "\<exists>pr' p' m' out'. plugin_process cpp_api e p pr m = Inr (pr', p', m') \<and> audio_outputs pr' = out' # rest \<and>
    length (data32 out') = length (data32 out) \<and> (\<forall>ch < length (data32 out). drop 256 (data32 out' ! ch) = drop 256 (data32 out ! ch))"
proof -
  let ?n = "unat (frames_count pr)"
  note n = sint_nonneg [OF assms(4)]
  have bufs: "buffer_ok ?n inb" "buffer_ok ?n out" using assms(2,5,6) by (simp_all add: process_ok_def)
  define k where "k = min 8 (unat (ab_channel_count inb))"
  define j where "j = min 8 (unat (ab_channel_count out))"
  define optrs where "optrs = take j (data32 out) @ replicate (8 - j) []"
  note calls = call_ok_long [OF bufs(1) assms(3,4) k_def]
  have a: "ce_linux e" "0 < poll_result (ce_readback e)" using assms(1) by (simp_all add: answering_def)
  obtain f fs where f: "items (out_queue m) = f # fs" "frame_bounded f"
    using assms(1) by (cases "items (out_queue m)") (auto simp: answering_def)
  from answering_dispatch [OF assms(1) calls] obtain c1 m1 where
    d: "sdk_dispatch True (ce_dispatch e) (Some c) (take k (data32 inb) @ replicate (8 - k) []) (int ?n) (int k) m = Inr (True, Some c1, m1, 1)"
    and c1: "ctx_ok c1 m1" and m1: "out_queue m1 = out_queue m" by blast
  have f1: "items (out_queue m1) = f # fs" using f(1) m1 by simp
  define i where "i = min (unat (channel_count f)) (nat (int j))"
  have jl: "j \<le> length (data32 out)" using bufs(2) by (simp add: buffer_ok_def j_def min.coboundedI2)
  then have len: "length optrs = 8" "j \<le> 8" by (simp_all add: optrs_def j_def)
  have ij: "i \<le> j" "i \<le> unat (channel_count f)" by (simp_all add: i_def)
  with len have i: "i \<le> length optrs" "i \<le> j" "i \<le> unat (channel_count f)" by simp_all
  have long: "256 \<le> length (optrs ! ch)" if "ch < j" for ch
    using that jl bufs(2) assms(3) by (auto simp: optrs_def nth_append buffer_ok_def j_def)
  have "unat (frame_count f) \<le> 256" using f(2) by (simp add: frame_bounded_def MAX_FRAMES_def)
  then have within: "\<forall>ch < i. unat (frame_count f) \<le> length (optrs ! ch)" using long i(2) by (meson le_trans less_le_trans)
  have jb: "0 \<le> int j" "int j < 2 ^ 31" using len(2) by simp_all
  obtain c2 q where
    r: "sdk_read_output True (ce_readback e) (Some c1) optrs (int ?n) (int j) m1 =
      Inr (True, received f i optrs, Some c2, m1\<lparr>out_queue := q\<rparr>)"
    using read_step [where frames = "int ?n", OF c1 a(2) f1 f(2) jb i_def i(1), unfolded if_P [OF within]] by blast
  let ?out = "out\<lparr>data32 := take j (received f i optrs) @ drop j (data32 out)\<rparr>"
  have "plugin_process cpp_api e p pr m = Inr (pr\<lparr>audio_outputs := ?out # rest\<rparr>, p\<lparr>mp_sdk_ctx := Some c2\<rparr>, m1\<lparr>out_queue := q\<rparr>)"
    using assms(5-7) a(1) d r n channel_ptrs_set [OF bufs(1) k_def] channel_ptrs_set [OF bufs(2) j_def]
    by (simp add: plugin_process_def hardware_path_def cpp_api_def optrs_def)
  moreover have l: "length (received f i optrs) = 8" using jl by (simp add: received_def Let_def optrs_def j_def)
  then have "length (data32 ?out) = length (data32 out)" using jl by (simp add: j_def)
  moreover have "drop 256 (data32 ?out ! ch) = drop 256 (data32 out ! ch)" if "ch < length (data32 out)" for ch
  proof (cases "ch < j")
    case True
    have "drop 256 (received f i optrs ! ch) = drop 256 (optrs ! ch)"
      by (rule drop_received [OF f(2) i(3)]) (use True long len in simp_all)
    with True jl l show ?thesis by (simp add: nth_append optrs_def j_def)
  next
    case False
    with that jl l len(2) show ?thesis by (simp add: nth_append min_absorb2)
  qed
  ultimately show ?thesis by auto
qed

section \<open>The properties\<close>

definition demo_out_buffer :: clap_audio_buffer where
  "demo_out_buffer = \<lparr>data32 = [replicate 300 f32_zero, replicate 300 (flit binary32 1)], ab_channel_count = 2\<rparr>"

definition demo_in_buffer :: clap_audio_buffer where
  "demo_in_buffer = \<lparr>data32 = [replicate 300 (flit binary32 1)], ab_channel_count = 1\<rparr>"

definition demo_block :: "u32 \<Rightarrow> clap_process" where
  "demo_block n = \<lparr>frames_count = n, audio_inputs = [demo_in_buffer], audio_outputs = [demo_out_buffer]\<rparr>"

definition demo_plugin :: "sdk_ctx option \<Rightarrow> sdk_ctx my_plugin" where
  "demo_plugin c = \<lparr>mp_host = \<lparr>host_extension = (\<lambda>s. False)\<rparr>, host_dsp_accel = False, mp_sdk_ctx = c\<rparr>"

lemma demo_block_ok: "unat n \<le> 300 \<Longrightarrow> process_ok (demo_block n)"
  by (auto simp: process_ok_def demo_block_def buffer_ok_def demo_in_buffer_def demo_out_buffer_def less_2_cases_iff all_conj_distrib)

text \<open>
  Without a connection the plugin computes its fallback: every output with an input of the same number
  gets half of each input channel and silence in the channels the input does not have, in the first
  \<open>frames_count\<close> samples and nowhere else; the other outputs, the instance and the shared memory stay.
\<close>

theorem plugin_fallback_halves:
  assumes "process_ok pr" "mp_sdk_ctx p = None"
  shows "plugin_process api e p pr m = Inr (halved_outputs pr, p, m)"
  using cpu_fallback_halves [OF assms(1)] assms(2) by (simp add: plugin_process_def)

theorem plugin_fallback_halves_witness:
  "plugin_process cpp_api e (demo_plugin None) (demo_block 64) shm_zero = Inr (halved_outputs (demo_block 64), demo_plugin None, shm_zero)"
  by (rule plugin_fallback_halves) (simp_all add: demo_block_ok demo_plugin_def)

lemma c_never_overruns:
  assumes "process_ok pr"
  shows "\<not> output_overruns c_copied pr m"
proof
  assume "output_overruns c_copied pr m"
  then obtain out rest ch where "audio_outputs pr = out # rest" "ch < unat (ab_channel_count out)"
    "length (data32 out ! ch) < unat (frames_count pr)"
    by (auto simp: output_overruns_def read_overruns_def c_copied_def split: list.splits)
  with assms show False by (auto simp: process_ok_def buffer_ok_def dest: leD)
qed

text \<open>
  C17: a block of at most 256 samples, with a connected library and whatever the system answers. With the
  C++ library \<open>process\<close> either stays within its arrays, and then the outputs are those of the fallback or the
  block was queued for the worker and the oldest processed block is in the first output; or it writes
  out of bounds, and that only when the oldest processed block is longer than a channel of the first
  output, because as many samples are copied as the processed block has. It is certain to do so when
  that is the case and the accelerator answers. With the C library, which copies as many samples as the
  host asks for, \<open>process\<close> always stays within its arrays.
\<close>

theorem plugin_process_in_bounds:
  assumes "process_ok pr" "unat (frames_count pr) \<le> 256" "queue_bounded (out_queue m)"
    and "cpp_ok c m" "frame_wf (ce_stack e')"
  shows "((\<exists>pr' c1 m'. plugin_process cpp_api e (p\<lparr>mp_sdk_ctx := Some c\<rparr>) pr m = Inr (pr', p\<lparr>mp_sdk_ctx := Some c1\<rparr>, m') \<and>
        cpp_ok c1 m' \<and> (pr' = halved_outputs pr \<or> by_hardware cpp_copied pr pr' m m')) \<or>
      plugin_process cpp_api e (p\<lparr>mp_sdk_ctx := Some c\<rparr>) pr m = Inl Out_Of_Bounds \<and> output_overruns cpp_copied pr m) \<and>
    (answering e c m \<and> output_overruns cpp_copied pr m \<longrightarrow>
      plugin_process cpp_api e (p\<lparr>mp_sdk_ctx := Some c\<rparr>) pr m = Inl Out_Of_Bounds) \<and>
    (\<exists>pr' c1 m'. plugin_process c_api e' (p'\<lparr>mp_sdk_ctx := Some c'\<rparr>) pr m = Inr (pr', p'\<lparr>mp_sdk_ctx := Some c1\<rparr>, m') \<and>
      shm_wf m' \<and> (pr' = halved_outputs pr \<or> by_hardware c_copied pr pr' m m'))"
proof (intro conjI impI)
  show "(\<exists>pr' c1 m'. plugin_process cpp_api e (p\<lparr>mp_sdk_ctx := Some c\<rparr>) pr m = Inr (pr', p\<lparr>mp_sdk_ctx := Some c1\<rparr>, m') \<and>
        cpp_ok c1 m' \<and> (pr' = halved_outputs pr \<or> by_hardware cpp_copied pr pr' m m')) \<or>
      plugin_process cpp_api e (p\<lparr>mp_sdk_ctx := Some c\<rparr>) pr m = Inl Out_Of_Bounds \<and> output_overruns cpp_copied pr m"
    using cpp.process_block [OF assms(4) TrueI assms(1-3), of "p\<lparr>mp_sdk_ctx := Some c\<rparr>" e] by simp
  show "plugin_process cpp_api e (p\<lparr>mp_sdk_ctx := Some c\<rparr>) pr m = Inl Out_Of_Bounds"
    if "answering e c m \<and> output_overruns cpp_copied pr m"
    by (rule overrun_block [OF _ assms(1,2)]) (use that in simp_all)
  have "shm_wf m" using assms(4) by (simp add: cpp_ok_def)
  moreover note c_never_overruns [OF assms(1), of m]
  ultimately show "\<exists>pr' c1 m'. plugin_process c_api e' (p'\<lparr>mp_sdk_ctx := Some c'\<rparr>) pr m = Inr (pr', p'\<lparr>mp_sdk_ctx := Some c1\<rparr>, m') \<and>
      shm_wf m' \<and> (pr' = halved_outputs pr \<or> by_hardware c_copied pr pr' m m')"
    using clib.process_block [OF _ assms(5,1-3), of "p'\<lparr>mp_sdk_ctx := Some c'\<rparr>" c'] by simp
qed

definition demo_cpp_env :: cpp_env where
  "demo_cpp_env = \<lparr>ce_linux = True, ce_connect = demo_connect, ce_dispatch = demo_dispatch, ce_readback = demo_readback\<rparr>"

definition demo_c_env :: c_env where
  "demo_c_env = \<lparr>ce_c_connect = demo_c_connect, ce_stack = frame_zero, ce_write_ok = True, ce_poll = 1\<rparr>"

lemma demo_answering: "answering demo_cpp_env demo_ctx demo_out_shm"
proof -
  have "ctx_block demo_ctx demo_out_shm = wcb_zero" "in_queue demo_out_shm = in_queue shm_zero"
    by (simp_all add: ctx_block_def demo_ctx_def new_ctx_def demo_out_shm_def)
  then show ?thesis
    using demo_out_shm_facts
    by (simp add: answering_def demo_cpp_env_def) (simp add: wcb_zero_def watchdog_def demo_ctx_def new_ctx_def demo_dispatch_def demo_readback_def)
qed

text \<open>A host with 32 samples in each channel, and a processed block of 64 samples.\<close>

definition demo_short_block :: clap_process where
  "demo_short_block = \<lparr>frames_count = 32, audio_inputs = [], audio_outputs = [\<lparr>data32 = [replicate 32 f32_zero], ab_channel_count = 1\<rparr>]\<rparr>"

theorem plugin_process_in_bounds_witness:
  "(\<exists>pr' c1 m'. plugin_process cpp_api demo_cpp_env (demo_plugin (Some demo_ctx)) (demo_block 64) demo_out_shm =
      Inr (pr', demo_plugin (Some c1), m') \<and> cpp_ok c1 m' \<and>
    (pr' = halved_outputs (demo_block 64) \<or> by_hardware cpp_copied (demo_block 64) pr' demo_out_shm m')) \<and>
   plugin_process cpp_api demo_cpp_env (demo_plugin (Some demo_ctx)) demo_short_block demo_out_shm = Inl Out_Of_Bounds"
proof -
  have pr: "process_ok (demo_block 64)" "unat (frames_count (demo_block 64)) \<le> 256"
    by (simp_all add: demo_block_ok) (simp add: demo_block_def)
  have sh: "process_ok demo_short_block" "unat (frames_count demo_short_block) \<le> 256"
    by (simp_all add: process_ok_def demo_short_block_def buffer_ok_def)
  have m: "queue_bounded (out_queue demo_out_shm)" "cpp_ok demo_ctx demo_out_shm" "frame_wf (ce_stack demo_c_env)"
    using demo_out_shm_facts by (simp_all add: queue_bounded_def ctx_ok_def cpp_ok_def demo_c_env_def)
  have "\<not> output_overruns cpp_copied (demo_block 64) demo_out_shm"
    by (auto simp: output_overruns_def demo_block_def demo_out_buffer_def read_overruns_def demo_out_shm_facts(2) cpp_copied_def
        demo_output_def less_2_cases_iff)
  moreover have "output_overruns cpp_copied demo_short_block demo_out_shm"
    by (simp add: output_overruns_def demo_short_block_def read_overruns_def demo_out_shm_facts(2) cpp_copied_def demo_output_def)
  moreover have "demo_plugin (Some c) = (demo_plugin None)\<lparr>mp_sdk_ctx := Some c\<rparr>" for c by (simp add: demo_plugin_def)
  ultimately show ?thesis
    using plugin_process_in_bounds [OF pr m, of demo_cpp_env "demo_plugin None"]
      plugin_process_in_bounds [OF sh m, of demo_cpp_env "demo_plugin None"] demo_answering by simp
qed

text \<open>
  C18: a block of more than 256 samples is processed in part. When the accelerator answers, the plugin takes
  the block for processed, although only its first 256 samples were sent and read back: from sample 256
  on every channel of the output is what it was before the call.
\<close>

theorem plugin_long_block_truncated:
  assumes "answering e c m" "process_ok pr" "256 < unat (frames_count pr)" "unat (frames_count pr) < 2 ^ 31"
    and "audio_inputs pr = inb # ins" "audio_outputs pr = out # rest" "mp_sdk_ctx p = Some c"
  shows "\<exists>pr' p' m' out'. plugin_process cpp_api e p pr m = Inr (pr', p', m') \<and> audio_outputs pr' = out' # rest \<and>
    length (data32 out') = length (data32 out) \<and> (\<forall>ch < length (data32 out). drop 256 (data32 out' ! ch) = drop 256 (data32 out ! ch))"
  by (rule long_block [OF assms])

theorem plugin_long_block_truncated_witness:
  "\<exists>pr' p' m' out'. plugin_process cpp_api demo_cpp_env (demo_plugin (Some demo_ctx)) (demo_block 300) demo_out_shm = Inr (pr', p', m') \<and>
    audio_outputs pr' = [out'] \<and> drop 256 (data32 out' ! 1) = replicate 44 (flit binary32 1)"
proof -
  from plugin_long_block_truncated [OF demo_answering demo_block_ok, of 300 demo_in_buffer "[]" demo_out_buffer "[]" "demo_plugin (Some demo_ctx)"]
  have "\<exists>pr' p' m' out'. plugin_process cpp_api demo_cpp_env (demo_plugin (Some demo_ctx)) (demo_block 300) demo_out_shm = Inr (pr', p', m') \<and>
      audio_outputs pr' = [out'] \<and> length (data32 out') = length (data32 demo_out_buffer) \<and>
      (\<forall>ch < length (data32 demo_out_buffer). drop 256 (data32 out' ! ch) = drop 256 (data32 demo_out_buffer ! ch))"
    by (simp add: demo_block_def demo_plugin_def)
  moreover have "drop 256 (data32 demo_out_buffer ! 1) = replicate 44 (flit binary32 1)" "1 < length (data32 demo_out_buffer)"
    by (simp_all add: demo_out_buffer_def)
  ultimately show ?thesis by metis
qed

text \<open>
  C37: no context of the library leaks over the life of an instance: in any run that activates the plugin
  only when it is inactive, and deactivates or processes only when it is active, the descriptors closed
  up to and including \<open>destroy\<close> are those of the contexts that the activations opened, each once and in order.
\<close>

theorem plugin_life_cycle_closes:
  assumes "alternating False evs"
    and "for_each (host_step cpp_api ext) evs (snd (plugin_init p), m, [], []) = Inr (p', m', opened, cl)"
  shows "cl @ plugin_destroy cpp_api p' = opened"
  by (rule cpp.life_cycle [OF assms])

definition demo_open_env :: cpp_env where
  "demo_open_env = demo_cpp_env\<lparr>ce_connect := demo_connect\<lparr>fd_messages := (Rights 4, Rights 5, Rights 6)\<rparr>\<rparr>"

theorem plugin_life_cycle_closes_witness:
  "\<exists>p' m' opened cl. for_each (host_step cpp_api ''clap.latency'') [Activate demo_open_env, Deactivate, Activate demo_open_env]
      (snd (plugin_init (demo_plugin None)), shm_zero, [], []) = Inr (p', m', opened, cl) \<and>
    opened = [4, 5, 6, 3, 4, 5, 6, 3] \<and> cl @ plugin_destroy cpp_api p' = opened"
proof -
  let ?evs = "[Activate demo_open_env, Deactivate, Activate demo_open_env]"
  let ?c = "(new_ctx DSP_ACCEL_TYPE_MASSIVELY_PARALLEL (flit binary32 150))\<lparr>cx_socket_fd := 3, cx_worker_id := 1, cx_shm_fd := 4,
    cx_eventfd_send := 5, cx_eventfd_recv := 6, cx_shm := True\<rparr>"
  have k: "control_block shm_zero 1 = Inr wcb_zero" by (simp add: control_block_def)
  have "api_connect cpp_api demo_open_env DSP_ACCEL_TYPE_MASSIVELY_PARALLEL (flit binary32 150) shm_zero = Inr (Some ?c)"
    by (simp add: cpp_api_def sdk_connect_def demo_open_env_def demo_cpp_env_def demo_connect_def k) (simp add: new_ctx_def wcb_zero_def)
  moreover have "api_disconnect cpp_api ?c = [4, 5, 6, 3]"
    by (simp add: cpp_api_def disconnect_fds) (simp add: ctx_fds_def)
  ultimately obtain p' m' where r: "for_each (host_step cpp_api ''clap.latency'') ?evs (snd (plugin_init (demo_plugin None)), shm_zero, [], [])
      = Inr (p', m', [4, 5, 6, 3, 4, 5, 6, 3], [4, 5, 6, 3])"
    by (simp add: plugin_activate_def plugin_deactivate_def plugin_init_def held_fds_def)
  have "alternating False ?evs" by simp
  from plugin_life_cycle_closes [OF this r] r show ?thesis by blast
qed

end
