(* ===== verification/Plugin_System.thy ===== *)
theory Plugin_System
  imports Plugin_Spec System
begin

text \<open>
  The example plugin on top of the whole data path: its block goes through the C++ library to the worker
  and comes back in the same call, because the worker runs while the library waits for its answer.
\<close>

section \<open>The library of a running system\<close>

text \<open>
  A context is that of the C++ library together with the worker of the channel, which runs one iteration
  while \<open>dsp_accel_sdk_read_output\<close> waits in \<open>poll\<close>.
\<close>

record live_env =
  le_call :: cpp_env
  le_work :: loop_env

type_synonym live_ctx = "sdk_ctx \<times> (dsp_vulkan_context vulkan_backend + npu_backend) worker"

definition live_dispatch :: "live_env \<Rightarrow> live_ctx \<Rightarrow> f32 list list \<Rightarrow> int \<Rightarrow> int \<Rightarrow> dsp_shared_memory
    \<Rightarrow> (bool \<times> live_ctx \<times> dsp_shared_memory) outcome" where
  "live_dispatch e x buffers frames channels m =
     (case api_dispatch cpp_api (le_call e) (fst x) buffers frames channels m of
        Inl err \<Rightarrow> Inl err
      | Inr (b, c, m') \<Rightarrow> Inr (b, (c, snd x), m'))"

definition live_read :: "vk_api \<Rightarrow> u8 list \<Rightarrow> live_env \<Rightarrow> live_ctx \<Rightarrow> f32 list list \<Rightarrow> int \<Rightarrow> int \<Rightarrow> dsp_shared_memory
    \<Rightarrow> (bool \<times> f32 list list \<times> live_ctx \<times> dsp_shared_memory) outcome" where
  "live_read api front e x buffers frames channels m =
     (case worker_iteration (real_ops api) front (le_work e) ((snd x)\<lparr>shm := m\<rparr>) of
        Inl err \<Rightarrow> Inl err
      | Inr w \<Rightarrow>
        (case api_read_output cpp_api (le_call e) (fst x) buffers frames channels (shm w) of
           Inl err \<Rightarrow> Inl err
         | Inr (b, bufs, c, m') \<Rightarrow> Inr (b, bufs, (c, w\<lparr>shm := m'\<rparr>), m')))"

definition live_api :: "vk_api \<Rightarrow> u8 list \<Rightarrow> (dsp_vulkan_context vulkan_backend + npu_backend) worker \<Rightarrow> (live_env, live_ctx) sdk_api" where
  "live_api api front w = \<lparr>
     api_connect = (\<lambda>e ty cost m. map_sum id (map_option (\<lambda>c. (c, w))) (api_connect cpp_api (le_call e) ty cost m)),
     api_disconnect = (\<lambda>x. api_disconnect cpp_api (fst x)),
     api_dispatch = live_dispatch, api_read_output = live_read api front\<rparr>"

section \<open>A block of the plugin\<close>

text \<open>The samples of fewer channels than the block has, copied over the buffers of the caller.\<close>

lemma holds_received_fewer: "holds n k buffers f \<Longrightarrow> j \<le> k \<Longrightarrow> received f j out = echoed n j buffers out"
  by (simp add: holds_def received_def echoed_def Let_def)

lemma echoed_append:
  "k \<le> length xs \<Longrightarrow> echoed n k buffers (xs @ ys) = echoed n k buffers xs @ ys"
  by (rule nth_equalityI) (auto simp: echoed_def nth_append)

text \<open>What comes back for the first output of the host, whose channels are the first \<open>j\<close> pointers.\<close>

lemma echoed_back:
  assumes "k \<le> j" "j \<le> length out" "j \<le> 8" "\<And>ch. ch < k \<Longrightarrow> ptrs ! ch = ins ! ch"
  shows "take j (echoed n k ptrs (take j out @ replicate (8 - j) [])) @ drop j out = echoed n k ins out"
proof -
  have l: "length (take j out) = j" using assms(2) by simp
  have "echoed n k ptrs (take j out @ replicate (8 - j) []) = echoed n k ptrs (take j out) @ replicate (8 - j) []"
    using assms(1) l by (intro echoed_append) simp
  moreover have "length (echoed n k ptrs (take j out)) = j" by (simp add: echoed_def assms(2))
  moreover have "echoed n k ptrs xs = echoed n k ins xs" for xs using assms(4) by (auto simp: echoed_def)
  moreover have "echoed n k ins (take j out) @ drop j out = echoed n k ins out"
    using echoed_append [of k "take j out" n ins "drop j out"] assms(1) l by simp
  ultimately show ?thesis by simp
qed

lemma live_block:
  assumes w: "worker_ok real_node_ok w" "passes_audio w" "idle (shm w)"
    and c: "ctx_ok c (shm w)" "last_error (ctx_block c (shm w)) = NO_ERROR"
      "\<not> 10 < heartbeat_stalled_count (watchdog (heartbeat (ctx_block c (shm w))) c)"
    and call: "block_call ptrs (int n) (int k)" "0 < n" "block_call out (int n) (int j)"
    and env: "ce_linux (le_call e)" "signal_ok (ce_dispatch (le_call e))" "env_ok (le_work e)" "poll_ready (le_work e)" "read_ok (le_work e)"
      "0 < poll_result (ce_readback (le_call e))"
  shows "\<exists>c1 m1 x m'. live_dispatch e (c, w) ptrs (int n) (int k) (shm w) = Inr (True, (c1, w), m1) \<and>
    live_read api front e (c1, w) out (int n) (int j) m1 = Inr (True, echoed n (min k j) ptrs out, x, m')"
proof -
  have n: "clamp_frames (int n) = n" "clamp_channels (int k) = k" "n \<le> 256" "k \<le> 8" "j \<le> 8"
    using call(1,3) by (auto simp: block_call_def clamp_frames_def clamp_channels_def)
  from audio_exchange [OF w c block_call_ok [OF call(1)] _ env(2-5), of api front] call(2) n(1,2) obtain c1 m1 w' g where
    x: "sdk_dispatch True (ce_dispatch (le_call e)) (Some c) ptrs (int n) (int k) (shm w) = Inr (True, Some c1, m1, 1)"
      "worker_iteration (real_ops api) front (le_work e) (w\<lparr>shm := m1\<rparr>) = Inr w'" "ctx_ok c1 (shm w')"
      "items (out_queue (shm w')) = [g]" "holds n k ptrs g" by auto
  have g: "frame_bounded g" "unat (frame_count g) = n" "unat (channel_count g) = k" using x(5) by (simp_all add: holds_def)
  have "call_ok out (int (unat (frame_count g))) (int j)" unfolding g(2) by (rule block_call_ok [OF call(3)])
  moreover have "int j < 2 ^ 31" using n(5) by simp
  ultimately obtain c' q where
    r: "sdk_read_output True (ce_readback (le_call e)) (Some c1) out (int n) (int j) (shm w') =
      Inr (True, received g (min k j) out, Some c', (shm w')\<lparr>out_queue := q\<rparr>)"
    using read_something [OF x(3) env(6) x(4) g(1), of out "int j" "int n"] g(3) by auto
  have e: "received g (min k j) out = echoed n (min k j) ptrs out" using x(5) by (rule holds_received_fewer) simp
  show ?thesis
    using x(1,2) r env(1) by (simp add: live_dispatch_def live_read_def cpp_api_def e)
qed

text \<open>
  C6: The plugin's block goes through the whole data path in one call: with a worker that is idle and has a
  device of either kind, and a block of 1 to 256 samples, the plugin's process call succeeds and the
  first output holds the input unchanged, in the channels that both have of the first 8, whatever the
  parameters of the device; the other channels keep what they held. Without a context the same block is
  halved, so falling back to the CPU changes the level.
\<close>

theorem plugin_hears_worker:
  assumes w: "worker_ok real_node_ok w" "passes_audio w" "idle (shm w)"
    and c: "ctx_ok c (shm w)" "last_error (ctx_block c (shm w)) = NO_ERROR"
      "\<not> 10 < heartbeat_stalled_count (watchdog (heartbeat (ctx_block c (shm w))) c)"
    and pr: "process_ok pr" "unat (frames_count pr) \<le> 256" "0 < unat (frames_count pr)" "audio_inputs pr = inb # ins" "audio_outputs pr = out # outs"
    and env: "ce_linux (le_call e)" "signal_ok (ce_dispatch (le_call e))" "env_ok (le_work e)" "poll_ready (le_work e)" "read_ok (le_work e)"
      "0 < poll_result (ce_readback (le_call e))"
  shows "(\<exists>p' m'. plugin_process (live_api api front w0) e (p\<lparr>mp_sdk_ctx := Some (c, w)\<rparr>) pr (shm w) =
      Inr (pr\<lparr>audio_outputs := out\<lparr>data32 := echoed (unat (frames_count pr))
        (min (min 8 (unat (ab_channel_count inb))) (min 8 (unat (ab_channel_count out)))) (data32 inb) (data32 out)\<rparr> # outs\<rparr>, p', m')) \<and>
    (\<exists>p' m'. plugin_process (live_api api front w0) e (p\<lparr>mp_sdk_ctx := None\<rparr>) pr (shm w) = Inr (halved_outputs pr, p', m'))"
proof
  let ?n = "unat (frames_count pr)" and ?j = "min 8 (unat (ab_channel_count out))"
  from input_ptrs [OF pr(1,2)] pr(4) obtain k ptrs where
    p: "channel_ptrs inb = Inr (k, ptrs)" "block_call ptrs (int ?n) (int k)" "k = min 8 (unat (ab_channel_count inb))"
      "\<And>ch. ch < k \<Longrightarrow> ptrs ! ch = data32 inb ! ch" by auto
  have outb: "buffer_ok ?n out" using pr(1,5) by (simp add: process_ok_def)
  note o = channel_ptrs_set [OF outb refl] channel_ptrs_call [OF outb pr(2) refl]
  let ?ptrs = "take ?j (data32 out) @ replicate (8 - ?j) []"
  from live_block [OF w c p(2) pr(3) o(3) env, of api front] obtain c1 m1 x m' where
    r: "live_dispatch e (c, w) ptrs (int ?n) (int k) (shm w) = Inr (True, (c1, w), m1)"
      "live_read api front e (c1, w) ?ptrs (int ?n) (int ?j) m1 = Inr (True, echoed ?n (min k ?j) ptrs ?ptrs, x, m')" by blast
  have b: "take ?j (echoed ?n (min k ?j) ptrs ?ptrs) @ drop ?j (data32 out) = echoed ?n (min k ?j) (data32 inb) (data32 out)"
    using o(2) p(4) by (intro echoed_back) auto
  have "hardware_path (live_api api front w0) e (c, w) pr (shm w) =
      Inr (True, pr\<lparr>audio_outputs := out\<lparr>data32 := echoed ?n (min k ?j) (data32 inb) (data32 out)\<rparr> # outs\<rparr>, x, m')"
    using p(1) r o(1) pr(4,5) by (simp add: hardware_path_def live_api_def sint_small [OF pr(2)] b)
  then show "\<exists>p' m'. plugin_process (live_api api front w0) e (p\<lparr>mp_sdk_ctx := Some (c, w)\<rparr>) pr (shm w) =
      Inr (pr\<lparr>audio_outputs := out\<lparr>data32 := echoed ?n (min (min 8 (unat (ab_channel_count inb))) ?j) (data32 inb) (data32 out)\<rparr> # outs\<rparr>, p', m')"
    unfolding p(3) by (simp add: plugin_process_def)
  show "\<exists>p' m'. plugin_process (live_api api front w0) e (p\<lparr>mp_sdk_ctx := None\<rparr>) pr (shm w) = Inr (halved_outputs pr, p', m')"
    using cpu_fallback_halves [OF pr(1)] by (simp add: plugin_process_def)
qed

text \<open>A block of 64 samples of a mono input with the Vulkan device: the second output channel keeps its ones.\<close>

definition live_plugin :: "live_ctx my_plugin" where
  "live_plugin = \<lparr>mp_host = \<lparr>host_extension = (\<lambda>s. False)\<rparr>, host_dsp_accel = False, mp_sdk_ctx = None\<rparr>"

theorem plugin_hears_worker_witness:
  "\<exists>p' m'. plugin_process (live_api demo_api [] idle_worker) \<lparr>le_call = demo_cpp_env, le_work = demo_env\<rparr>
      (live_plugin\<lparr>mp_sdk_ctx := Some (demo_ctx, vulkan_worker demo_context)\<rparr>) (demo_block 64) shm_zero =
    Inr ((demo_block 64)\<lparr>audio_outputs := [demo_out_buffer\<lparr>data32 :=
      [replicate 64 (flit binary32 1) @ replicate 236 f32_zero, replicate 300 (flit binary32 1)]\<rparr>]\<rparr>, p', m')"
proof -
  note v = vulkan_worker_facts [OF pool_wf_demo]
  have pa: "passes_audio (vulkan_worker demo_context)"
    by (simp add: passes_audio_def vulkan_worker_def plain_node_def my_block_def wcb_zero_def idle_worker_def demo_worker_def
        add_node_to_sequence_def empty_graph_def)
  have b: "last_error (ctx_block demo_ctx (shm (vulkan_worker demo_context))) = NO_ERROR"
    "\<not> 10 < heartbeat_stalled_count (watchdog (heartbeat (ctx_block demo_ctx (shm (vulkan_worker demo_context)))) demo_ctx)"
    unfolding v(5) demo_ctx_ok(2) by (simp_all add: wcb_zero_def watchdog_def demo_ctx_def new_ctx_def)
  have pr: "process_ok (demo_block 64)" "unat (frames_count (demo_block 64)) \<le> 256" "0 < unat (frames_count (demo_block 64))"
    "audio_inputs (demo_block 64) = [demo_in_buffer]" "audio_outputs (demo_block 64) = [demo_out_buffer]"
    by (simp_all add: demo_block_ok) (simp_all add: demo_block_def)
  let ?e = "\<lparr>le_call = demo_cpp_env, le_work = demo_env\<rparr>"
  have e: "ce_linux (le_call ?e)" "signal_ok (ce_dispatch (le_call ?e))" "env_ok (le_work ?e)" "poll_ready (le_work ?e)" "read_ok (le_work ?e)"
    "0 < poll_result (ce_readback (le_call ?e))"
    using demo_pending(2) by (simp_all add: demo_cpp_env_def demo_dispatch_def demo_env_def demo_readback_def)
  have "echoed 64 1 [replicate 300 (flit binary32 1)] [replicate 300 f32_zero, replicate 300 (flit binary32 1)] =
      [replicate 64 (flit binary32 1) @ replicate 236 f32_zero, replicate 300 (flit binary32 1)]"
    by (simp add: echoed_def)
  then have x: "echoed (unat (frames_count (demo_block 64))) (min (min 8 (unat (ab_channel_count demo_in_buffer)))
        (min 8 (unat (ab_channel_count demo_out_buffer)))) (data32 demo_in_buffer) (data32 demo_out_buffer) =
      [replicate 64 (flit binary32 1) @ replicate 236 f32_zero, replicate 300 (flit binary32 1)]"
    by (simp add: demo_block_def demo_in_buffer_def demo_out_buffer_def)
  from plugin_hears_worker [OF v(1) pa v(2,4) b pr e, of demo_api "[]" idle_worker live_plugin, unfolded x v(5)] show ?thesis by blast
qed

end
