(* ===== verification/Daemon.thy ===== *)
theory Daemon
  imports Sdk_C
begin

text \<open>
  The stand-alone daemon \<open>daemon/main.cpp\<close>: it accepts a connection of the library, creates the shared
  memory and the event descriptors and sends them, and goes on to the next one. It starts no worker;
  the section at the end says what that means for a session of either library.
\<close>

section \<open>Serving a connection\<close>

text \<open>The answers of the system: the accepted descriptor, whether the metadata arrive, the new descriptors.\<close>

record daemon_env =
  dc_client :: int
  dc_meta_ok :: bool
  dc_memfd :: int
  dc_e_send :: int
  dc_e_recv :: int

text \<open>
  What a connection leaves behind: the worker number sent, the rights sent after it, the descriptors
  closed and those still open, and the memory behind the shared descriptor, all zero (the calls that
  size, seal and clear it are taken to succeed; the code does not look at their results).
\<close>

record daemon_session =
  ds_worker_id :: "u32 option"
  ds_rights :: "int list"
  ds_closed :: "int list"
  ds_kept :: "int list"
  ds_memory :: "dsp_shared_memory option"

text \<open>\<open>sendmsg\<close> refuses an invalid descriptor; its result is not looked at.\<close>

definition send_fd :: "int \<Rightarrow> int list" where
  "send_fd fd = (if 0 \<le> fd then [fd] else [])"

definition serve_connection :: "daemon_env \<Rightarrow> daemon_session" where
  "serve_connection env =
     (let none = \<lparr>ds_worker_id = None, ds_rights = [], ds_closed = [], ds_kept = [], ds_memory = None\<rparr> in
      if dc_client env < 0 then none
      else if \<not> dc_meta_ok env then none\<lparr>ds_closed := [dc_client env]\<rparr>
      else if dc_memfd env < 0 then none\<lparr>ds_closed := [dc_client env]\<rparr>
      else \<lparr>ds_worker_id = Some 0, ds_rights = send_fd (dc_memfd env) @ send_fd (dc_e_send env) @ send_fd (dc_e_recv env),
        ds_closed = [dc_client env], ds_kept = filter (\<lambda>fd. 0 \<le> fd) [dc_memfd env, dc_e_send env, dc_e_recv env],
        ds_memory = Some shm_zero\<rparr>)"

text \<open>The exit status and the sessions served until a signal ends the loop.\<close>

definition daemon_main :: "int \<Rightarrow> bool \<Rightarrow> daemon_env list \<Rightarrow> int \<times> daemon_session list" where
  "daemon_main server_fd bind_ok envs =
     (if server_fd < 0 then (1, [])
      else if \<not> bind_ok then (1, [])
      else (0, map serve_connection envs))"

text \<open>The messages a library receives: after the rights sent, the connection is closed.\<close>

definition rights_messages :: "daemon_session \<Rightarrow> rights_message \<times> rights_message \<times> rights_message" where
  "rights_messages s =
     (let ms = map Rights (ds_rights s) @ replicate 3 No_Message in (ms ! 0, ms ! 1, ms ! 2))"

section \<open>Descriptors\<close>

definition complete :: "daemon_env \<Rightarrow> bool" where
  "complete env \<longleftrightarrow> 0 \<le> dc_client env \<and> dc_meta_ok env \<and> 0 \<le> dc_memfd env \<and> 0 \<le> dc_e_send env \<and> 0 \<le> dc_e_recv env"

lemma serve_complete:
  "complete env \<Longrightarrow> serve_connection env = \<lparr>ds_worker_id = Some 0, ds_rights = [dc_memfd env, dc_e_send env, dc_e_recv env],
     ds_closed = [dc_client env], ds_kept = [dc_memfd env, dc_e_send env, dc_e_recv env], ds_memory = Some shm_zero\<rparr>"
  by (simp add: complete_def serve_connection_def send_fd_def)

text \<open>
  Of every connection the daemon closes the socket only: the memory descriptor and both event
  descriptors of each session stay open until the daemon ends.
\<close>

lemma daemon_keeps_three_per_session:
  assumes "0 \<le> server_fd" "list_all complete envs"
  shows "length (concat (map ds_kept (snd (daemon_main server_fd True envs)))) = 3 * length envs \<and>
    concat (map ds_closed (snd (daemon_main server_fd True envs))) = map dc_client envs"
  using assms by (induction envs) (simp_all add: daemon_main_def serve_complete)

section \<open>A session without a worker\<close>

text \<open>The calls a client makes, and the answers of its read-backs.\<close>

datatype 'e client_call = Call_Dispatch 'e "f32 list list" int int | Call_Read 'e "f32 list list" int int

fun client_step :: "('e, 'c) sdk_api \<Rightarrow> 'e client_call \<Rightarrow> 'c \<times> dsp_shared_memory \<times> (bool \<times> f32 list list) list
    \<Rightarrow> ('c \<times> dsp_shared_memory \<times> (bool \<times> f32 list list) list) outcome" where
  "client_step api (Call_Dispatch e buffers frames channels) (c, m, rs) =
     (case api_dispatch api e c buffers frames channels m of
        Inl err \<Rightarrow> Inl err | Inr (b, c', m') \<Rightarrow> Inr (c', m', rs))"
| "client_step api (Call_Read e buffers frames channels) (c, m, rs) =
     (case api_read_output api e c buffers frames channels m of
        Inl err \<Rightarrow> Inl err | Inr (b, buffers', c', m') \<Rightarrow> Inr (c', m', rs @ [(b, buffers')]))"

fun call_within :: "('e \<Rightarrow> bool) \<Rightarrow> 'e client_call \<Rightarrow> bool" where
  "call_within env_ok (Call_Dispatch e buffers frames channels) = (env_ok e \<and> block_call buffers frames channels)"
| "call_within env_ok (Call_Read e buffers frames channels) = (env_ok e \<and> block_call buffers frames channels)"

fun read_buffers :: "'e client_call list \<Rightarrow> f32 list list list" where
  "read_buffers [] = []"
| "read_buffers (Call_Dispatch e buffers frames channels # calls) = read_buffers calls"
| "read_buffers (Call_Read e buffers frames channels # calls) = buffers # read_buffers calls"

context sdk_interface
begin

text \<open>With no other party writing to it, an empty output queue stays empty and no read-back succeeds.\<close>

lemma silent_calls:
  assumes "ok c m" "items (out_queue m) = []" "list_all (call_within env_ok) calls"
  shows "\<exists>c' m'. for_each (client_step api) calls (c, m, rs) = Inr (c', m', rs @ map (\<lambda>b. (False, b)) (read_buffers calls))"
  using assms
proof (induction calls arbitrary: c m rs)
  case (Cons call calls)
  show ?case
  proof (cases call)
    case (Call_Dispatch e buffers frames channels)
    with Cons.prems(3) have w: "env_ok e" "block_call buffers frames channels" by simp_all
    from dispatch_law [OF Cons.prems(1) w] obtain b c1 m1 where
      "api_dispatch api e c buffers frames channels m = Inr (b, c1, m1)" "ok c1 m1" "out_queue m1 = out_queue m" by blast
    with Cons.IH [of c1 m1 rs] Cons.prems(2,3) Call_Dispatch show ?thesis by simp
  next
    case (Call_Read e buffers frames channels)
    with Cons.prems(3) have w: "env_ok e" "block_call buffers frames channels" by simp_all
    have "queue_bounded (out_queue m)" "\<not> read_overruns copied buffers frames channels m"
      using Cons.prems(2) by (simp_all add: queue_bounded_def read_overruns_def)
    with read_law [OF Cons.prems(1) w] obtain b bufs c1 m1 where
      r: "api_read_output api e c buffers frames channels m = Inr (b, bufs, c1, m1)" "ok c1 m1"
        "map length bufs = map length buffers"
      and del: "if b then (\<exists>f. items (out_queue m) = f # items (out_queue m1) \<and> delivers (copied frames f) f channels bufs)
        else bufs = buffers \<and> items (out_queue m1) = items (out_queue m)" by blast
    have nb: "\<not> b" "bufs = buffers" "items (out_queue m1) = []" using del Cons.prems(2) by (auto split: if_splits)
    with Cons.IH [of c1 m1 "rs @ [(False, buffers)]"] Cons.prems(3) r nb Call_Read show ?thesis by simp
  qed
qed simp

end

text \<open>The connections of the two libraries to the daemon; \<open>fd\<close> is the client's socket.\<close>

definition cpp_joins :: "int \<Rightarrow> daemon_session \<Rightarrow> connect_env" where
  "cpp_joins fd s = \<lparr>alloc_ok = True, sock = fd, connect_ok = True, send_ok = True, recv_worker_id = ds_worker_id s,
     fd_messages = rights_messages s, map_ok = True\<rparr>"

definition c_joins :: "int \<Rightarrow> daemon_session \<Rightarrow> c_connect_env" where
  "c_joins fd s = \<lparr>c_sock = fd, c_connect_ok = True, c_response_ok = (ds_worker_id s \<noteq> None), c_messages = rights_messages s,
     c_calloc_ok = True, c_map_ok = True\<rparr>"

lemma complete_messages:
  "complete env \<Longrightarrow> rights_messages (serve_connection env) = (Rights (dc_memfd env), Rights (dc_e_send env), Rights (dc_e_recv env))"
  by (simp add: rights_messages_def serve_complete)

text \<open>
  C26: a session with the stand-alone daemon connects and never returns audio. Both libraries get the
  three descriptors and a context with shared memory, but the daemon starts no worker: whatever blocks
  the plugin then dispatches and whenever it reads, every read-back reports failure and leaves the
  buffers alone.
\<close>

theorem daemon_session_delivers_nothing:
  assumes "complete env" "0 \<le> fd" "ds_memory (serve_connection env) = Some m"
    and "list_all (call_within (\<lambda>e. True)) calls" "list_all (call_within (\<lambda>e. frame_wf (ce_stack e))) calls'"
  shows "(\<exists>c c1 m'. sdk_connect True (cpp_joins fd (serve_connection env)) ty cost m = Inr (Some c, []) \<and> cx_shm c \<and>
      cx_shm_fd c = dc_memfd env \<and>
      for_each (client_step cpp_api) calls (c, m, []) = Inr (c1, m', map (\<lambda>b. (False, b)) (read_buffers calls))) \<and>
    (\<exists>c c1 m'. c_connect (c_joins fd (serve_connection env)) ty = Inr (Some c, []) \<and> cc_shm c \<and> cc_shm_fd c = dc_memfd env \<and>
      for_each (client_step c_api) calls' (c, m, []) = Inr (c1, m', map (\<lambda>b. (False, b)) (read_buffers calls')))"
proof
  have fds: "0 \<le> dc_memfd env" "0 \<le> dc_e_send env" "0 \<le> dc_e_recv env" using assms(1) by (simp_all add: complete_def)
  have m: "m = shm_zero" using assms(3) serve_complete [OF assms(1)] by simp
  have wid: "ds_worker_id (serve_connection env) = Some 0" using serve_complete [OF assms(1)] by simp
  have k: "control_block shm_zero 0 = Inr wcb_zero" by (simp add: control_block_def)
  obtain c where c: "sdk_connect True (cpp_joins fd (serve_connection env)) ty cost m = Inr (Some c, [])" "cx_shm c" "cx_shm_fd c = dc_memfd env"
    using fds assms(2) k
    by (simp add: sdk_connect_def cpp_joins_def complete_messages [OF assms(1)] wid m Let_def)
  have "cpp_ok c m" by (rule cpp_connect_ok [OF _ c(1)]) (simp add: m)
  from cpp.silent_calls [OF this _ assms(4), of "[]"] c show
    "\<exists>c c1 m'. sdk_connect True (cpp_joins fd (serve_connection env)) ty cost m = Inr (Some c, []) \<and> cx_shm c \<and>
      cx_shm_fd c = dc_memfd env \<and>
      for_each (client_step cpp_api) calls (c, m, []) = Inr (c1, m', map (\<lambda>b. (False, b)) (read_buffers calls))"
    by (auto simp: m)
  obtain c where c: "c_connect (c_joins fd (serve_connection env)) ty = Inr (Some c, [])" "cc_shm c" "cc_shm_fd c = dc_memfd env"
    using fds assms(2)
    by (simp add: c_connect_def c_joins_def complete_messages [OF assms(1)] wid Let_def)
  have "shm_wf m" by (simp add: m)
  from clib.silent_calls [where c = c and rs = "[]", OF this _ assms(5)] c show
    "\<exists>c c1 m'. c_connect (c_joins fd (serve_connection env)) ty = Inr (Some c, []) \<and> cc_shm c \<and> cc_shm_fd c = dc_memfd env \<and>
      for_each (client_step c_api) calls' (c, m, []) = Inr (c1, m', map (\<lambda>b. (False, b)) (read_buffers calls'))"
    by (auto simp: m)
qed

definition demo_daemon_env :: daemon_env where
  "demo_daemon_env = \<lparr>dc_client = 7, dc_meta_ok = True, dc_memfd = 8, dc_e_send = 9, dc_e_recv = 10\<rparr>"

definition demo_answers :: cpp_env where
  "demo_answers = \<lparr>ce_linux = True, ce_connect = demo_connect, ce_dispatch = demo_dispatch, ce_readback = demo_readback\<rparr>"

theorem daemon_session_delivers_nothing_witness:
  "\<exists>c c1 m'. sdk_connect True (cpp_joins 3 (serve_connection demo_daemon_env)) DSP_ACCEL_TYPE_MASSIVELY_PARALLEL (flit binary32 150) shm_zero =
      Inr (Some c, []) \<and> cx_shm_fd c = 8 \<and>
    for_each (client_step cpp_api) [Call_Dispatch demo_answers demo_buffers 64 2, Call_Read demo_answers demo_buffers 64 2] (c, shm_zero, []) =
      Inr (c1, m', [(False, demo_buffers)])"
proof -
  have call: "block_call demo_buffers 64 2" by (auto simp: block_call_def demo_buffers_def less_2_cases_iff)
  have "complete demo_daemon_env" by (simp add: complete_def demo_daemon_env_def)
  moreover from serve_complete [OF this] have "ds_memory (serve_connection demo_daemon_env) = Some shm_zero" by simp
  moreover have "list_all (call_within (\<lambda>e. True)) [Call_Dispatch demo_answers demo_buffers 64 2, Call_Read demo_answers demo_buffers 64 2]"
    using call by simp
  moreover have "dc_memfd demo_daemon_env = 8" by (simp add: demo_daemon_env_def)
  ultimately show ?thesis
    using daemon_session_delivers_nothing [of demo_daemon_env 3 shm_zero
        "[Call_Dispatch demo_answers demo_buffers 64 2, Call_Read demo_answers demo_buffers 64 2]" "[]"
        DSP_ACCEL_TYPE_MASSIVELY_PARALLEL "flit binary32 150"] by auto
qed

end
