(* ===== verification/Bridges.thy ===== *)
theory Bridges
  imports Sdk_Api
begin

text \<open>
  The glue for other plugin formats: \<open>clap/wrappers/lv2/lv2_bridge.h\<close> and
  \<open>clap/wrappers/vst3/vst3_bridge.h\<close>. Both forward to the library; the latency is only offered by the
  C++ one, which is therefore the one they are given here.
\<close>

section \<open>LV2\<close>

definition lv2_connect :: "cpp_env \<Rightarrow> DspWorkloadType \<Rightarrow> f32 \<Rightarrow> dsp_shared_memory \<Rightarrow> sdk_ctx option outcome" where
  "lv2_connect e ty cost m = api_connect cpp_api e ty cost m"

text \<open>The input and the output port become the two channels of the block.\<close>

definition lv2_dispatch :: "cpp_env \<Rightarrow> sdk_ctx \<Rightarrow> f32 list \<Rightarrow> f32 list \<Rightarrow> u32 \<Rightarrow> dsp_shared_memory
    \<Rightarrow> (bool \<times> sdk_ctx \<times> dsp_shared_memory) outcome" where
  "lv2_dispatch e h inp out n_samples m = api_dispatch cpp_api e h [inp, out] (sint n_samples) 2 m"

definition lv2_latency :: "sdk_ctx option \<Rightarrow> int" where
  "lv2_latency h = sdk_get_latency_samples h"

definition lv2_disconnect :: "sdk_ctx option \<Rightarrow> int list" where
  "lv2_disconnect h = (case h of None \<Rightarrow> [] | Some c \<Rightarrow> api_disconnect cpp_api c)"

section \<open>VST3\<close>

record vst3_bridge =
  bridge_ctx :: "sdk_ctx option"

definition new_vst3_bridge :: vst3_bridge where
  "new_vst3_bridge = \<lparr>bridge_ctx = None\<rparr>"

definition vst3_destroy :: "vst3_bridge \<Rightarrow> int list" where
  "vst3_destroy b = (case bridge_ctx b of None \<Rightarrow> [] | Some c \<Rightarrow> api_disconnect cpp_api c)"

text \<open>Connecting again overwrites the context.\<close>

definition vst3_connect :: "cpp_env \<Rightarrow> DspWorkloadType \<Rightarrow> f32 \<Rightarrow> vst3_bridge \<Rightarrow> dsp_shared_memory
    \<Rightarrow> (bool \<times> vst3_bridge) outcome" where
  "vst3_connect e ty cost b m =
     (case api_connect cpp_api e ty cost m of
        Inl err \<Rightarrow> Inl err
      | Inr ctx \<Rightarrow> Inr (ctx \<noteq> None, b\<lparr>bridge_ctx := ctx\<rparr>))"

definition vst3_dispatch :: "cpp_env \<Rightarrow> vst3_bridge \<Rightarrow> f32 list list \<Rightarrow> int \<Rightarrow> int \<Rightarrow> dsp_shared_memory
    \<Rightarrow> (bool \<times> vst3_bridge \<times> dsp_shared_memory) outcome" where
  "vst3_dispatch e b channel_buffers num_samples num_channels m =
     (case bridge_ctx b of
        None \<Rightarrow> Inr (False, b, m)
      | Some c \<Rightarrow> (case api_dispatch cpp_api e c channel_buffers num_samples num_channels m of
           Inl err \<Rightarrow> Inl err
         | Inr (r, c', m') \<Rightarrow> Inr (r, b\<lparr>bridge_ctx := Some c'\<rparr>, m')))"

definition vst3_get_latency_samples :: "vst3_bridge \<Rightarrow> int" where
  "vst3_get_latency_samples b = (case bridge_ctx b of None \<Rightarrow> 0 | Some c \<Rightarrow> sdk_get_latency_samples (Some c))"

section \<open>What a run of blocks does\<close>

text \<open>Calls of the LV2 plugin's \<open>run\<close>: the environment, the two ports and the length.\<close>

definition lv2_run :: "cpp_env \<times> f32 list \<times> f32 list \<times> u32 \<Rightarrow> sdk_ctx \<times> dsp_shared_memory \<times> bool list
    \<Rightarrow> (sdk_ctx \<times> dsp_shared_memory \<times> bool list) outcome" where
  "lv2_run = (\<lambda>(e, inp, out, n) (h, m, rs). case lv2_dispatch e h inp out n m of
     Inl err \<Rightarrow> Inl err | Inr (r, h', m') \<Rightarrow> Inr (h', m', rs @ [r]))"

definition port_call :: "cpp_env \<times> f32 list \<times> f32 list \<times> u32 \<Rightarrow> bool" where
  "port_call = (\<lambda>(e, inp, out, n). block_call [inp, out] (sint n) 2)"

text \<open>
  The bridge has no call that reads back: after any run of blocks the output queue is what it was, and
  for every block that was accepted the queue to the worker holds a frame whose second channel is what
  the output port held.
\<close>

lemma lv2_never_reads:
  assumes "cpp_ok h m" "list_all port_call calls"
  shows "\<exists>h' m' rs'. for_each lv2_run calls (h, m, rs) = Inr (h', m', rs @ rs') \<and> length rs' = length calls \<and>
    cpp_ok h' m' \<and> out_queue m' = out_queue m"
  using assms
proof (induction calls arbitrary: h m rs)
  case (Cons call calls)
  obtain e inp out n where c: "call = (e, inp, out, n)" by (metis surj_pair)
  with Cons.prems(2) have "block_call [inp, out] (sint n) 2" by (simp add: port_call_def)
  from cpp.dispatch_law [OF Cons.prems(1) TrueI this, of e] obtain b h1 m1 where
    d: "lv2_dispatch e h inp out n m = Inr (b, h1, m1)" "cpp_ok h1 m1" "out_queue m1 = out_queue m"
    by (auto simp: lv2_dispatch_def)
  from Cons.IH [OF d(2), of "rs @ [b]"] Cons.prems(2) obtain h' m' rs' where
    "for_each lv2_run calls (h1, m1, rs @ [b]) = Inr (h', m', (rs @ [b]) @ rs')" "length rs' = length calls" "cpp_ok h' m'"
    "out_queue m' = out_queue m1" by auto
  with d c show ?case by (intro exI [of _ h'] exI [of _ m'] exI [of _ "b # rs'"]) (simp add: lv2_run_def)
qed simp

lemma lv2_block:
  assumes "cpp_ok h m" "block_call [inp, out] (sint n) 2"
  shows "\<exists>b h' m'. lv2_dispatch e h inp out n m = Inr (b, h', m') \<and> cpp_ok h' m' \<and> out_queue m' = out_queue m \<and>
    (b \<longrightarrow> (\<exists>f. items (in_queue m') = items (in_queue m) @ [f] \<and> unat (channel_count f) = 2 \<and>
       channel_block (samples f) 0 (nat (sint n)) = take (nat (sint n)) inp \<and>
       channel_block (samples f) 1 (nat (sint n)) = take (nat (sint n)) out))"
proof -
  have two: "unat c = 2 \<longleftrightarrow> int (unat c) = 2" for c :: u32 by linarith
  from cpp.dispatch_law [OF assms(1) TrueI assms(2), of e] show ?thesis
    unfolding lv2_dispatch_def carries_def two by (fastforce simp: nth_Cons')
qed

end
