(* ===== verification/Spec2Isabelle.thy ===== *)
theory Spec2Isabelle
  imports Ring_Concurrent Vulkan_Mock Worker_Faults Two_Plugins Worker_Main Supervisor_Run Remote_Net Plugin_System Daemon Bridges
begin

text \<open>
  Verification of the DSP acceleration system: audio plugins hand blocks of samples to worker
  processes that run them on a GPU, a processor array or a remote machine.

  The program. A plugin calls a library (\<open>sdk/\<close>), which gets the descriptors of a shared memory and of
  two event counters from a supervisor over a Unix socket. The library queues blocks in the shared
  memory (\<open>daemon/ipc/include/ipc_shm.hpp\<close>) and signals the worker (\<open>daemon/worker.cpp\<close>), which runs the
  block through a graph of nodes (\<open>daemon/node_graph.hpp\<close>), writes it to the output queue and signals
  back. A node is a Vulkan device, a processor array (\<open>daemon/npu_array_backend.hpp\<close>) or a remote host
  (\<open>daemon/network_node.hpp\<close>). The supervisor is a PipeWire module
  (\<open>daemon/pipewire/module-dsp-accel.cpp\<close>) or the stand-alone daemon \<open>daemon/main.cpp\<close>.

  The theories and what they model.
  \<^item> \<open>Prelude\<close>: machine integers, outcomes with undefined behaviour as an error value, loops, \<open>memcpy\<close>.
  \<^item> \<open>Ring\<close>, \<open>Ring_Concurrent\<close>: \<open>ShmSPSCRingBuffer\<close> of \<open>ipc_shm.hpp\<close> and of \<open>Linux_DSP_accelleration.hpp\<close>,
    sequentially (locale \<open>fifo_interface\<close>, two interpretations) and as interleaved accesses with stale
    acquire loads, an inductive step relation with an invariant, for \<open>push\<close> and \<open>pop\<close> as well as for slots
    that are filled and worked on in place (\<open>reserve_write\<close>, \<open>peek_read\<close> and their commits).
  \<^item> \<open>Layout\<close>: sizes and offsets of the shared structures. \<open>Shm\<close>: the structures as records, and the
    invariant \<open>shm_wf\<close> that every operation keeps. \<open>Float_Arith\<close>: IEEE 754 arithmetic of the code.
  \<^item> \<open>Vulkan_Driver\<close>, \<open>Vulkan_Compute\<close>, \<open>Vulkan_Mock\<close>: the driver interface (locale \<open>vulkan_driver\<close>), the driver
    \<open>daemon/vulkan/vulkan_compute.c\<close> over a parameter for the Vulkan API, the stand-in
    \<open>vulkan_compute.cpp\<close> and \<open>daemon/parallel_processor.hpp\<close>.
  \<^item> \<open>Backend\<close>, \<open>Node_Graph\<close>: \<open>IDspNode\<close> (locale \<open>dsp_node\<close>), its implementations, and the graph.
  \<^item> \<open>Worker\<close>, \<open>Worker_Spec\<close>: start-up, loop body and loop of \<open>daemon/worker.cpp\<close>. \<open>Worker_Faults\<close>: when an
    iteration leaves the defined behaviour, and what it keeps otherwise. \<open>Worker_Main\<close>: the start-up and
    the loop of its copy \<open>daemon/worker_main.cpp\<close> and what distinguishes the two.
  \<^item> \<open>Sdk\<close>, \<open>Sdk_Spec\<close>: the C++ library \<open>sdk/src/dsp_accel_sdk.cpp\<close>. \<open>Sdk_Api\<close>: the interface
    \<open>sdk/include/dsp_accel_sdk.h\<close> and the contract its clients rely on (locale \<open>sdk_interface\<close>), with the
    C++ library as an instance. \<open>Sdk_C\<close>: the C library \<open>sdk/src/dsp_accel_sdk.c\<close>, the other instance.
  \<^item> \<open>System\<close>: library and worker over the same memory, one exchange at a time. \<open>Pipeline\<close>: the abstract
    specification of a session, blocks that move one per wake-up between two bounded stages, with its
    invariants. \<open>Session\<close>: a plugin and a worker with both event counters, an inductive step relation over
    their calls in any order, and the proof that it refines the pipeline. \<open>Session_Cycles\<close>: cycles of a host
    that dispatches, waits and reads back, lost wake-ups and blocks left behind.
  \<^item> \<open>Supervisor\<close>, \<open>Supervisor_Spec\<close>: the PipeWire module. \<open>Supervisor_Run\<close>: its runs, in which the workers
    change their memory and requests restart them, with the descriptors opened and overwritten. \<open>Handoff\<close>:
    how a worker process receives its descriptors, and what happens when one is missing. \<open>Whole_System\<close>:
    the module, the worker process it starts, a plugin that connects and the session between them, from
    start-up to the processed block. \<open>Two_Plugins\<close>: two plugins of one type, and two producers on one ring.
    \<open>Daemon\<close>: the stand-alone daemon and its sessions with either library.
  \<^item> \<open>Remote\<close>, \<open>Remote_Spec\<close>: \<open>RemoteDspNode\<close> with its jitter buffer and \<open>NetworkServerNode\<close>. \<open>Remote_Net\<close>:
    both ends with their threads interleaved, over a network that loses, repeats and reorders packets.
  \<^item> \<open>Plugin\<close>, \<open>Plugin_Spec\<close>: the example plugin \<open>clap/plugin_example/src/plugin.cpp\<close> over any library.
    \<open>Plugin_System\<close>: the plugin over the C++ library with a worker that answers while the library waits.
    \<open>Bridges\<close>: the LV2 and VST3 headers of \<open>clap/wrappers\<close>.

  Conventions. A structure is a record, a pointer that may be null an \<open>option\<close>, an index into an array
  a number; \<open>uint32_t\<close> and \<open>uint64_t\<close> are words, \<open>int\<close> an integer whose conversions are written out. An
  operation that can leave the defined behaviour of the language returns \<open>c_error + 'a\<close>. The answers of
  the system, of the Vulkan API, of clocks and sockets are parameters, records named after the call
  they belong to (\<open>connect_env\<close>, \<open>loop_env\<close>, \<open>spawn_env\<close>, \<open>vk_api\<close>, \<open>net_env\<close>, and so on); no theorem restricts
  them except where its hypotheses say so. Descriptors that are opened and closed are returned as lists.

  What the properties show.
  \<^item> The whole: if the start-up and the connection succeed and the accelerator is there, every cycle of a
    host returns its own block, and so does one call of the example plugin: without the zero-copy mode
    neither the Vulkan device nor the processor array changes a sample.
  \<^item> Data path: FIFO order and freedom from data races of the rings; a block dispatched by the library
    comes back through the worker; the memory and control buses. Every session refines the pipeline,
    so the plugin receives blocks in the order of dispatch; two signals that the worker reads at once
    lose a wake-up, and the blocks left behind never become fewer: from then on the output lags by
    them, for good, and when 15 are left behind the session is stuck.
  \<^item> Sharing: two plugins of a type get one channel and take each other's blocks; two producers on a ring
    overwrite each other's slot and can empty it.
  \<^item> Bounds: the worker's iteration returns and keeps its state well-formed except in three named cases, which
    are exactly those in which it leaves the defined behaviour; the plugin's block stays within its arrays
    with the C library, and with the C++ library unless the processed block is longer than the output;
    where the code relies on its caller otherwise (buffers shorter than the block, blocks longer than
    256 samples) the theorem says exactly when it fails. The device memory pool: freeing a handle undoes
    its allocation, whatever else is allocated. The zero-copy path binds the device to the frame's
    header; the stand-in driver scales the wrong part of a short block.
  \<^item> Network: the receiving thread refines a map from sequence numbers to frames (\<open>reorder_step\<close>); it
    delivers a window in order; no schedule of the two ends delivers anything, because the handshake
    takes number 0.
  \<^item> Resources: the descriptors of the libraries, the module, the daemon and the plugin's life cycle.
  \<^item> Supervision: routing of requests, the channel of a session, dead workers, a daemon without workers.
    The handoff of a worker's descriptors is all or nothing, and unchecked by the module.
    A failed worker is replaced and serves the request after the next; every restart loses the three
    descriptors of the worker before, and sessions opened before it keep the memory of the dead worker.

  Bounds and fuel. Loops are structural recursions, index loops over a list, or \<open>function\<close>s with a
  termination proof (\<open>drain_ready\<close>: the number of set flags decreases). A worker's pop loop has the
  capacity of the ring as fuel, which is more than it can hold (\<open>drain_fuel_eq\<close>). \<open>ready_run\<close> has 32
  steps, the width of the window beyond which nothing is held.

  Granularity. The rings are also modelled access by access; in \<open>Session\<close>, \<open>Supervisor_Run\<close> and \<open>Remote_Net\<close> a
  step is one call of an operation (one dispatch, one read-back, one worker iteration, one request,
  one packet), and calls of different processes alternate in any order.

  Not modelled. \<open>daemon/worker_main.cpp\<close> uses its three descriptors without declaring them: they are
  parameters of its model, and its copies of the option parser, of \<open>recv_fd\<close> and of the Vulkan back end,
  which repeat those of \<open>worker.cpp\<close>, are not stated twice. \<open>daemon/monitoring/include/monitor.h\<close> and
  \<open>daemon/ipc/include/sandbox.h\<close> declare functions without a definition. The compute shader, the PipeWire
  objects, thread priorities, prints and the MCP server are outside the models. The output queue of a
  session with \<open>RemoteDspNode\<close> has two producers, its receiving thread and the worker; what that does to
  the ring is shown in \<open>Two_Plugins\<close>, the model of such a session (\<open>Remote_Net\<close>) holds the network part
  only. The memory model of the structures other than the rings is sequential.
\<close>

end
